(* ===== verification/Tuna_Prelude.thy ===== *)
theory Tuna_Prelude
  imports Main "HOL-Library.Word" "HOL-Library.AList" "HOL-Library.Multiset"
begin

text \<open>
  Shared vocabulary of the development: bytes and strings, Go's three ways of leaving a
  function (a value, an error, a panic), Go maps as association lists, the contract of a
  machine with an inductive invariant, and the bundles of facts that the proofs of the
  component theories share.
\<close>

named_theorems gomap_eval \<open>definitions for evaluating Go maps on concrete values\<close>

section \<open>Bytes and strings\<close>

type_synonym byte = "8 word"
type_synonym bytes = "byte list"

text \<open>A Go string is a byte sequence; \<open>[]byte(s)\<close> and \<open>string(b)\<close> copy it.\<close>

definition byte_of_char :: "char \<Rightarrow> byte" where
  "byte_of_char c = word_of_nat (of_char c)"

definition char_of_byte :: "byte \<Rightarrow> char" where
  "char_of_byte b = char_of (unat b)"

definition bytes_of_string :: "string \<Rightarrow> bytes" where
  "bytes_of_string s = map byte_of_char s"

definition string_of_bytes :: "bytes \<Rightarrow> string" where
  "string_of_bytes bs = map char_of_byte bs"

lemma char_of_byte_of_char [simp]: "char_of_byte (byte_of_char c) = c"
proof -
  have "unat (word_of_nat (of_char c) :: byte) = (of_char c :: nat)"
    by (simp add: unat_of_nat)
  then show ?thesis
    by (simp add: char_of_byte_def byte_of_char_def)
qed

lemma string_of_bytes_of_string [simp]: "string_of_bytes (bytes_of_string s) = s"
  by (simp add: string_of_bytes_def bytes_of_string_def o_def)

lemma length_bytes_of_string [simp]: "length (bytes_of_string s) = length s"
  by (simp add: bytes_of_string_def)


section \<open>Errors, panics, outcomes\<close>

text \<open>
  The errors the package returns: the variables of \<open>client.go\<close> (lines 36 to 44), the
  errors it builds with \<open>errors.New\<close> and \<open>fmt.Errorf\<close>, and the standard library's and
  ncp's errors that the code compares against. \<open>ErrExt n\<close> is any other error that comes
  back from code outside the package.
\<close>

datatype go_error =
    ErrClosed | ErrNoPubAddr | ErrRemoteAddrRejected | ErrWrongMsgFormat | ErrWrongAddr
  | ErrOnlyDailer | ErrNilConn
  | ErrMessageTooShort | ErrDecryptFailed | ErrInvalidMsgSize nat nat
  | ErrPubKeyLength nat | ErrPubKeyConversion bytes | ErrConnNil string
  | ErrWrongParamsAddr | ErrIndexOutOfRange | ErrWalletEmpty | ErrListenFirst | ErrNoFreePort
  | ErrEOF | ErrUnexpectedEOF | ErrNetClosed | ErrSessionClosed | ErrNknClosed | ErrInvalidPort
  | ErrSyntax string | ErrRange string | ErrWrongByte int int byte | ErrShortWrite nat nat
  | ErrHexLength | ErrHexByte char | ErrIOShortWrite
  | ErrContext nat | ErrExt nat

text \<open>Run-time panics: a Go goroutine that panics takes the whole process down.\<close>

datatype go_panic =
    NilDereference | MakeSliceLen int | SliceBounds int int | IndexOutOfRange int
  | NilMapWrite | CloseOfClosedChannel | MakeChanSize int | DivideByZero

datatype 'a outcome = Ok 'a | Err go_error | Panic go_panic

fun obind :: "'a outcome \<Rightarrow> ('a \<Rightarrow> 'b outcome) \<Rightarrow> 'b outcome" where
  "obind (Ok x) f = f x"
| "obind (Err e) f = Err e"
| "obind (Panic p) f = Panic p"

lemma map_outcome_eqs [simp]:
  "map_outcome f r = Ok y \<longleftrightarrow> (\<exists>x. r = Ok x \<and> y = f x)"
  "map_outcome f r = Err e \<longleftrightarrow> r = Err e" "map_outcome f r = Panic p \<longleftrightarrow> r = Panic p"
  by (cases r; auto)+

text \<open>The case distinctions of a body with optional values, branches, results and errors.\<close>

lemmas go_splits = option.splits if_splits prod.splits outcome.splits

definition no_panic :: "'a outcome \<Rightarrow> bool" where
  "no_panic r = (case r of Panic _ \<Rightarrow> False | _ \<Rightarrow> True)"

lemma no_panic_simps [simp]:
  "no_panic (Ok x)" "no_panic (Err e)" "\<not> no_panic (Panic p)"
  by (simp_all add: no_panic_def)

lemma obind_eq_Ok [simp]: "obind r f = Ok y \<longleftrightarrow> (\<exists>x. r = Ok x \<and> f x = Ok y)"
  by (cases r) auto

section \<open>Go maps\<close>

text \<open>
  A Go map is an association list with distinct keys: \<open>len(m) == 0\<close> is \<open>m = []\<close>, a range
  loop walks the list (Go leaves the order open; nothing below depends on it), reading a
  missing key gives \<open>None\<close> (Go's \<open>nil\<close> or \<open>ok == false\<close>).
\<close>

type_synonym ('k, 'v) gomap = "('k \<times> 'v) list"

definition mget :: "('k, 'v) gomap \<Rightarrow> 'k \<Rightarrow> 'v option" where
  "mget m k = map_of m k"

definition mput :: "('k, 'v) gomap \<Rightarrow> 'k \<Rightarrow> 'v \<Rightarrow> ('k, 'v) gomap" where
  "mput m k v = AList.update k v m"

definition mdel :: "('k, 'v) gomap \<Rightarrow> 'k \<Rightarrow> ('k, 'v) gomap" where
  "mdel m k = AList.delete k m"

definition mwf :: "('k, 'v) gomap \<Rightarrow> bool" where
  "mwf m = distinct (map fst m)"

text \<open>Reading an \<open>int\<close>-valued map gives 0 for a missing key, so \<open>m[k]++\<close> starts at 1.\<close>

definition mget0 :: "('k, int) gomap \<Rightarrow> 'k \<Rightarrow> int" where
  "mget0 m k = (case mget m k of None \<Rightarrow> 0 | Some v \<Rightarrow> v)"

definition mincr :: "('k, int) gomap \<Rightarrow> 'k \<Rightarrow> ('k, int) gomap" where
  "mincr m k = mput m k (mget0 m k + 1)"

definition mdecr :: "('k, int) gomap \<Rightarrow> 'k \<Rightarrow> ('k, int) gomap" where
  "mdecr m k = mput m k (mget0 m k - 1)"

declare mget_def [gomap_eval] mput_def [gomap_eval] mdel_def [gomap_eval] mget0_def [gomap_eval] mincr_def [gomap_eval]

definition mkeys :: "('k, 'v) gomap \<Rightarrow> 'k set" where
  "mkeys m = fst ` set m"

lemma mget_Nil [simp]: "mget [] k = None"
  by (simp add: mget_def)

lemma mget_mput [simp]: "mget (mput m k v) k' = (if k' = k then Some v else mget m k')"
  by (simp add: mget_def mput_def update_conv')

lemma mget_mdel [simp]: "mget (mdel m k) k' = (if k' = k then None else mget m k')"
  by (simp add: mget_def mdel_def delete_conv')

lemma mget0_Nil [simp]: "mget0 [] k = 0"
  by (simp add: mget0_def)

lemma mget0_mput [simp]: "mget0 (mput m k v) k' = (if k' = k then v else mget0 m k')"
  by (simp add: mget0_def)

lemma mget0_mdel [simp]: "mget0 (mdel m k) k' = (if k' = k then 0 else mget0 m k')"
  by (simp add: mget0_def)

lemma mget0_mincr [simp]: "mget0 (mincr m k) k' = (if k' = k then mget0 m k + 1 else mget0 m k')"
  by (simp add: mincr_def)

lemma mget0_mdecr [simp]: "mget0 (mdecr m k) k' = (if k' = k then mget0 m k - 1 else mget0 m k')"
  by (simp add: mdecr_def)

lemma mget_mincr [simp]:
  "mget (mincr m k) k' = (if k' = k then Some (mget0 m k + 1) else mget m k')"
  by (simp add: mincr_def)

lemma mget_mdecr [simp]:
  "mget (mdecr m k) k' = (if k' = k then Some (mget0 m k - 1) else mget m k')"
  by (simp add: mdecr_def)

lemma mget_eq_None_iff: "mget m k = None \<longleftrightarrow> k \<notin> mkeys m"
  by (simp add: mget_def mkeys_def map_of_eq_None_iff)

lemma empty_iff_no_key: "m = [] \<longleftrightarrow> (\<forall>k. mget m k = None)"
  by (cases m) (auto simp: mget_def)

lemma mput_nonempty [simp]: "mput m k v \<noteq> []"
  using mget_mput [of m k v k] by (auto simp: mget_def)

lemma mwf_Nil [simp]: "mwf []"
  by (simp add: mwf_def)

lemma mwf_mput [simp]: "mwf m \<Longrightarrow> mwf (mput m k v)"
  by (simp add: mwf_def mput_def distinct_update)

lemma mwf_mdel [simp]: "mwf m \<Longrightarrow> mwf (mdel m k)"
  by (simp add: mwf_def mdel_def distinct_delete)

lemma mget_Some_iff: "mwf m \<Longrightarrow> mget m k = Some v \<longleftrightarrow> (k, v) \<in> set m"
  by (simp add: mget_def mwf_def map_of_eq_Some_iff)

section \<open>Machines with an invariant\<close>

text \<open>
  The components that several goroutines drive are step relations: each step is one critical
  section of the code, its result an \<open>outcome\<close> so that a panicking step is visible. The
  first contract is that an invariant holds initially and is kept by every step; the second
  adds that no step panics from a state that satisfies it.
\<close>

inductive reachable :: "('s \<Rightarrow> bool) \<Rightarrow> ('s \<Rightarrow> 's outcome \<Rightarrow> bool) \<Rightarrow> 's \<Rightarrow> bool"
  for init step where
  reach_start: "init s \<Longrightarrow> reachable init step s"
| reach_step: "reachable init step s \<Longrightarrow> step s (Ok t) \<Longrightarrow> reachable init step t"

locale invariant_machine =
  fixes init :: "'s \<Rightarrow> bool"
    and step :: "'s \<Rightarrow> 's outcome \<Rightarrow> bool"
    and inv :: "'s \<Rightarrow> bool"
  assumes inv_init: "init s \<Longrightarrow> inv s"
    and inv_step: "inv s \<Longrightarrow> step s (Ok t) \<Longrightarrow> inv t"
begin

lemma reachable_inv: "reachable init step s \<Longrightarrow> inv s"
  by (induction rule: reachable.induct) (auto intro: inv_init inv_step)

end

locale safe_machine = invariant_machine +
  assumes inv_safe: "inv s \<Longrightarrow> \<not> step s (Panic p)"
begin

lemma reachable_no_panic: "reachable init step s \<Longrightarrow> step s r \<Longrightarrow> no_panic r"
  by (cases r) (auto dest: reachable_inv inv_safe)

end

text \<open>
  A machine implements a specification when every step, seen through the abstraction \<open>abs\<close>, is
  a step of the specification or leaves the abstract state as it is.
\<close>

locale simulation = invariant_machine +
  fixes abs :: "'s \<Rightarrow> 'a"
    and ainit :: "'a \<Rightarrow> bool"
    and astep :: "'a \<Rightarrow> 'a \<Rightarrow> bool"
  assumes abs_init: "init s \<Longrightarrow> ainit (abs s)"
    and abs_step: "inv s \<Longrightarrow> step s (Ok t) \<Longrightarrow> astep (abs s) (abs t) \<or> abs t = abs s"
begin

lemma reachable_abs: "reachable init step s \<Longrightarrow> \<exists>a. ainit a \<and> astep\<^sup>*\<^sup>* a (abs s)"
proof (induction rule: reachable.induct)
  case (reach_start s)
  then show ?case using abs_init by blast
next
  case (reach_step s t)
  then have "astep\<^sup>*\<^sup>* (abs s) (abs t)" using abs_step [OF reachable_inv] by fastforce
  then show ?case using reach_step.IH by (meson rtranclp_trans)
qed

end

section \<open>Reference counts\<close>

text \<open>
  A counter \<open>cnt\<close> tracks a list of live users when it gives, for every key, the number of
  live users under that key. A reference counter keeps this under \<open>inc\<close> and \<open>dec\<close>.
\<close>

definition tracks :: "('s \<Rightarrow> 'k \<Rightarrow> int) \<Rightarrow> 's \<Rightarrow> 'k list \<Rightarrow> bool" where
  "tracks cnt s ks \<longleftrightarrow> (\<forall>k. cnt s k = int (count_list ks k))"

lemma count_list_remove1:
  "count_list (remove1 x xs) y = (if x \<in> set xs \<and> y = x then count_list xs y - 1 else count_list xs y)"
  by (induction xs) (auto simp: count_list_0_iff)

lemma count_list_map_remove1:
  assumes "x \<in> set xs"
  shows "count_list (map f (remove1 x xs)) = count_list (remove1 (f x) (map f xs))"
proof -
  have "mset (map f (remove1 x xs)) = mset (remove1 (f x) (map f xs))"
    using assms by (simp add: image_mset_Diff)
  then show ?thesis by (metis ext count_mset)
qed

lemma count_list_map_pos: "(\<exists>x\<in>set xs. f x = y) \<longleftrightarrow> 0 < count_list (map f xs) y"
  by (induction xs) auto

locale refcounter =
  fixes cnt :: "'s \<Rightarrow> 'k \<Rightarrow> int"
    and inc :: "'s \<Rightarrow> 'k \<Rightarrow> 's"
    and dec :: "'s \<Rightarrow> 'k \<Rightarrow> 's"
    and wf :: "'s \<Rightarrow> bool"
  assumes cnt_inc: "wf s \<Longrightarrow> cnt (inc s k) k' = cnt s k' + (if k' = k then 1 else 0)"
    and cnt_dec: "wf s \<Longrightarrow> 0 < cnt s k \<Longrightarrow> cnt (dec s k) k' = cnt s k' - (if k' = k then 1 else 0)"
    and wf_inc: "wf s \<Longrightarrow> wf (inc s k)"
    and wf_dec: "wf s \<Longrightarrow> 0 < cnt s k \<Longrightarrow> wf (dec s k)"
begin

lemma tracks_inc: "wf s \<Longrightarrow> tracks cnt s ks \<Longrightarrow> tracks cnt (inc s k) (k # ks)"
  by (simp add: tracks_def cnt_inc)

lemma tracked_pos: "tracks cnt s ks \<Longrightarrow> k \<in> set ks \<Longrightarrow> 0 < cnt s k"
  by (metis tracks_def count_list_0_iff not_gr_zero of_nat_0_less_iff)

lemma tracks_dec:
  assumes "wf s" "tracks cnt s ks" "k \<in> set ks"
  shows "tracks cnt (dec s k) (remove1 k ks)"
proof -
  have "0 < cnt s k" using assms tracked_pos by blast
  moreover from assms(3) have "0 < count_list ks k"
    by (metis count_list_0_iff not_gr_zero)
  ultimately show ?thesis
    using assms by (auto simp: tracks_def cnt_dec count_list_remove1)
qed

end

end
