(* ===== verification/Util.thy ===== *)
theory Util
  imports Tuna_Prelude
begin

text \<open>
  \<open>util.go\<close>: the textual keys of the client's maps (\<open>sessionKey\<close>, \<open>connID\<close>, with the
  standard library's \<open>hex.EncodeToString\<close>, \<open>strconv.Itoa\<close> and \<open>strconv.Atoi\<close>), and the
  search for a port that is free in TCP and UDP (\<open>GetFreePort\<close>). The keys are injective,
  so two sessions never share a map entry.
\<close>

section \<open>Hexadecimal\<close>

definition hexDigits :: string where
  "hexDigits = ''0123456789abcdef''"

definition hexEncode :: "bytes \<Rightarrow> string" where
  "hexEncode bs = concat (map (\<lambda>b. [hexDigits ! (unat b div 16), hexDigits ! (unat b mod 16)]) bs)"

lemma byte_div_16: "unat (b :: byte) div 16 < 16"
  using unsigned_less [of b, where 'a = nat] by (simp add: less_mult_imp_div_less)

lemma distinct_hexDigits: "distinct hexDigits"
  by (simp add: hexDigits_def)

lemma hexDigit_inj: "i < 16 \<Longrightarrow> j < 16 \<Longrightarrow> hexDigits ! i = hexDigits ! j \<longleftrightarrow> i = j"
  using nth_eq_iff_index_eq [OF distinct_hexDigits] by (simp add: hexDigits_def)

lemma hexEncode_simps [simp]:
  "hexEncode [] = []"
  "hexEncode (b # bs) = hexDigits ! (unat b div 16) # hexDigits ! (unat b mod 16) # hexEncode bs"
  by (simp_all add: hexEncode_def)

lemma length_hexEncode [simp]: "length (hexEncode bs) = 2 * length bs"
  by (induction bs) auto

lemma hexDigit_not_colon: "i < 16 \<Longrightarrow> hexDigits ! i \<noteq> CHR '':''"
proof -
  assume "i < 16"
  then have "hexDigits ! i \<in> set hexDigits" by (intro nth_mem) (simp add: hexDigits_def)
  then show ?thesis by (auto simp: hexDigits_def)
qed

lemma hexEncode_no_colon: "CHR '':'' \<notin> set (hexEncode bs)"
proof (induction bs)
  case (Cons b bs)
  then show ?case
    using hexDigit_not_colon [OF byte_div_16 [of b]] hexDigit_not_colon [of "unat b mod 16"]
    by (simp add: not_sym)
qed simp

lemma hexByte_inj:
  assumes "hexDigits ! (unat b div 16) = hexDigits ! (unat (c :: byte) div 16)"
    and "hexDigits ! (unat (b :: byte) mod 16) = hexDigits ! (unat c mod 16)"
  shows "b = c"
proof -
  have "unat b div 16 = unat c div 16" "unat b mod 16 = unat c mod 16"
    using assms hexDigit_inj byte_div_16 by auto
  then have "unat b = unat c"
    by (metis div_mod_decomp)
  then show ?thesis by (rule unsigned_word_eqI)
qed

lemma hexEncode_inj: "hexEncode bs = hexEncode cs \<longleftrightarrow> bs = cs"
proof (induction bs arbitrary: cs)
  case Nil
  then show ?case by (cases cs) auto
next
  case (Cons b bs)
  then show ?case by (cases cs) (auto intro: hexByte_inj)
qed

section \<open>Session keys\<close>

definition sessionKey :: "string \<Rightarrow> bytes \<Rightarrow> string" where
  "sessionKey remoteAddr sessionID = remoteAddr @ '':'' @ hexEncode sessionID"

text \<open>Splitting at the last separator is unique when the tails do not contain it.\<close>

lemma append_sep_inj:
  assumes "x \<notin> set ys" "x \<notin> set ys'" "xs @ x # ys = xs' @ x # ys'"
  shows "xs = xs' \<and> ys = ys'"
proof -
  have tail: "takeWhile (\<lambda>y. y \<noteq> x) (rev (us @ x # vs)) = rev vs" if "x \<notin> set vs" for us vs
    using that by (simp add: takeWhile_append)
  have "rev ys = rev ys'"
    using tail [OF assms(1), of xs] tail [OF assms(2), of xs'] assms(3) by simp
  with assms(3) show ?thesis by simp
qed

lemma sessionKey_inj:
  "sessionKey r i = sessionKey r' i' \<longleftrightarrow> r = r' \<and> i = i'"
  using append_sep_inj [OF hexEncode_no_colon hexEncode_no_colon, of r i r' i']
  by (auto simp: sessionKey_def hexEncode_inj)

section \<open>Decimal\<close>

fun natDigits :: "nat \<Rightarrow> string" where
  "natDigits n =
     (if n < 10 then [hexDigits ! n] else natDigits (n div 10) @ [hexDigits ! (n mod 10)])"

declare natDigits.simps [simp del]

text \<open>\<open>strconv.Itoa\<close>: decimal digits, with a minus sign for a negative number.\<close>

definition itoa :: "int \<Rightarrow> string" where
  "itoa i = (if i < 0 then CHR ''-'' # natDigits (nat (- i)) else natDigits (nat i))"

definition connID :: "int \<Rightarrow> string" where
  "connID i = itoa i"

text \<open>The digits of \<open>strconv.Atoi\<close>: \<open>None\<close> at the first character that is no digit.\<close>

definition digitVal :: "char \<Rightarrow> nat option" where
  "digitVal c = map_of (zip (take 10 hexDigits) [0..<10]) c"

fun atoiDigits :: "nat \<Rightarrow> string \<Rightarrow> nat option" where
  "atoiDigits acc [] = Some acc"
| "atoiDigits acc (c # cs) =
     (case digitVal c of None \<Rightarrow> None | Some d \<Rightarrow> atoiDigits (10 * acc + d) cs)"

definition atoi :: "string \<Rightarrow> int outcome" where
  "atoi s =
     (case s of
        [] \<Rightarrow> Err (ErrSyntax s)
      | c # cs \<Rightarrow>
          (let neg = (c = CHR ''-''); ds = (if c = CHR ''-'' \<or> c = CHR ''+'' then cs else s)
           in if ds = [] then Err (ErrSyntax s)
              else (case atoiDigits 0 ds of
                      None \<Rightarrow> Err (ErrSyntax s)
                    | Some n \<Rightarrow>
                        (let v = (if neg then - int n else int n)
                         in if - (2 ^ 63) \<le> v \<and> v < 2 ^ 63 then Ok v else Err (ErrRange s)))))"

lemma digitVal_hexDigit: "d < 10 \<Longrightarrow> digitVal (hexDigits ! d) = Some d"
proof -
  assume "d < 10"
  then have "d \<in> {0, 1, 2, 3, 4, 5, 6, 7, 8, 9}" by auto
  then show ?thesis by (auto simp: digitVal_def hexDigits_def upt_rec)
qed

lemma atoiDigits_append:
  "atoiDigits acc (xs @ ys) = Option.bind (atoiDigits acc xs) (\<lambda>a. atoiDigits a ys)"
  by (induction xs arbitrary: acc) (auto split: option.splits)

lemma atoiDigits_natDigits: "atoiDigits 0 (natDigits n) = Some n"
proof (induction n rule: natDigits.induct)
  case (1 n)
  show ?case
  proof (cases "n < 10")
    case True
    then show ?thesis by (subst natDigits.simps) (simp add: digitVal_hexDigit)
  next
    case False
    with 1 show ?thesis
      by (subst natDigits.simps) (simp add: digitVal_hexDigit atoiDigits_append)
  qed
qed

lemma natDigits_nonempty [simp]: "natDigits n \<noteq> []"
  by (subst natDigits.simps) simp

lemma hd_natDigits: "hd (natDigits n) \<in> set (take 10 hexDigits)"
proof (induction n rule: natDigits.induct)
  case (1 n)
  show ?case
  proof (cases "n < 10")
    case True
    then have "take 10 hexDigits ! n \<in> set (take 10 hexDigits)"
      by (intro nth_mem) (simp add: hexDigits_def)
    with True show ?thesis by (subst natDigits.simps) simp
  next
    case False
    with 1 show ?thesis by (subst natDigits.simps) (simp add: hd_append)
  qed
qed

lemma natDigits_no_sign:
  "natDigits n = c # cs \<Longrightarrow> c \<noteq> CHR ''-'' \<and> c \<noteq> CHR ''+''"
  using hd_natDigits [of n] by (auto simp: hexDigits_def)

text \<open>\<open>strconv.Atoi\<close> reads back what \<open>strconv.Itoa\<close> writes, for every 64-bit \<open>int\<close>.\<close>

lemma atoi_itoa: "- (2 ^ 63) \<le> i \<Longrightarrow> i < 2 ^ 63 \<Longrightarrow> atoi (itoa i) = Ok i"
proof (cases "i < 0")
  case True
  then show "- (2 ^ 63) \<le> i \<Longrightarrow> i < 2 ^ 63 \<Longrightarrow> ?thesis"
    by (simp add: atoi_def itoa_def atoiDigits_natDigits)
next
  case False
  obtain c cs where d: "natDigits (nat i) = c # cs" by (cases "natDigits (nat i)") auto
  with natDigits_no_sign [OF d] atoiDigits_natDigits [of "nat i"] False
  show "- (2 ^ 63) \<le> i \<Longrightarrow> i < 2 ^ 63 \<Longrightarrow> ?thesis"
    by (simp add: atoi_def itoa_def)
qed

lemma natDigits_inj: "natDigits m = natDigits n \<Longrightarrow> m = n"
  by (metis atoiDigits_natDigits option.inject)

lemma natDigits_not_minus: "natDigits n \<noteq> CHR ''-'' # cs"
  using natDigits_no_sign by blast

lemma connID_inj [simp]: "connID i = connID j \<longleftrightarrow> i = j"
  using natDigits_inj [of "nat i" "nat j"] natDigits_inj [of "nat (- i)" "nat (- j)"]
  by (auto simp: connID_def itoa_def natDigits_not_minus natDigits_not_minus [THEN not_sym] split: if_splits)

section \<open>Free ports\<close>

text \<open>
  The operating system's sockets on 127.0.0.1, and its answers to bind requests as a
  parameter: \<open>bindTCP s p\<close> is the port \<open>net.ListenTCP\<close> binds when asked for \<open>p\<close> (any free
  one when \<open>p\<close> is 0), \<open>bindUDP\<close> likewise for \<open>net.ListenUDP\<close>.
\<close>

record os =
  tcpBound :: "int list"
  udpBound :: "int list"

record os_ops =
  bindTCP :: "os \<Rightarrow> int \<Rightarrow> int outcome"
  bindUDP :: "os \<Rightarrow> int \<Rightarrow> unit outcome"

text \<open>What the code relies on: a bound port is a real port that nobody else held.\<close>

definition os_laws :: "os_ops \<Rightarrow> bool" where
  "os_laws N \<longleftrightarrow>
     (\<forall>s p q. bindTCP N s p = Ok q \<longrightarrow>
        0 < q \<and> q \<le> 65535 \<and> q \<notin> set (tcpBound s) \<and> (p \<noteq> 0 \<longrightarrow> q = p)) \<and>
     (\<forall>s p. bindUDP N s p = Ok () \<longrightarrow> p \<notin> set (udpBound s)) \<and>
     (\<forall>s p. no_panic (bindTCP N s p)) \<and> (\<forall>s p. no_panic (bindUDP N s p))"

definition resolveTCPAddr :: "int \<Rightarrow> int outcome" where
  "resolveTCPAddr p = (if 0 \<le> p \<and> p \<le> 65535 then Ok p else Err ErrInvalidPort)"

definition openTCP :: "os \<Rightarrow> int \<Rightarrow> os" where
  "openTCP s p = s\<lparr>tcpBound := p # tcpBound s\<rparr>"

definition closeTCP :: "os \<Rightarrow> int \<Rightarrow> os" where
  "closeTCP s p = s\<lparr>tcpBound := remove1 p (tcpBound s)\<rparr>"

definition openUDP :: "os \<Rightarrow> int \<Rightarrow> os" where
  "openUDP s p = s\<lparr>udpBound := p # udpBound s\<rparr>"

definition closeUDP :: "os \<Rightarrow> int \<Rightarrow> os" where
  "closeUDP s p = s\<lparr>udpBound := remove1 p (udpBound s)\<rparr>"

text \<open>
  Deferred \<open>l.Close()\<close> calls: a listener's port and whether the loop body already closed it
  (the second close is then an ignored error).
\<close>

fun runDefers :: "os \<Rightarrow> (int \<times> bool) list \<Rightarrow> os" where
  "runDefers s [] = s"
| "runDefers s ((p, closed) # ds) = runDefers (if closed then s else closeTCP s p) ds"

fun getFreePortLoop ::
  "os_ops \<Rightarrow> nat \<Rightarrow> int \<Rightarrow> os \<Rightarrow> (int \<times> bool) list \<Rightarrow> int outcome \<times> os" where
  "getFreePortLoop N 0 port s ds = (Err ErrNoFreePort, runDefers s ds)"
| "getFreePortLoop N (Suc n) port s ds =
     (case resolveTCPAddr port of
        Err e \<Rightarrow> (Err e, runDefers s ds)
      | Panic p \<Rightarrow> (Panic p, runDefers s ds)
      | Ok a \<Rightarrow>
        (case bindTCP N s a of
           Err e \<Rightarrow> (Err e, runDefers s ds)
         | Panic p \<Rightarrow> (Panic p, runDefers s ds)
         | Ok q \<Rightarrow>
           (let s1 = openTCP s q in
            case bindUDP N s1 q of
              Err e \<Rightarrow> getFreePortLoop N n (q + 1) (closeTCP s1 q) ((q, True) # ds)
            | Panic p \<Rightarrow> (Panic p, runDefers s1 ((q, False) # ds))
            | Ok u \<Rightarrow>
                (Ok q, runDefers (closeUDP (openUDP s1 q) q) ((q, False) # ds)))))"

definition GetFreePort :: "os_ops \<Rightarrow> int \<Rightarrow> os \<Rightarrow> int outcome \<times> os" where
  "GetFreePort N port s = getFreePortLoop N 100 port s []"

lemma open_close [simp]:
  "closeTCP (openTCP s p) p = s" "closeUDP (openUDP s p) p = s"
  "closeUDP (openUDP (openTCP s p) q) q = openTCP s p"
  by (simp_all add: openTCP_def closeTCP_def openUDP_def closeUDP_def)

lemma runDefers_closed: "\<forall>d\<in>set ds. snd d \<Longrightarrow> runDefers s ds = s"
  by (induction ds) auto

lemma getFreePortLoop_sockets:
  "\<forall>d\<in>set ds. snd d \<Longrightarrow> snd (getFreePortLoop N n port s ds) = s"
proof (induction n arbitrary: port ds)
  case 0
  then show ?case by (simp add: runDefers_closed)
next
  case (Suc n)
  then show ?case
    by (simp add: runDefers_closed Let_def split: outcome.split)
qed

lemma getFreePortLoop_port:
  assumes "os_laws N" "fst (getFreePortLoop N n port s ds) = Ok q"
  shows "0 < q \<and> q \<le> 65535 \<and> q \<notin> set (tcpBound s) \<and> q \<notin> set (udpBound s) \<and>
    (port \<noteq> 0 \<longrightarrow> port \<le> q \<and> q < port + int n)"
  using assms(2)
proof (induction n arbitrary: port ds)
  case 0
  then show ?case by simp
next
  case (Suc n)
  from Suc.prems obtain a p where b: "bindTCP N s a = Ok p" "a = port"
    by (auto simp: resolveTCPAddr_def Let_def split: outcome.splits if_splits)
  with assms(1) have p: "0 < p" "p \<le> 65535" "p \<notin> set (tcpBound s)" "port \<noteq> 0 \<longrightarrow> p = port"
    unfolding os_laws_def by blast+
  show ?case
  proof (cases "bindUDP N (openTCP s p) p")
    case (Ok u)
    then have "p \<notin> set (udpBound (openTCP s p))"
      using assms(1) unfolding os_laws_def by auto
    moreover have "q = p"
      using Suc.prems b Ok by (auto simp: resolveTCPAddr_def split: if_splits)
    ultimately show ?thesis using p by (auto simp: openTCP_def)
  next
    case (Err e)
    then have "fst (getFreePortLoop N n (p + 1) s ((p, True) # ds)) = Ok q"
      using Suc.prems b by (auto simp: resolveTCPAddr_def split: if_splits)
    from Suc.IH [OF this] p show ?thesis by auto
  next
    case (Panic x)
    then show ?thesis using assms(1) by (metis os_laws_def no_panic_simps(3))
  qed
qed

section \<open>Properties\<close>

text \<open>
  C38: keys are unambiguous. Two sessions have the same session key only when their remote
  addresses and session ids are the same, whatever bytes (colons included) the remote
  address contains, and two connections of a session have the same id only when their
  indices are the same; a connection id read back is the index.
\<close>

theorem keys_unambiguous:
  "(sessionKey r i = sessionKey r' i' \<longleftrightarrow> r = r' \<and> i = i') \<and>
   (connID m = connID n \<longleftrightarrow> m = n) \<and> (\<bar>n\<bar> < 2 ^ 63 \<longrightarrow> atoi (connID n) = Ok n)"
  using sessionKey_inj connID_inj atoi_itoa by (auto simp: connID_def)

theorem keys_unambiguous_witness:
  "atoi (connID (- 12)) = Ok (- 12) \<and> sessionKey ''a:01'' [2] \<noteq> sessionKey ''a'' [1, 2]"
  using keys_unambiguous [of "''a:01''" "[2]" "''a''" "[1, 2]" 0 "- 12"] by simp

text \<open>
  C39: \<open>GetFreePort\<close> leaves no socket behind, whatever it returns, and a port it returns is
  one that was free for both TCP and UDP, at most 99 above the requested one.
\<close>

theorem getFreePort_correct:
  assumes "os_laws N"
  shows "snd (GetFreePort N port s) = s \<and>
    (\<forall>q. fst (GetFreePort N port s) = Ok q \<longrightarrow>
       0 < q \<and> q \<le> 65535 \<and> q \<notin> set (tcpBound s) \<and> q \<notin> set (udpBound s) \<and>
       (port \<noteq> 0 \<longrightarrow> port \<le> q \<and> q < port + 100))"
  using getFreePortLoop_sockets [of "[]" N 100 port s] getFreePortLoop_port [OF assms, of 100 port s "[]"]
  by (simp add: GetFreePort_def)

definition demoOs :: os_ops where
  "demoOs = \<lparr>bindTCP = (\<lambda>s p. if 0 < p \<and> p \<le> 65535 \<and> p \<notin> set (tcpBound s) then Ok p else Err (ErrExt 1)),
             bindUDP = (\<lambda>s p. if p \<notin> set (udpBound s) then Ok () else Err (ErrExt 2))\<rparr>"

lemma demoOs_laws: "os_laws demoOs"
  by (simp add: os_laws_def demoOs_def)

theorem getFreePort_correct_witness:
  "fst (GetFreePort demoOs 8000 \<lparr>tcpBound = [], udpBound = [8000]\<rparr>) = Ok 8001 \<and> (8001 :: int) < 8000 + 100"
proof -
  have "fst (GetFreePort demoOs 8000 \<lparr>tcpBound = [], udpBound = [8000]\<rparr>) = Ok 8001"
    by (simp add: GetFreePort_def numeral_eq_Suc) (simp add: demoOs_def resolveTCPAddr_def openTCP_def closeTCP_def)
  with getFreePort_correct [OF demoOs_laws, of 8000 "\<lparr>tcpBound = [], udpBound = [8000]\<rparr>"] show ?thesis by auto
qed

end
