(* ===== verification/Session_Pb.thy ===== *)
theory Session_Pb
  imports Tuna_Prelude
begin

text \<open>
  \<open>pb/session.pb.go\<close>: the wire enumerations and the two protobuf messages. An enum field is
  an open \<open>int32\<close>, so it is an \<open>int\<close> with named values. Marshalling itself is the protobuf
  library's and enters as a parameter.
\<close>

section \<open>Enumerations\<close>

definition SessionType_ST_NONE :: int where "SessionType_ST_NONE = 0"
definition SessionType_TCP :: int where "SessionType_TCP = 1"
definition SessionType_UDP :: int where "SessionType_UDP = 2"

definition HeaderType_HT_NONE :: int where "HeaderType_HT_NONE = 0"
definition HeaderType_SESSION :: int where "HeaderType_SESSION = 1"
definition HeaderType_USER :: int where "HeaderType_USER = 2"

definition MsgType_MT_NONE :: int where "MsgType_MT_NONE = 0"
definition MsgType_REMOTEADDR :: int where "MsgType_REMOTEADDR = 1"
definition MsgType_SESSIONID :: int where "MsgType_SESSIONID = 2"
definition MsgType_CLOSE :: int where "MsgType_CLOSE = 255"

definition SessionType_name :: "(int, string) gomap" where
  "SessionType_name = [(0, ''ST_NONE''), (1, ''TCP''), (2, ''UDP'')]"
definition SessionType_value :: "(string, int) gomap" where
  "SessionType_value = [(''ST_NONE'', 0), (''TCP'', 1), (''UDP'', 2)]"
definition HeaderType_name :: "(int, string) gomap" where
  "HeaderType_name = [(0, ''HT_NONE''), (1, ''SESSION''), (2, ''USER'')]"
definition HeaderType_value :: "(string, int) gomap" where
  "HeaderType_value = [(''HT_NONE'', 0), (''SESSION'', 1), (''USER'', 2)]"
definition MsgType_name :: "(int, string) gomap" where
  "MsgType_name = [(0, ''MT_NONE''), (1, ''REMOTEADDR''), (2, ''SESSIONID''), (255, ''CLOSE'')]"
definition MsgType_value :: "(string, int) gomap" where
  "MsgType_value = [(''MT_NONE'', 0), (''REMOTEADDR'', 1), (''SESSIONID'', 2), (''CLOSE'', 255)]"

lemmas session_type_defs =
  SessionType_ST_NONE_def SessionType_TCP_def SessionType_UDP_def
lemmas header_type_defs =
  HeaderType_HT_NONE_def HeaderType_SESSION_def HeaderType_USER_def
lemmas msg_type_defs =
  MsgType_MT_NONE_def MsgType_REMOTEADDR_def MsgType_SESSIONID_def MsgType_CLOSE_def

text \<open>The single byte a header is cut to (\<open>byte(pb.HeaderType_SESSION)\<close>).\<close>

definition headerByte :: "int \<Rightarrow> byte" where
  "headerByte h = word_of_int h"

lemma headerByte_distinct:
  "headerByte HeaderType_SESSION \<noteq> headerByte HeaderType_USER"
  by (simp add: headerByte_def header_type_defs)

section \<open>Messages\<close>

record SessionMetadata =
  Id :: bytes
  SessionType :: int
  DialerNknAddr :: string

record SessionData =
  MsgType :: int
  Data :: bytes

text \<open>The generated getters accept a nil receiver.\<close>

definition GetId :: "SessionMetadata option \<Rightarrow> bytes" where
  "GetId x = (case x of Some m \<Rightarrow> Id m | None \<Rightarrow> [])"
definition GetSessionType :: "SessionMetadata option \<Rightarrow> int" where
  "GetSessionType x = (case x of Some m \<Rightarrow> SessionType m | None \<Rightarrow> SessionType_ST_NONE)"
definition GetDialerNknAddr :: "SessionMetadata option \<Rightarrow> string" where
  "GetDialerNknAddr x = (case x of Some m \<Rightarrow> DialerNknAddr m | None \<Rightarrow> [])"
definition GetMsgType :: "SessionData option \<Rightarrow> int" where
  "GetMsgType x = (case x of Some d \<Rightarrow> MsgType d | None \<Rightarrow> MsgType_MT_NONE)"
definition GetData :: "SessionData option \<Rightarrow> bytes" where
  "GetData x = (case x of Some d \<Rightarrow> Data d | None \<Rightarrow> [])"

text \<open>
  The protobuf library: \<open>proto.Marshal\<close> and \<open>proto.Unmarshal\<close> at the two message types.
  What the code relies on is that a marshalled message reads back as itself.
\<close>

record proto =
  MarshalMeta :: "SessionMetadata \<Rightarrow> bytes outcome"
  UnmarshalMeta :: "bytes \<Rightarrow> SessionMetadata outcome"
  MarshalData :: "SessionData \<Rightarrow> bytes outcome"
  UnmarshalData :: "bytes \<Rightarrow> SessionData outcome"

definition proto_laws :: "proto \<Rightarrow> bool" where
  "proto_laws P \<longleftrightarrow>
     (\<forall>m b. MarshalMeta P m = Ok b \<longrightarrow> UnmarshalMeta P b = Ok m) \<and>
     (\<forall>d b. MarshalData P d = Ok b \<longrightarrow> UnmarshalData P b = Ok d) \<and>
     (\<forall>m. no_panic (MarshalMeta P m)) \<and> (\<forall>b. no_panic (UnmarshalMeta P b)) \<and>
     (\<forall>d. no_panic (MarshalData P d)) \<and> (\<forall>b. no_panic (UnmarshalData P b))"

lemma proto_lawsD:
  assumes "proto_laws P"
  shows "MarshalMeta P m = Ok b \<Longrightarrow> UnmarshalMeta P b = Ok m"
    and "MarshalData P d = Ok b \<Longrightarrow> UnmarshalData P b = Ok d"
    and "no_panic (MarshalMeta P m)" and "no_panic (UnmarshalMeta P b)"
    and "no_panic (MarshalData P d)" and "no_panic (UnmarshalData P b)"
  using assms unfolding proto_laws_def by blast+

text \<open>
  A concrete marshaller with these laws, for evaluating examples: every field is written as
  a one-byte length and its bytes, lengths above 255 are refused.
\<close>

fun getField :: "bytes \<Rightarrow> (bytes \<times> bytes) option" where
  "getField [] = None"
| "getField (n # bs) = (if length bs < unat n then None else Some (take (unat n) bs, drop (unat n) bs))"

definition putField :: "bytes \<Rightarrow> bytes" where
  "putField b = word_of_nat (length b) # b"

definition demoMarshal :: "int \<Rightarrow> bytes \<Rightarrow> bytes \<Rightarrow> bytes outcome" where
  "demoMarshal t a b =
     (if 0 \<le> t \<and> t < 256 \<and> length a < 256 \<and> length b < 256
      then Ok (word_of_int t # putField a @ putField b) else Err (ErrExt 1))"

fun demoUnmarshal :: "bytes \<Rightarrow> (int \<times> bytes \<times> bytes) outcome" where
  "demoUnmarshal [] = Err (ErrExt 2)"
| "demoUnmarshal (t # bs) =
     (case getField bs of
        None \<Rightarrow> Err (ErrExt 2)
      | Some (a, r) \<Rightarrow>
          (case getField r of None \<Rightarrow> Err (ErrExt 2) | Some (b, _) \<Rightarrow> Ok (uint t, a, b)))"

definition demoProto :: proto where
  "demoProto =
     \<lparr>MarshalMeta = (\<lambda>m. demoMarshal (SessionType m) (Id m) (bytes_of_string (DialerNknAddr m))),
      UnmarshalMeta = (\<lambda>b. obind (demoUnmarshal b)
         (\<lambda>(t, i, a). Ok \<lparr>Id = i, SessionType = t, DialerNknAddr = string_of_bytes a\<rparr>)),
      MarshalData = (\<lambda>d. demoMarshal (MsgType d) (Data d) []),
      UnmarshalData = (\<lambda>b. obind (demoUnmarshal b) (\<lambda>(t, a, _). Ok \<lparr>MsgType = t, Data = a\<rparr>))\<rparr>"

lemma getField_putField: "length a < 256 \<Longrightarrow> getField (putField a @ r) = Some (a, r)"
  by (simp add: putField_def unat_of_nat take_bit_nat_eq_self_iff)

lemma demoUnmarshal_demoMarshal: "demoMarshal t a b = Ok r \<Longrightarrow> demoUnmarshal r = Ok (t, a, b)"
  using getField_putField [of b "[]"]
  by (auto simp: demoMarshal_def getField_putField uint_word_of_int_eq take_bit_int_eq_self_iff
      split: if_splits)

lemma demo_no_panic [simp]: "no_panic (demoMarshal t a b)" "no_panic (demoUnmarshal bs)"
  by (simp_all add: demoMarshal_def) (cases bs; auto split: option.split)

lemma no_panic_obind: "no_panic r \<Longrightarrow> (\<And>x. r = Ok x \<Longrightarrow> no_panic (f x)) \<Longrightarrow> no_panic (obind r f)"
  by (cases r) auto

lemma demoProto_laws: "proto_laws demoProto"
  by (auto simp: proto_laws_def demoProto_def dest!: demoUnmarshal_demoMarshal
      intro!: no_panic_obind)

end
