(* ===== verification/Message.thy ===== *)
theory Message
  imports Util
begin

text \<open>
  \<open>conn.go\<close> and the framing half of \<open>message.go\<close>: the connection object, the address
  records, \<open>writeMessage\<close> and \<open>readMessage\<close> (a little-endian 32-bit length followed by the
  payload), over a model of \<open>net.Conn\<close> in which the network cuts the byte stream into
  arbitrary segments. The locale \<open>framed_transport\<close> is what the rest of the client relies
  on: messages come back whole and in order.
\<close>

unbundle bit_operations_syntax

section \<open>Addresses\<close>

record PubAddr =
  IP :: string
  Port :: "32 word"
  InPrice :: string
  OutPrice :: string

definition PubAddr_String :: "PubAddr \<Rightarrow> string" where
  "PubAddr_String pa = IP pa @ '':'' @ itoa (uint (Port pa))"

text \<open>\<open>Addrs\<close> is a slice of pointers: \<open>None\<close> is a nil entry.\<close>

record PubAddrs =
  Addrs :: "PubAddr option list"
  SessionClosed :: bool

record Request =
  Action :: string
  SessionID :: bytes

definition ActionGetPubAddr :: string where
  "ActionGetPubAddr = ''getPubAddr''"

definition nonceSize :: nat where "nonceSize = 24"
definition sharedKeySize :: nat where "sharedKeySize = 32"
definition maxAddrSize :: "32 word" where "maxAddrSize = 512"
definition maxSessionMetadataSize :: "32 word" where "maxSessionMetadataSize = 1024"
definition maxSessionMsgOverhead :: int where "maxSessionMsgOverhead = 1024"

section \<open>Connections\<close>

text \<open>
  A \<open>Conn\<close> as the code sees it. Incoming data arrives as a list of segments, after which
  reads give the error \<open>rdEnd\<close>; a write delivers to \<open>wrSent\<close> as long as there is room
  (\<open>wrRoom = None\<close>: always), otherwise it delivers what fits and gives \<open>wrErr\<close>. The read
  and write locks make each \<open>readMessage\<close> and \<open>writeMessage\<close> one step of the connection.
\<close>

record Conn =
  rdSegs :: "bytes list"
  rdEnd :: go_error
  wrSent :: bytes
  wrRoom :: "nat option"
  wrErr :: go_error
  wrDeadline :: "int option"
  connClosed :: bool
  remoteStr :: string

text \<open>
  What a connection starts from: an open connection to \<open>peer\<close> on which the network will
  deliver the given segments and then end with \<open>e\<close>.
\<close>

definition newConn :: "string \<Rightarrow> bytes list \<Rightarrow> go_error \<Rightarrow> Conn" where
  "newConn peer segs e =
     \<lparr>rdSegs = segs, rdEnd = e, wrSent = [], wrRoom = None, wrErr = e, wrDeadline = None,
      connClosed = False, remoteStr = peer\<rparr>"

definition connClose :: "Conn \<Rightarrow> Conn" where
  "connClose c = c\<lparr>connClosed := True\<rparr>"

text \<open>The bytes still to be read, and the error behind them.\<close>

definition inBytes :: "Conn \<Rightarrow> bytes" where
  "inBytes c = (if connClosed c then [] else concat (rdSegs c))"

definition inEnd :: "Conn \<Rightarrow> go_error" where
  "inEnd c = (if connClosed c then ErrNetClosed else rdEnd c)"

text \<open>
  \<open>Read\<close> into a buffer of \<open>m\<close> bytes: at most one segment, at most \<open>m\<close> bytes.
\<close>

definition connRead :: "Conn \<Rightarrow> nat \<Rightarrow> bytes \<times> go_error option \<times> Conn" where
  "connRead c m =
     (if connClosed c then ([], Some ErrNetClosed, c)
      else (case rdSegs c of
              [] \<Rightarrow> ([], Some (rdEnd c), c)
            | g # gs \<Rightarrow>
                if length g \<le> m then (g, None, c\<lparr>rdSegs := gs\<rparr>)
                else (take m g, None, c\<lparr>rdSegs := drop m g # gs\<rparr>)))"

definition connWrite :: "Conn \<Rightarrow> bytes \<Rightarrow> nat \<times> go_error option \<times> Conn" where
  "connWrite c b =
     (if connClosed c then (0, Some ErrNetClosed, c)
      else (case wrRoom c of
              None \<Rightarrow> (length b, None, c\<lparr>wrSent := wrSent c @ b\<rparr>)
            | Some k \<Rightarrow>
                if length b \<le> k
                then (length b, None, c\<lparr>wrSent := wrSent c @ b, wrRoom := Some (k - length b)\<rparr>)
                else (k, Some (wrErr c), c\<lparr>wrSent := wrSent c @ take k b, wrRoom := Some 0\<rparr>)))"

text \<open>
  \<open>io.ReadFull\<close>: read until \<open>n\<close> bytes are there; on the error that ends the stream,
  \<open>EOF\<close> becomes \<open>ErrUnexpectedEOF\<close> when something was already read.
\<close>

definition segWeight :: "Conn \<Rightarrow> nat" where
  "segWeight c = sum_list (map (\<lambda>g. length g + 1) (rdSegs c))"

lemma connRead_decreases:
  "connRead c m = (b, None, c') \<Longrightarrow> 0 < m \<Longrightarrow> segWeight c' < segWeight c"
  by (auto simp: connRead_def segWeight_def split: if_splits list.splits)

function readFull :: "Conn \<Rightarrow> nat \<Rightarrow> bytes \<Rightarrow> bytes outcome \<times> Conn" where
  "readFull c n acc =
     (if n \<le> length acc then (Ok acc, c)
      else (case connRead c (n - length acc) of
              (b, None, c') \<Rightarrow> readFull c' n (acc @ b)
            | (b, Some e, c') \<Rightarrow>
                (if e = ErrEOF \<and> 0 < length acc then Err ErrUnexpectedEOF else Err e, c')))"
  by pat_completeness auto
termination
proof (relation "measure (\<lambda>(c, n, acc). segWeight c)", goal_cases)
  case (2 c n acc x b y c')
  then show ?case by (auto intro: connRead_decreases [OF sym])
qed auto

declare readFull.simps [simp del]

text \<open>The result depends on the flat byte stream only, not on its segmentation.\<close>

lemma connRead_None:
  assumes "connRead c m = (b, None, c')"
  shows "inBytes c = b @ inBytes c' \<and> length b \<le> m \<and> \<not> connClosed c \<and>
    c' = c\<lparr>rdSegs := rdSegs c'\<rparr>"
  using assms by (auto simp: connRead_def inBytes_def split: if_splits list.splits)

lemma connRead_Some:
  assumes "connRead c m = (b, Some e, c')"
  shows "inBytes c = [] \<and> b = [] \<and> e = inEnd c \<and> c' = c"
  using assms by (auto simp: connRead_def inBytes_def inEnd_def split: if_splits list.splits)

lemma readFull_ok:
  "length acc \<le> n \<Longrightarrow> n \<le> length (acc @ inBytes c) \<Longrightarrow>
   \<exists>c'. readFull c n acc = (Ok (take n (acc @ inBytes c)), c') \<and>
     inBytes c' = drop n (acc @ inBytes c) \<and> c' = c\<lparr>rdSegs := rdSegs c'\<rparr>"
proof (induction c n acc rule: readFull.induct)
  case (1 c n acc)
  show ?case
  proof (cases "n \<le> length acc")
    case True
    with 1 have "n = length acc" by simp
    then show ?thesis by (subst readFull.simps) simp
  next
    case False
    obtain b r c' where cr: "connRead c (n - length acc) = (b, r, c')"
      by (metis prod_cases3)
    show ?thesis
    proof (cases r)
      case None
      note R = connRead_None [OF cr [unfolded None]]
      have "\<exists>d. readFull c' n (acc @ b) = (Ok (take n ((acc @ b) @ inBytes c')), d) \<and>
          inBytes d = drop n ((acc @ b) @ inBytes c') \<and> d = c'\<lparr>rdSegs := rdSegs d\<rparr>"
        using 1 False R cr None by auto
      then show ?thesis
        using R False cr None by (subst readFull.simps) (metis (no_types, lifting) Conn.surjective
          Conn.update_convs(1) append.assoc option.simps(4) prod.case)
    next
      case (Some e)
      then show ?thesis using connRead_Some [OF cr [unfolded Some]] False 1 by simp
    qed
  qed
qed

lemma readFull_short:
  "length (acc @ inBytes c) < n \<Longrightarrow>
   \<exists>c'. readFull c n acc =
     (Err (if inEnd c = ErrEOF \<and> acc @ inBytes c \<noteq> [] then ErrUnexpectedEOF else inEnd c), c')"
proof (induction c n acc rule: readFull.induct)
  case (1 c n acc)
  obtain b r c' where cr: "connRead c (n - length acc) = (b, r, c')"
    by (metis prod_cases3)
  show ?case
  proof (cases r)
    case None
    note R = connRead_None [OF cr [unfolded None]]
    then have e: "inEnd c' = inEnd c"
      by (metis inEnd_def Conn.select_convs(2) Conn.select_convs(7) Conn.surjective Conn.update_convs(1))
    have "\<exists>d. readFull c' n (acc @ b) =
      (Err (if inEnd c' = ErrEOF \<and> (acc @ b) @ inBytes c' \<noteq> [] then ErrUnexpectedEOF else inEnd c'), d)"
      using 1 R cr None by auto
    then show ?thesis using R 1 cr None e by (subst readFull.simps) auto
  next
    case (Some e)
    then show ?thesis using connRead_Some [OF cr [unfolded Some]] 1 cr
      by (subst readFull.simps) auto
  qed
qed

section \<open>Little-endian lengths\<close>

text \<open>\<open>binary.LittleEndian.PutUint32\<close> and \<open>Uint32\<close>.\<close>

definition putUint32 :: "32 word \<Rightarrow> bytes" where
  "putUint32 v = [ucast v, ucast (drop_bit 8 v), ucast (drop_bit 16 v), ucast (drop_bit 24 v)]"

fun leUint32 :: "bytes \<Rightarrow> 32 word" where
  "leUint32 (b0 # b1 # b2 # b3 # bs) =
     ucast b0 OR push_bit 8 (ucast b1) OR push_bit 16 (ucast b2) OR push_bit 24 (ucast b3)"
| "leUint32 bs = 0"

lemma length_putUint32 [simp]: "length (putUint32 v) = 4"
  by (simp add: putUint32_def)

lemma leUint32_putUint32 [simp]: "leUint32 (putUint32 v) = v"
proof (rule bit_word_eqI)
  fix n assume "n < LENGTH(32)"
  then show "bit (leUint32 (putUint32 v)) n = bit v n"
    by (cases "24 \<le> n"; cases "16 \<le> n") (auto simp: putUint32_def bit_simps)
qed

section \<open>Framing\<close>

definition writeMessage :: "Conn \<Rightarrow> bytes \<Rightarrow> int \<Rightarrow> int \<Rightarrow> unit outcome \<times> Conn" where
  "writeMessage c buf writeTimeout now =
     (let msgSizeBuf = putUint32 (word_of_nat (length buf));
          c0 = (if writeTimeout > 0 then c\<lparr>wrDeadline := Some (now + writeTimeout)\<rparr> else c)
      in case connWrite c0 msgSizeBuf of
           (_, Some e, c1) \<Rightarrow> (Err e, c1)
         | (_, None, c1) \<Rightarrow>
             (case connWrite c1 buf of
                (_, Some e, c2) \<Rightarrow> (Err e, c2)
              | (_, None, c2) \<Rightarrow>
                  (Ok (), if writeTimeout > 0 then c2\<lparr>wrDeadline := None\<rparr> else c2)))"

definition readMessage :: "Conn \<Rightarrow> 32 word \<Rightarrow> bytes outcome \<times> Conn" where
  "readMessage c maxMsgSize =
     (case readFull c 4 [] of
        (Ok msgSizeBuf, c1) \<Rightarrow>
          (let msgSize = leUint32 msgSizeBuf
           in if maxMsgSize < msgSize
              then (Err (ErrInvalidMsgSize (unat msgSize) (unat maxMsgSize)), c1)
              else readFull c1 (unat msgSize) [])
      | (Err e, c1) \<Rightarrow> (Err e, c1)
      | (Panic p, c1) \<Rightarrow> (Panic p, c1))"

text \<open>What one message looks like on the wire.\<close>

definition frame :: "bytes \<Rightarrow> bytes" where
  "frame buf = putUint32 (word_of_nat (length buf)) @ buf"

lemma connWrite_room:
  "\<not> connClosed c \<Longrightarrow> (case wrRoom c of None \<Rightarrow> True | Some k \<Rightarrow> length b \<le> k) \<Longrightarrow>
   connWrite c b =
     (length b, None, c\<lparr>wrSent := wrSent c @ b, wrRoom := map_option (\<lambda>k. k - length b) (wrRoom c)\<rparr>)"
  by (auto simp: connWrite_def split: option.splits)

lemma writeMessage_ok:
  assumes "\<not> connClosed c" "wrRoom c = None"
  shows "writeMessage c buf t now =
    (Ok (), c\<lparr>wrSent := wrSent c @ frame buf, wrDeadline := (if t > 0 then None else wrDeadline c)\<rparr>)"
  using assms by (simp add: writeMessage_def connWrite_def frame_def Let_def)

lemma unat_frame_length:
  "length buf \<le> unat (mx :: 32 word) \<Longrightarrow> unat (word_of_nat (length buf) :: 32 word) = length buf"
  using unsigned_less [of mx, where 'a = nat]
  by (simp add: unat_of_nat take_bit_nat_eq_self_iff)

lemma readMessage_header:
  assumes "inBytes c = putUint32 v @ rest"
  shows "\<exists>c1. readFull c 4 [] = (Ok (putUint32 v), c1) \<and> inBytes c1 = rest \<and> c1 = c\<lparr>rdSegs := rdSegs c1\<rparr>"
  using readFull_ok [of "[]" 4 c] assms by (auto simp: putUint32_def)

lemma readMessage_frame:
  assumes fit: "length buf \<le> unat mx" and inp: "inBytes c = frame buf @ rest"
  shows "\<exists>c'. readMessage c mx = (Ok buf, c') \<and> inBytes c' = rest \<and> c' = c\<lparr>rdSegs := rdSegs c'\<rparr>"
proof -
  let ?v = "word_of_nat (length buf) :: 32 word"
  have v: "unat ?v = length buf" by (rule unat_frame_length [OF fit])
  obtain c1 where c1: "readFull c 4 [] = (Ok (putUint32 ?v), c1)" "inBytes c1 = buf @ rest"
      "c1 = c\<lparr>rdSegs := rdSegs c1\<rparr>"
    using readMessage_header [of c ?v "buf @ rest"] inp by (auto simp: frame_def)
  have "\<not> mx < ?v" using v fit by (simp add: word_less_nat_alt)
  moreover obtain c2 where "readFull c1 (length buf) [] = (Ok buf, c2)" "inBytes c2 = rest"
      "c2 = c1\<lparr>rdSegs := rdSegs c2\<rparr>"
    using readFull_ok [of "[]" "length buf" c1] c1(2) by auto
  ultimately show ?thesis
    using c1 v by (simp add: readMessage_def) (metis Conn.surjective Conn.update_convs(1))
qed

lemma readMessage_oversized:
  assumes "inBytes c = putUint32 v @ rest" "mx < v"
  shows "\<exists>c'. readMessage c mx = (Err (ErrInvalidMsgSize (unat v) (unat mx)), c') \<and>
    inBytes c' = rest"
  using readMessage_header [OF assms(1)] assms(2) by (auto simp: readMessage_def)

lemma readFull_length: "fst (readFull c n []) = Ok b \<Longrightarrow> length b = n"
proof -
  assume *: "fst (readFull c n []) = Ok b"
  have "\<not> length (inBytes c) < n" using readFull_short [of "[]" c n] * by auto
  then show "length b = n" using readFull_ok [of "[]" n c] * by auto
qed

lemma readMessage_bounded: "fst (readMessage c mx) = Ok b \<Longrightarrow> length b \<le> unat mx"
  by (auto simp: readMessage_def word_less_nat_alt Let_def dest!: readFull_length
      split: prod.splits outcome.splits if_splits)

lemma readMessage_truncated:
  assumes "length (inBytes c) < 4"
  shows "fst (readMessage c mx) =
    Err (if inEnd c = ErrEOF \<and> inBytes c \<noteq> [] then ErrUnexpectedEOF else inEnd c)"
  using readFull_short [of "[]" c 4] assms by (auto simp: readMessage_def)

subsection \<open>The contract of the transport\<close>

text \<open>Reading a number of messages in a row, stopping at the first error.\<close>

fun readMany :: "('c \<Rightarrow> bytes outcome \<times> 'c) \<Rightarrow> nat \<Rightarrow> 'c \<Rightarrow> bytes list outcome \<times> 'c" where
  "readMany rd 0 c = (Ok [], c)"
| "readMany rd (Suc n) c =
     (case rd c of
        (Ok m, c1) \<Rightarrow>
          (case readMany rd n c1 of
             (Ok ms, c2) \<Rightarrow> (Ok (m # ms), c2)
           | (Err e, c2) \<Rightarrow> (Err e, c2)
           | (Panic p, c2) \<Rightarrow> (Panic p, c2))
      | (Err e, c1) \<Rightarrow> (Err e, c1)
      | (Panic p, c1) \<Rightarrow> (Panic p, c1))"

locale framed_transport =
  fixes enframe :: "bytes \<Rightarrow> bytes"
    and rd :: "'c \<Rightarrow> bytes outcome \<times> 'c"
    and fits :: "bytes \<Rightarrow> bool"
    and pending :: "'c \<Rightarrow> bytes"
  assumes rd_frame: "fits m \<Longrightarrow> pending c = enframe m @ rest \<Longrightarrow>
    \<exists>c'. rd c = (Ok m, c') \<and> pending c' = rest"
begin

lemma rd_frames:
  "\<forall>m\<in>set ms. fits m \<Longrightarrow> pending c = concat (map enframe ms) @ rest \<Longrightarrow>
   \<exists>c'. readMany rd (length ms) c = (Ok ms, c') \<and> pending c' = rest"
proof (induction ms arbitrary: c)
  case Nil
  then show ?case by simp
next
  case (Cons m ms)
  obtain c1 where c1: "rd c = (Ok m, c1)" "pending c1 = concat (map enframe ms) @ rest"
    using rd_frame [of m c "concat (map enframe ms) @ rest"] Cons.prems by auto
  moreover obtain c2 where "readMany rd (length ms) c1 = (Ok ms, c2)" "pending c2 = rest"
    using Cons.IH [of c1] Cons.prems(1) c1(2) by auto
  ultimately show ?case by simp
qed

lemma frames_unique:
  assumes "\<forall>m\<in>set ms. fits m" "\<forall>m\<in>set ms'. fits m" "length ms = length ms'"
    and "pending c = concat (map enframe ms)" "pending c = concat (map enframe ms')"
  shows "ms = ms'"
proof -
  obtain c1 where "readMany rd (length ms) c = (Ok ms, c1)"
    using rd_frames [OF assms(1), of c "[]", unfolded append_Nil2, OF assms(4)] by blast
  moreover obtain c2 where "readMany rd (length ms') c = (Ok ms', c2)"
    using rd_frames [OF assms(2), of c "[]", unfolded append_Nil2, OF assms(5)] by blast
  ultimately show ?thesis using assms(3) by (metis outcome.inject(1) prod.inject)
qed

end

interpretation tcp: framed_transport frame "\<lambda>c. readMessage c mx" "\<lambda>m. length m \<le> unat mx" inBytes
  for mx
proof
  fix m c rest
  assume "length m \<le> unat mx" "inBytes c = frame m @ rest"
  from readMessage_frame [OF this]
  show "\<exists>c'. readMessage c mx = (Ok m, c') \<and> inBytes c' = rest" by blast
qed

text \<open>The sending side: messages written one after the other, on a connection that takes them.\<close>

fun writeMany :: "Conn \<Rightarrow> bytes list \<Rightarrow> int \<Rightarrow> int \<Rightarrow> unit outcome \<times> Conn" where
  "writeMany c [] t now = (Ok (), c)"
| "writeMany c (m # ms) t now =
     (case writeMessage c m t now of
        (Ok u, c') \<Rightarrow> writeMany c' ms t now
      | (Err e, c') \<Rightarrow> (Err e, c')
      | (Panic p, c') \<Rightarrow> (Panic p, c'))"

lemma writeMany_ok:
  "\<not> connClosed c \<Longrightarrow> wrRoom c = None \<Longrightarrow>
   \<exists>c'. writeMany c ms t now = (Ok (), c') \<and> wrSent c' = wrSent c @ concat (map frame ms)"
proof (induction ms arbitrary: c)
  case (Cons m ms)
  let ?c = "c\<lparr>wrSent := wrSent c @ frame m, wrDeadline := (if t > 0 then None else wrDeadline c)\<rparr>"
  show ?case using Cons.IH [of ?c] Cons.prems by (simp add: writeMessage_ok)
qed simp

subsection \<open>What a read returns, as a function of the flat stream\<close>

definition shortRead :: "bytes \<Rightarrow> go_error \<Rightarrow> go_error" where
  "shortRead bs e = (if e = ErrEOF \<and> bs \<noteq> [] then ErrUnexpectedEOF else e)"

definition parseFrame :: "32 word \<Rightarrow> bytes \<Rightarrow> go_error \<Rightarrow> bytes outcome" where
  "parseFrame mx bs e =
     (if length bs < 4 then Err (shortRead bs e)
      else let n = leUint32 (take 4 bs); body = drop 4 bs
           in if mx < n then Err (ErrInvalidMsgSize (unat n) (unat mx))
              else if length body < unat n then Err (shortRead body e)
              else Ok (take (unat n) body))"

lemma inEnd_segs: "c' = c\<lparr>rdSegs := gs\<rparr> \<Longrightarrow> inEnd c' = inEnd c"
  by (simp add: inEnd_def)

lemma readFull_spec:
  "fst (readFull c n []) =
     (if length (inBytes c) < n then Err (shortRead (inBytes c) (inEnd c)) else Ok (take n (inBytes c)))"
  using readFull_short [of "[]" c n] readFull_ok [of "[]" n c] by (auto simp: shortRead_def not_less)

lemma readFull_rest:
  "readFull c n [] = (Ok b, c') \<Longrightarrow> n \<le> length (inBytes c) \<and> inBytes c' = drop n (inBytes c)"
  using readFull_spec [of c n] readFull_ok [of "[]" n c] by (auto split: if_splits)

lemma readMessage_consumes:
  assumes "readMessage k mx = (Ok b, k')"
  shows "length (inBytes k') + 4 \<le> length (inBytes k)"
proof -
  obtain h k1 n where "readFull k 4 [] = (Ok h, k1)" "readFull k1 n [] = (Ok b, k')"
    using assms by (auto simp: readMessage_def Let_def split: prod.splits outcome.splits if_splits)
  then show ?thesis by (auto dest!: readFull_rest)
qed

lemma readMessage_spec: "fst (readMessage c mx) = parseFrame mx (inBytes c) (inEnd c)"
proof (cases "length (inBytes c) < 4")
  case True
  then show ?thesis by (simp add: readMessage_truncated parseFrame_def shortRead_def)
next
  case False
  then obtain c1 where "readFull c 4 [] = (Ok (take 4 (inBytes c)), c1)"
      "inBytes c1 = drop 4 (inBytes c)" "c1 = c\<lparr>rdSegs := rdSegs c1\<rparr>"
    using readFull_ok [of "[]" 4 c] by auto
  with False inEnd_segs [OF this(3)] show ?thesis
    by (simp add: readMessage_def parseFrame_def readFull_spec Let_def)
qed

section \<open>Properties\<close>

text \<open>
  C5: whatever sequence of messages a writer sends with \<open>writeMessage\<close>, the peer's
  \<open>readMessage\<close> calls return exactly these messages, whole and in order, however the
  network cut the bytes into segments, and leave what follows them unread.
\<close>

theorem messages_survive_segmentation:
  assumes "\<not> connClosed w" "wrRoom w = None" "wrSent w = []"
    and "\<forall>m\<in>set ms. length m \<le> unat mx"
    and "\<not> connClosed r"
    and "concat (rdSegs r) = wrSent (snd (writeMany w ms t now)) @ rest"
  shows "\<exists>r'. readMany (\<lambda>c. readMessage c mx) (length ms) r = (Ok ms, r') \<and> inBytes r' = rest"
proof -
  have "inBytes r = concat (map frame ms) @ rest"
    using writeMany_ok [OF assms(1,2), of ms t now] assms(3,5,6) by (auto simp: inBytes_def)
  then show ?thesis by (rule tcp.rd_frames [OF assms(4)])
qed

text \<open>
  The hypotheses hold for two messages whose bytes arrive one at a time.
\<close>

theorem messages_survive_segmentation_witness:
  "\<exists>r'. readMany (\<lambda>c. readMessage c 512) 2
      (newConn ''peer'' (map (\<lambda>b. [b]) (frame [7, 8] @ frame [] @ [9])) ErrEOF) = (Ok [[7, 8], []], r') \<and>
     inBytes r' = [9]"
proof -
  let ?w = "newConn ''peer'' [] ErrEOF"
  let ?r = "newConn ''peer'' (map (\<lambda>b. [b]) (frame [7, 8] @ frame [] @ [9])) ErrEOF"
  have "concat (rdSegs ?r) = wrSent (snd (writeMany ?w [[7, 8], []] 0 0)) @ [9]"
    by (simp add: newConn_def frame_def putUint32_def writeMessage_ok)
  from messages_survive_segmentation [OF _ _ _ _ _ this, of 512]
  have "\<exists>r'. readMany (\<lambda>c. readMessage c 512) (length [[7, 8], [] :: bytes]) ?r = (Ok [[7, 8], []], r') \<and>
      inBytes r' = [9]"
    by (simp add: newConn_def)
  then show ?thesis by (simp only: list.size(3,4) add_0 One_nat_def add_Suc_right add_0_right numeral_2_eq_2)
qed

text \<open>
  C31: \<open>readMessage\<close> computes \<open>parseFrame\<close> of the flat byte stream, on every branch: a
  stream that ends early gives \<open>EOF\<close>, \<open>ErrUnexpectedEOF\<close> or the connection's error, a
  length above the limit is refused before anything is read or allocated for it, and a
  returned message has the announced length, never more than the limit.
\<close>

theorem readMessage_refines_parseFrame:
  "fst (readMessage c mx) = parseFrame mx (inBytes c) (inEnd c) \<and>
   (case fst (readMessage c mx) of
      Ok b \<Rightarrow> length b \<le> unat mx \<and> length b = unat (leUint32 (take 4 (inBytes c)))
    | Err e \<Rightarrow> True
    | Panic p \<Rightarrow> False)"
  by (auto simp: readMessage_spec parseFrame_def Let_def word_less_nat_alt)

end
