(* ===== verification/Write_Lock.thy ===== *)
theory Write_Lock
  imports Message
begin

text \<open>
  \<open>writeMessage\<close> under concurrency (\<open>conn.go\<close> and \<open>message.go\<close>). A message is two writes on
  the connection; \<open>WriteLock\<close> is held from before the first to after the second. The machine
  below interleaves any number of goroutines at the level of single writes; the sequential
  \<open>writeMessage\<close> of \<open>Message\<close> is the run of one goroutine alone.
\<close>

datatype phase = BeforeHeader | BeforeBody

record writers =
  wconn :: Conn
  holder :: "(phase \<times> bytes \<times> int) option"
  completed :: "bytes list"
  failed :: bool

text \<open>
  Taking the lock (with \<open>SetWriteDeadline\<close>), the header write, the body write. The result of a
  write step says whether the call has returned, and with what.
\<close>

definition lockWrite :: "Conn \<Rightarrow> int \<Rightarrow> int \<Rightarrow> Conn" where
  "lockWrite c t now = (if t > 0 then c\<lparr>wrDeadline := Some (now + t)\<rparr> else c)"

definition writeHeader :: "Conn \<Rightarrow> bytes \<Rightarrow> go_error option \<times> Conn" where
  "writeHeader c buf = (case connWrite c (putUint32 (word_of_nat (length buf))) of (_, e, c') \<Rightarrow> (e, c'))"

definition writeBody :: "Conn \<Rightarrow> bytes \<Rightarrow> int \<Rightarrow> go_error option \<times> Conn" where
  "writeBody c buf t =
     (case connWrite c buf of
        (_, Some e, c') \<Rightarrow> (Some e, c')
      | (_, None, c') \<Rightarrow> (None, if t > 0 then c'\<lparr>wrDeadline := None\<rparr> else c'))"

inductive wl_step :: "writers \<Rightarrow> writers outcome \<Rightarrow> bool" where
  acquire: "holder s = None \<Longrightarrow>
    wl_step s (Ok (s\<lparr>wconn := lockWrite (wconn s) t now, holder := Some (BeforeHeader, buf, t)\<rparr>))"
| header: "holder s = Some (BeforeHeader, buf, t) \<Longrightarrow> writeHeader (wconn s) buf = (None, c') \<Longrightarrow>
    wl_step s (Ok (s\<lparr>wconn := c', holder := Some (BeforeBody, buf, t)\<rparr>))"
| header_fails: "holder s = Some (BeforeHeader, buf, t) \<Longrightarrow> writeHeader (wconn s) buf = (Some e, c') \<Longrightarrow>
    wl_step s (Ok (s\<lparr>wconn := c', holder := None, failed := True\<rparr>))"
| body: "holder s = Some (BeforeBody, buf, t) \<Longrightarrow> writeBody (wconn s) buf t = (None, c') \<Longrightarrow>
    wl_step s (Ok (s\<lparr>wconn := c', holder := None, completed := completed s @ [buf]\<rparr>))"
| body_fails: "holder s = Some (BeforeBody, buf, t) \<Longrightarrow> writeBody (wconn s) buf t = (Some e, c') \<Longrightarrow>
    wl_step s (Ok (s\<lparr>wconn := c', holder := None, failed := True\<rparr>))"
| env: "wrSent c' = wrSent (wconn s) \<Longrightarrow> wl_step s (Ok (s\<lparr>wconn := c'\<rparr>))"

inductive_cases wl_stepE: "wl_step s r"

definition wl_init :: "writers \<Rightarrow> bool" where
  "wl_init s \<longleftrightarrow> wrSent (wconn s) = [] \<and> holder s = None \<and> completed s = [] \<and> \<not> failed s"

text \<open>What is on the wire while no write has failed.\<close>

definition pendingHeader :: "writers \<Rightarrow> bytes" where
  "pendingHeader s =
     (case holder s of Some (BeforeBody, buf, _) \<Rightarrow> putUint32 (word_of_nat (length buf)) | _ \<Rightarrow> [])"

definition wl_inv :: "writers \<Rightarrow> bool" where
  "wl_inv s \<longleftrightarrow> failed s \<or> wrSent (wconn s) = concat (map frame (completed s)) @ pendingHeader s"

lemma writeHeader_sent: "writeHeader c buf = (None, c') \<Longrightarrow> wrSent c' = wrSent c @ putUint32 (word_of_nat (length buf))"
  by (auto simp: writeHeader_def connWrite_def split: if_splits option.splits)

lemma writeBody_sent: "writeBody c buf t = (None, c') \<Longrightarrow> wrSent c' = wrSent c @ buf"
  by (auto simp: writeBody_def connWrite_def split: if_splits option.splits)

lemma wl_inv_step: "wl_step s (Ok s') \<Longrightarrow> wl_inv s \<Longrightarrow> wl_inv s'"
  by (erule wl_stepE)
     (auto simp: wl_inv_def pendingHeader_def lockWrite_def frame_def dest!: writeHeader_sent writeBody_sent)

lemma wl_init_inv: "wl_init s \<Longrightarrow> wl_inv s"
  by (simp add: wl_init_def wl_inv_def pendingHeader_def)

interpretation wl: safe_machine wl_init wl_step wl_inv
  by unfold_locales (auto intro: wl_init_inv wl_inv_step elim: wl_stepE)

section \<open>Properties\<close>

text \<open>
  \<open>writeMessage\<close> is the three steps of a goroutine that runs alone: lock, header, body.
\<close>

lemma writeMessage_steps:
  "writeMessage c buf t now =
    (case writeHeader (lockWrite c t now) buf of
       (Some e, c1) \<Rightarrow> (Err e, c1)
     | (None, c1) \<Rightarrow>
         (case writeBody c1 buf t of (Some e, c2) \<Rightarrow> (Err e, c2) | (None, c2) \<Rightarrow> (Ok (), c2)))"
  by (auto simp: writeMessage_def writeHeader_def writeBody_def lockWrite_def Let_def split: option.splits prod.splits)

text \<open>
  C17: frames never interleave. However many goroutines call \<open>writeMessage\<close> on one
  connection, as long as no write has failed the bytes sent are the complete frames of the
  finished calls, in the order in which they finished, followed by at most the header of
  the one call that holds the lock; so a peer that reads with a sufficient limit gets
  exactly these messages.
\<close>

theorem frames_never_interleave:
  assumes "reachable wl_init wl_step s" "\<not> failed s"
  shows "wrSent (wconn s) = concat (map frame (completed s)) @ pendingHeader s \<and>
    (\<forall>mx r. (\<forall>m\<in>set (completed s). length m \<le> unat mx) \<and> inBytes r = wrSent (wconn s) \<longrightarrow>
       (\<exists>r'. readMany (\<lambda>c. readMessage c mx) (length (completed s)) r = (Ok (completed s), r') \<and>
         inBytes r' = pendingHeader s))"
proof -
  have w: "wrSent (wconn s) = concat (map frame (completed s)) @ pendingHeader s"
    using wl.reachable_inv [OF assms(1)] assms(2) by (simp add: wl_inv_def)
  then show ?thesis using tcp.rd_frames [of "completed s" _ _ "pendingHeader s"] by auto
qed

text \<open>One goroutine has written \<open>[1, 2]\<close>, another one has the lock and has sent its header.\<close>

theorem frames_never_interleave_witness:
  "\<exists>s :: writers. completed s = [[1, 2]] \<and> holder s = Some (BeforeBody, [3], 0) \<and>
    wrSent (wconn s) = frame [1, 2] @ putUint32 1"
proof -
  let ?k = "newConn ''peer'' [] ErrEOF"
  let ?s0 = "\<lparr>wconn = ?k, holder = None, completed = [], failed = False\<rparr>"
  let ?s1 = "?s0\<lparr>holder := Some (BeforeHeader, [1, 2], 0)\<rparr>"
  let ?s2 = "?s0\<lparr>wconn := ?k\<lparr>wrSent := putUint32 2\<rparr>, holder := Some (BeforeBody, [1, 2], 0)\<rparr>"
  let ?s3 = "?s0\<lparr>wconn := ?k\<lparr>wrSent := frame [1, 2]\<rparr>, completed := [[1, 2]]\<rparr>"
  let ?s4 = "?s3\<lparr>holder := Some (BeforeHeader, [3], 0)\<rparr>"
  let ?s5 = "?s3\<lparr>wconn := ?k\<lparr>wrSent := frame [1, 2] @ putUint32 1\<rparr>, holder := Some (BeforeBody, [3], 0)\<rparr>"
  have a: "wl_step ?s0 (Ok ?s1)" using wl_step.acquire [where s = ?s0 and t = 0 and buf = "[1, 2]"] by (simp add: lockWrite_def)
  have b: "wl_step ?s1 (Ok ?s2)"
    using wl_step.header [of ?s1 "[1, 2]" 0 "?k\<lparr>wrSent := putUint32 2\<rparr>"]
    by (simp add: writeHeader_def connWrite_def newConn_def)
  have c: "wl_step ?s2 (Ok ?s3)"
    using wl_step.body [of ?s2 "[1, 2]" 0 "?k\<lparr>wrSent := frame [1, 2]\<rparr>"]
    by (simp add: writeBody_def connWrite_def newConn_def frame_def)
  have d: "wl_step ?s3 (Ok ?s4)" using wl_step.acquire [where s = ?s3 and t = 0 and buf = "[3]"] by (simp add: lockWrite_def)
  have e: "wl_step ?s4 (Ok ?s5)"
    using wl_step.header [of ?s4 "[3]" 0 "?k\<lparr>wrSent := frame [1, 2] @ putUint32 1\<rparr>"]
    by (simp add: writeHeader_def connWrite_def newConn_def)
  have i: "wl_init ?s0" by (simp add: wl_init_def newConn_def)
  note go = reach_step [where init = wl_init and step = wl_step]
  have "reachable wl_init wl_step ?s0" using i by (rule reach_start [where init = wl_init and step = wl_step])
  then have "reachable wl_init wl_step ?s5" by (rule go [OF go [OF go [OF go [OF go [OF _ a] b] c] d] e])
  moreover have "\<not> failed ?s5" by simp
  ultimately have "wrSent (wconn ?s5) = concat (map frame (completed ?s5)) @ pendingHeader ?s5"
    using frames_never_interleave by blast
  then show ?thesis by (intro exI [of _ ?s5]) (simp add: pendingHeader_def)
qed

end
