(* ===== verification/Secure.thy ===== *)
theory Secure
  imports Message
begin

text \<open>
  The cryptographic half of \<open>message.go\<close> (\<open>getOrComputeSharedKey\<close>, \<open>encrypt\<close>, \<open>decrypt\<close>)
  and \<open>encode\<close>/\<open>decode\<close> of \<open>client.go\<close>. NaCl box, the ed25519 conversions and the NKN
  address format belong to other packages and are the parameter \<open>crypto\<close>. The shared-key
  cache is shown to be transparent, \<open>decode\<close> to invert the peer's \<open>encode\<close>, and the inputs
  on which \<open>decode\<close> panics are characterised.
\<close>

record crypto =
  ClientAddrToPubKey :: "string \<Rightarrow> bytes outcome"
  PublicKeySize :: nat
  PrivateKeySize :: nat
  PublicKeyToCurve :: "bytes \<Rightarrow> bytes option"
  PrivateKeyToCurve :: "bytes \<Rightarrow> bytes"
  Precompute :: "bytes \<Rightarrow> bytes \<Rightarrow> bytes"
  Overhead :: nat
  Seal :: "bytes \<Rightarrow> bytes \<Rightarrow> bytes \<Rightarrow> bytes"
  Open :: "bytes \<Rightarrow> bytes \<Rightarrow> bytes \<Rightarrow> bytes option"

text \<open>
  Documented behaviour of authenticated encryption: opening a sealed message with the same
  nonce and key returns it, and a box is exactly \<open>Overhead\<close> bytes longer than its content.
\<close>

definition crypto_laws :: "crypto \<Rightarrow> bool" where
  "crypto_laws C \<longleftrightarrow>
     (\<forall>m n k. Open C (Seal C m n k) n k = Some m) \<and>
     (\<forall>m n k. length (Seal C m n k) = length m + Overhead C) \<and>
     (\<forall>b n k m. Open C b n k = Some m \<longrightarrow> length b = length m + Overhead C) \<and>
     (\<forall>a. no_panic (ClientAddrToPubKey C a))"

lemma crypto_lawsD:
  assumes "crypto_laws C"
  shows "Open C (Seal C m n k) n k = Some m"
    and "length (Seal C m n k) = length m + Overhead C"
    and "Open C b n k = Some m \<Longrightarrow> length b = length m + Overhead C"
    and "no_panic (ClientAddrToPubKey C a)"
  using assms unfolding crypto_laws_def by blast+

text \<open>Go's \<open>copy\<close> into a zeroed array, and \<open>append\<close> to a zero-length slice over a buffer.\<close>

definition copyInto :: "nat \<Rightarrow> bytes \<Rightarrow> bytes" where
  "copyInto n src = take n src @ replicate (n - length src) 0"

definition appendInPlace :: "bytes \<Rightarrow> bytes \<Rightarrow> bytes" where
  "appendInPlace buf out = (if length out \<le> length buf then out @ drop (length out) buf else buf)"

lemma copyInto_exact [simp]: "length src = n \<Longrightarrow> copyInto n src = src"
  by (simp add: copyInto_def)

lemma appendInPlace_exact [simp]: "length out = length buf \<Longrightarrow> appendInPlace buf out = out"
  by (simp add: appendInPlace_def)

section \<open>Shared keys\<close>

record keyring =
  privKey :: bytes
  sharedKeys :: "(string, bytes) gomap"

definition computeSharedKey :: "crypto \<Rightarrow> bytes \<Rightarrow> bytes \<Rightarrow> bytes outcome" where
  "computeSharedKey C priv remotePublicKey =
     (if length remotePublicKey \<noteq> PublicKeySize C then Err (ErrPubKeyLength (length remotePublicKey))
      else (case PublicKeyToCurve C (copyInto (PublicKeySize C) remotePublicKey) of
              None \<Rightarrow> Err (ErrPubKeyConversion remotePublicKey)
            | Some curvePublicKey \<Rightarrow>
                Ok (Precompute C curvePublicKey
                     (PrivateKeyToCurve C (copyInto (PrivateKeySize C) priv)))))"

definition getOrComputeSharedKey ::
  "crypto \<Rightarrow> 'a keyring_scheme \<Rightarrow> bytes \<Rightarrow> bytes outcome \<times> 'a keyring_scheme" where
  "getOrComputeSharedKey C c remotePublicKey =
     (let k = hexEncode remotePublicKey
      in case mget (sharedKeys c) k of
           Some sharedKey \<Rightarrow> (Ok sharedKey, c)
         | None \<Rightarrow>
             (case computeSharedKey C (privKey c) remotePublicKey of
                Ok sharedKey \<Rightarrow> (Ok sharedKey, c\<lparr>sharedKeys := mput (sharedKeys c) k sharedKey\<rparr>)
              | Err e \<Rightarrow> (Err e, c)
              | Panic p \<Rightarrow> (Panic p, c)))"

text \<open>Every cached key is the one a fresh computation would give.\<close>

definition keyring_ok :: "crypto \<Rightarrow> 'a keyring_scheme \<Rightarrow> bool" where
  "keyring_ok C c \<longleftrightarrow>
     (\<forall>pk v. mget (sharedKeys c) (hexEncode pk) = Some v \<longrightarrow>
        computeSharedKey C (privKey c) pk = Ok v)"

lemma keyring_ok_empty [simp]: "sharedKeys c = [] \<Longrightarrow> keyring_ok C c"
  by (simp add: keyring_ok_def)

lemma getOrComputeSharedKey_fst:
  "keyring_ok C c \<Longrightarrow> fst (getOrComputeSharedKey C c pk) = computeSharedKey C (privKey c) pk"
  by (auto simp: getOrComputeSharedKey_def keyring_ok_def Let_def split: option.splits outcome.splits)

lemma getOrComputeSharedKey_ok:
  "keyring_ok C c \<Longrightarrow> keyring_ok C (snd (getOrComputeSharedKey C c pk))"
  by (auto simp: getOrComputeSharedKey_def keyring_ok_def Let_def hexEncode_inj
      split: option.splits outcome.splits if_splits)

lemma getOrComputeSharedKey_frame:
  "\<exists>ks. snd (getOrComputeSharedKey C c pk) = c\<lparr>sharedKeys := ks\<rparr>"
  by (auto simp: getOrComputeSharedKey_def Let_def split: option.splits outcome.splits)
     (metis keyring.surjective keyring.update_convs(2))+

lemma getOrComputeSharedKey_privKey [simp]:
  "privKey (snd (getOrComputeSharedKey C c pk)) = privKey c"
  by (auto simp: getOrComputeSharedKey_def Let_def split: option.splits outcome.splits)

lemma computeSharedKey_no_panic [simp]: "no_panic (computeSharedKey C priv pk)"
  by (simp add: computeSharedKey_def split: option.split)

section \<open>Boxes\<close>

text \<open>The nonce is what \<open>rand.Read\<close> produced: \<open>nonceSize\<close> bytes or an error.\<close>

definition encrypt :: "crypto \<Rightarrow> bytes \<Rightarrow> bytes \<Rightarrow> bytes outcome \<Rightarrow> (bytes \<times> bytes) outcome" where
  "encrypt C message sharedKey rnd =
     obind rnd (\<lambda>nonce.
       let encrypted = replicate (length message + Overhead C) 0
       in Ok (appendInPlace encrypted (Seal C message nonce sharedKey), nonce))"

definition decrypt :: "crypto \<Rightarrow> bytes \<Rightarrow> bytes \<Rightarrow> bytes \<Rightarrow> bytes outcome" where
  "decrypt C message nonce sharedKey =
     (if length message < Overhead C
      then Panic (MakeSliceLen (int (length message) - int (Overhead C)))
      else let decrypted = replicate (length message - Overhead C) 0
           in case Open C message nonce sharedKey of
                None \<Rightarrow> Err ErrDecryptFailed
              | Some out \<Rightarrow> Ok (appendInPlace decrypted out))"

lemma encrypt_eq:
  "crypto_laws C \<Longrightarrow> encrypt C m k (Ok n) = Ok (Seal C m n k, n)"
  by (simp add: encrypt_def crypto_lawsD)

lemma decrypt_seal:
  "crypto_laws C \<Longrightarrow> decrypt C (Seal C m n k) n k = Ok m"
  by (simp add: decrypt_def crypto_lawsD)

definition encode ::
  "crypto \<Rightarrow> 'a keyring_scheme \<Rightarrow> bytes \<Rightarrow> string \<Rightarrow> bytes outcome \<Rightarrow> bytes outcome \<times> 'a keyring_scheme" where
  "encode C c message remoteAddr rnd =
     (case ClientAddrToPubKey C remoteAddr of
        Ok remotePublicKey \<Rightarrow>
          (case getOrComputeSharedKey C c remotePublicKey of
             (Ok sharedKey, c') \<Rightarrow>
               (obind (encrypt C message sharedKey rnd) (\<lambda>(encrypted, nonce). Ok (nonce @ encrypted)), c')
           | (Err e, c') \<Rightarrow> (Err e, c')
           | (Panic p, c') \<Rightarrow> (Panic p, c'))
      | Err e \<Rightarrow> (Err e, c)
      | Panic p \<Rightarrow> (Panic p, c))"

definition decode ::
  "crypto \<Rightarrow> 'a keyring_scheme \<Rightarrow> bytes \<Rightarrow> string \<Rightarrow> bytes outcome \<times> 'a keyring_scheme" where
  "decode C c buf remoteAddr =
     (if length buf \<le> nonceSize then (Err ErrMessageTooShort, c)
      else (case ClientAddrToPubKey C remoteAddr of
              Ok remotePublicKey \<Rightarrow>
                (case getOrComputeSharedKey C c remotePublicKey of
                   (Ok sharedKey, c') \<Rightarrow>
                     (decrypt C (drop nonceSize buf) (copyInto nonceSize (take nonceSize buf)) sharedKey, c')
                 | (Err e, c') \<Rightarrow> (Err e, c')
                 | (Panic p, c') \<Rightarrow> (Panic p, c'))
            | Err e \<Rightarrow> (Err e, c)
            | Panic p \<Rightarrow> (Panic p, c)))"

text \<open>The key two parties use for each other, cache aside.\<close>

definition peerKey :: "crypto \<Rightarrow> bytes \<Rightarrow> string \<Rightarrow> bytes outcome" where
  "peerKey C priv remoteAddr = obind (ClientAddrToPubKey C remoteAddr) (computeSharedKey C priv)"

lemma encode_spec:
  assumes "crypto_laws C" "keyring_ok C c" "length nonce = nonceSize"
  shows "fst (encode C c m remote (Ok nonce)) =
    obind (peerKey C (privKey c) remote) (\<lambda>k. Ok (nonce @ Seal C m nonce k))"
  using getOrComputeSharedKey_fst [OF assms(2)]
  by (auto simp: encode_def peerKey_def encrypt_eq assms(1) split: outcome.split prod.split)
     (metis fst_conv obind.simps)+

lemma decode_spec:
  assumes "keyring_ok C c"
  shows "fst (decode C c buf remote) =
    (if length buf \<le> nonceSize then Err ErrMessageTooShort
     else obind (peerKey C (privKey c) remote)
       (decrypt C (drop nonceSize buf) (take nonceSize buf)))"
  using getOrComputeSharedKey_fst [OF assms]
  by (auto simp: decode_def peerKey_def split: outcome.split prod.split)
     (metis fst_conv obind.simps)+

lemma encode_keyring_ok: "keyring_ok C c \<Longrightarrow> keyring_ok C (snd (encode C c m remote rnd))"
  using getOrComputeSharedKey_ok [of C c]
  by (auto simp: encode_def split: outcome.split prod.split) (metis snd_conv)+

lemma decode_keyring_ok: "keyring_ok C c \<Longrightarrow> keyring_ok C (snd (decode C c buf remote))"
  using getOrComputeSharedKey_ok [of C c]
  by (auto simp: decode_def split: outcome.split prod.split) (metis snd_conv)+

lemma decode_sealed:
  assumes "crypto_laws C" "keyring_ok C b" "peerKey C (privKey b) addrA = Ok k"
    and "length nonce = nonceSize"
  shows "fst (decode C b (nonce @ Seal C m nonce k) addrA) =
    (if Overhead C = 0 \<and> m = [] then Err ErrMessageTooShort else Ok m)"
  using assms crypto_lawsD(2) [OF assms(1), of m nonce k]
  by (auto simp: decode_spec decrypt_seal)

section \<open>A concrete instance\<close>

text \<open>
  A toy cipher with the sizes of NaCl box (16 bytes of overhead, 32-byte keys) on which the
  laws hold, for evaluating examples: the tag is cut from key and nonce, and two addresses
  share the sum of their keys.
\<close>

definition demoTag :: "bytes \<Rightarrow> bytes \<Rightarrow> bytes" where
  "demoTag n k = copyInto 16 (k @ n)"

definition demoPub :: "string \<Rightarrow> bytes" where
  "demoPub a = copyInto 32 (bytes_of_string a)"

definition demoCrypto :: crypto where
  "demoCrypto =
     \<lparr>ClientAddrToPubKey = (\<lambda>a. Ok (demoPub a)),
      PublicKeySize = 32, PrivateKeySize = 64,
      PublicKeyToCurve = Some, PrivateKeyToCurve = take 32,
      Precompute = map2 (+), Overhead = 16,
      Seal = (\<lambda>m n k. demoTag n k @ m),
      Open = (\<lambda>b n k. if length b \<ge> 16 \<and> take 16 b = demoTag n k then Some (drop 16 b) else None)\<rparr>"

lemma length_copyInto [simp]: "length (copyInto n b) = n"
  by (simp add: copyInto_def)

lemma demoCrypto_laws: "crypto_laws demoCrypto"
  by (auto simp: crypto_laws_def demoCrypto_def demoTag_def)

definition demoKey :: "string \<Rightarrow> string \<Rightarrow> bytes" where
  "demoKey a b = map2 (+) (demoPub a) (demoPub b)"

lemma demoKey_sym: "demoKey a b = demoKey b a"
  by (auto simp: demoKey_def list_eq_iff_nth_eq add.commute demoPub_def)

lemma demo_peerKey: "peerKey demoCrypto (demoPub a) b = Ok (demoKey b a)"
proof -
  have "length (demoPub x) = 32" for x by (simp add: demoPub_def)
  moreover from this have "take 32 (copyInto 64 (demoPub a)) = demoPub a"
    by (simp add: copyInto_def)
  ultimately show ?thesis
    by (simp add: peerKey_def demoCrypto_def computeSharedKey_def demoKey_def)
qed

definition demoRing :: "string \<Rightarrow> keyring" where
  "demoRing a = \<lparr>privKey = demoPub a, sharedKeys = []\<rparr>"

lemma demoRing_ok [simp]: "keyring_ok C (demoRing a)" "privKey (demoRing a) = demoPub a"
  by (simp_all add: demoRing_def)

section \<open>Properties\<close>

text \<open>
  C13: what one client encodes for a peer, the peer decodes to the same message, for every
  message, nonce and cache state of the two clients, provided the two sides derive the same
  key for each other (the Diffie-Hellman agreement the NaCl box guarantees).
\<close>

theorem decode_inverts_encode:
  assumes "crypto_laws C" "0 < Overhead C"
    and "keyring_ok C a" "keyring_ok C b"
    and "peerKey C (privKey a) addrB = Ok k" "peerKey C (privKey b) addrA = Ok k"
    and "length nonce = nonceSize"
  shows "obind (fst (encode C a m addrB (Ok nonce))) (\<lambda>buf. fst (decode C b buf addrA)) = Ok m"
  using assms by (simp add: encode_spec decode_sealed)

theorem decode_inverts_encode_witness:
  "obind (fst (encode demoCrypto (demoRing ''alice'') [1, 2, 3] ''bob'' (Ok (replicate 24 5))))
     (\<lambda>buf. fst (decode demoCrypto (demoRing ''bob'') buf ''alice'')) = Ok [1, 2, 3]"
proof (rule decode_inverts_encode)
  show "0 < Overhead demoCrypto" by (simp add: demoCrypto_def)
  show "peerKey demoCrypto (privKey (demoRing ''alice'')) ''bob'' = Ok (demoKey ''bob'' ''alice'')"
    by (simp add: demo_peerKey)
  show "peerKey demoCrypto (privKey (demoRing ''bob'')) ''alice'' = Ok (demoKey ''bob'' ''alice'')"
    by (simp add: demo_peerKey demoKey_sym)
qed (simp_all add: demoCrypto_laws nonceSize_def)

text \<open>
  C36: the shared-key cache is transparent. \<open>getOrComputeSharedKey\<close> returns what computing
  the key afresh returns (its errors included), for the key asked for and for every other, and
  leaves a cache of which this is still true; entries are per public key, since
  \<open>hex.EncodeToString\<close> is injective. A failed computation is not cached.
\<close>

theorem shared_key_cache_transparent:
  assumes "keyring_ok C c"
  shows "fst (getOrComputeSharedKey C c pk) = computeSharedKey C (privKey c) pk \<and>
    keyring_ok C (snd (getOrComputeSharedKey C c pk)) \<and>
    (\<forall>pk'. fst (getOrComputeSharedKey C (snd (getOrComputeSharedKey C c pk)) pk') =
      fst (getOrComputeSharedKey C c pk')) \<and>
    (\<forall>e. computeSharedKey C (privKey c) pk = Err e \<longrightarrow> snd (getOrComputeSharedKey C c pk) = c) \<and>
    (\<forall>k. computeSharedKey C (privKey c) pk = Ok k \<longrightarrow>
      mget (sharedKeys (snd (getOrComputeSharedKey C c pk))) (hexEncode pk) = Some k)"
proof -
  have "mget (sharedKeys (snd (getOrComputeSharedKey C c pk))) (hexEncode pk) = Some k"
    if "computeSharedKey C (privKey c) pk = Ok k" for k
    using assms that by (auto simp: getOrComputeSharedKey_def keyring_ok_def Let_def split: option.split)
  moreover have "snd (getOrComputeSharedKey C c pk) = c" if "computeSharedKey C (privKey c) pk = Err e" for e
    using assms that by (auto simp: getOrComputeSharedKey_def keyring_ok_def Let_def split: option.split)
  ultimately show ?thesis using assms by (simp add: getOrComputeSharedKey_fst getOrComputeSharedKey_ok)
qed

theorem shared_key_cache_transparent_witness:
  "fst (getOrComputeSharedKey demoCrypto (demoRing ''alice'') (demoPub ''bob'')) =
     computeSharedKey demoCrypto (demoPub ''alice'') (demoPub ''bob'')"
  using shared_key_cache_transparent [of demoCrypto "demoRing ''alice''" "demoPub ''bob''"] by simp

text \<open>
  C22: \<open>decode\<close> panics, instead of returning an error, on exactly the messages that are long
  enough to hold a nonce but too short to hold a box: \<open>decrypt\<close> allocates
  \<open>len(message)-box.Overhead\<close> bytes before it checks that this is not negative. Since the
  bytes come from the network, a peer can stop the process with a 25-byte message.
\<close>

theorem decode_panics_on_short_box:
  assumes "crypto_laws C" "keyring_ok C c"
  shows "(\<exists>p. fst (decode C c buf remote) = Panic p) \<longleftrightarrow>
    nonceSize < length buf \<and> length buf < nonceSize + Overhead C \<and>
    (\<exists>k. peerKey C (privKey c) remote = Ok k)"
proof -
  have key: "no_panic (peerKey C (privKey c) remote)"
    using crypto_lawsD(4) [OF assms(1), of remote]
    by (cases "ClientAddrToPubKey C remote") (auto simp: peerKey_def)
  show ?thesis
    using key assms(2)
    by (cases "peerKey C (privKey c) remote")
       (auto simp: decode_spec decrypt_def Let_def split: option.split)
qed

theorem decode_panics_on_short_box_witness:
  "\<exists>p. fst (decode demoCrypto (demoRing ''bob'') (replicate 25 0) ''alice'') = Panic p"
  using decode_panics_on_short_box [OF demoCrypto_laws, of "demoRing ''bob''" "replicate 25 0" "''alice''"]
  by (simp add: demo_peerKey nonceSize_def) (simp add: demoCrypto_def)

end
