(* ===== verification/Config.thy ===== *)
theory Config
  imports Tuna_Prelude
begin

text \<open>
  \<open>config.go\<close> and \<open>SetConfig\<close> of \<open>client.go\<close>: the configuration record, its defaults,
  and the merging of user settings. Merging is the mergo library's and enters as a
  parameter with its documented law; so do the two default names that tuna defines.
\<close>

text \<open>
  Values of other packages' types are opaque numbers, 0 standing for Go's zero value: an IP
  filter, an NKN filter, and the part of an ncp configuration the client does not read. A
  pointer field is an option. A decimal literal is its mantissa and exponent.
\<close>

type_synonym opaque = nat
type_synonym decimal = "int \<times> int"

record NcpConfig =
  MTU :: "32 word"
  ncpRest :: opaque

record Config =
  NumTunaListeners :: int
  TunaDialTimeout :: int
  TunaMaxPrice :: string
  TunaNanoPayFee :: string
  TunaMinNanoPayFee :: string
  TunaNanoPayFeeRatio :: decimal
  TunaServiceName :: string
  TunaSubscriptionPrefix :: string
  TunaIPFilter :: "opaque option"
  TunaNknFilter :: "opaque option"
  TunaDownloadGeoDB :: bool
  TunaGeoDBPath :: string
  TunaMeasureBandwidth :: bool
  TunaMeasureStoragePath :: string
  TunaMeasurementBytesDownLink :: int
  TunaMinBalance :: string
  SessionConfig :: "NcpConfig option"
  ReconnectRetries :: int
  ReconnectInterval :: int
  UDPRecvBufferSize :: int
  MaxUdpDatagramBuffered :: int
  Verbose :: bool

record tuna_names =
  DefaultReverseServiceName :: string
  DefaultSubscriptionPrefix :: string

definition defaultConfig :: "tuna_names \<Rightarrow> Config" where
  "defaultConfig T =
     \<lparr>NumTunaListeners = 4, TunaDialTimeout = 10000, TunaMaxPrice = ''0'', TunaNanoPayFee = '''',
      TunaMinNanoPayFee = ''0'', TunaNanoPayFeeRatio = (1, -1),
      TunaServiceName = DefaultReverseServiceName T,
      TunaSubscriptionPrefix = DefaultSubscriptionPrefix T,
      TunaIPFilter = None, TunaNknFilter = None, TunaDownloadGeoDB = False, TunaGeoDBPath = '''',
      TunaMeasureBandwidth = False, TunaMeasureStoragePath = '''',
      TunaMeasurementBytesDownLink = 0, TunaMinBalance = ''0'', SessionConfig = None,
      ReconnectRetries = 0, ReconnectInterval = 2000, UDPRecvBufferSize = 2 ^ 20,
      MaxUdpDatagramBuffered = 1024, Verbose = False\<rparr>"

definition defaultSessionConfig :: NcpConfig where
  "defaultSessionConfig = \<lparr>MTU = 1300, ncpRest = 0\<rparr>"

definition DefaultSessionConfig :: NcpConfig where
  "DefaultSessionConfig = defaultSessionConfig"

definition DefaultConfig :: "tuna_names \<Rightarrow> Config" where
  "DefaultConfig T =
     (defaultConfig T)\<lparr>TunaIPFilter := Some 0, TunaNknFilter := Some 0,
       SessionConfig := Some DefaultSessionConfig\<rparr>"

text \<open>\<open>mergo.Merge(dst, src, mergo.WithOverride)\<close> returns the updated \<open>dst\<close>.\<close>

type_synonym merger = "Config \<Rightarrow> Config \<Rightarrow> Config outcome"

definition MergedConfig :: "merger \<Rightarrow> tuna_names \<Rightarrow> Config option \<Rightarrow> Config outcome" where
  "MergedConfig merge T conf =
     (let merged = DefaultConfig T
      in case conf of
           None \<Rightarrow> Ok merged
         | Some cf \<Rightarrow> (case merge merged cf of Ok m \<Rightarrow> Ok m | Err e \<Rightarrow> Err e | Panic p \<Rightarrow> Panic p))"

text \<open>
  \<open>SetConfig\<close> returns the client's new configuration beside its error. The merge works in place:
  \<open>partial\<close> is what it has made of \<open>c.config\<close> when it fails.
\<close>

definition SetConfig :: "merger \<Rightarrow> Config \<Rightarrow> Config \<Rightarrow> Config \<Rightarrow> unit outcome \<times> Config" where
  "SetConfig merge partial cfg conf =
     (case merge cfg conf of
        Err e \<Rightarrow> (Err e, partial)
      | Panic p \<Rightarrow> (Panic p, partial)
      | Ok c0 \<Rightarrow>
          (let c1 = (case TunaIPFilter conf of None \<Rightarrow> c0 | Some f \<Rightarrow> c0\<lparr>TunaIPFilter := Some f\<rparr>);
               c2 = (case TunaNknFilter conf of None \<Rightarrow> c1 | Some f \<Rightarrow> c1\<lparr>TunaNknFilter := Some f\<rparr>)
           in (Ok (), c2)))"

section \<open>The law of merging\<close>

text \<open>
  Documented behaviour: with override, a non-empty source attribute replaces the destination's
  and an empty one leaves it. For pointers to structures the merge descends into the
  structure; the only field the client reads below a pointer is the MTU.
\<close>

definition pick :: "'a \<Rightarrow> 'a \<Rightarrow> 'a \<Rightarrow> 'a" where
  "pick zero old new = (if new = zero then old else new)"

definition pickSession :: "NcpConfig option \<Rightarrow> NcpConfig option \<Rightarrow> NcpConfig option" where
  "pickSession old new =
     (case (old, new) of
        (_, None) \<Rightarrow> old
      | (None, Some n) \<Rightarrow> Some n
      | (Some d, Some n) \<Rightarrow> Some \<lparr>MTU = pick 0 (MTU d) (MTU n), ncpRest = pick 0 (ncpRest d) (ncpRest n)\<rparr>)"

definition merge_laws :: "merger \<Rightarrow> bool" where
  "merge_laws merge \<longleftrightarrow>
     (\<forall>d s. no_panic (merge d s)) \<and>
     (\<forall>d s r. merge d s = Ok r \<longrightarrow>
        NumTunaListeners r = pick 0 (NumTunaListeners d) (NumTunaListeners s) \<and>
        TunaDialTimeout r = pick 0 (TunaDialTimeout d) (TunaDialTimeout s) \<and>
        TunaMaxPrice r = pick [] (TunaMaxPrice d) (TunaMaxPrice s) \<and>
        ReconnectRetries r = pick 0 (ReconnectRetries d) (ReconnectRetries s) \<and>
        ReconnectInterval r = pick 0 (ReconnectInterval d) (ReconnectInterval s) \<and>
        UDPRecvBufferSize r = pick 0 (UDPRecvBufferSize d) (UDPRecvBufferSize s) \<and>
        MaxUdpDatagramBuffered r = pick 0 (MaxUdpDatagramBuffered d) (MaxUdpDatagramBuffered s) \<and>
        SessionConfig r = pickSession (SessionConfig d) (SessionConfig s) \<and>
        (TunaIPFilter r = None \<longrightarrow> TunaIPFilter d = None \<and> TunaIPFilter s = None) \<and>
        (TunaNknFilter r = None \<longrightarrow> TunaNknFilter d = None \<and> TunaNknFilter s = None))"

text \<open>
  A merge that stops half-way has replaced some attributes and left the others, also below the
  pointer to the session configuration.
\<close>

definition partly_merged :: "Config \<Rightarrow> Config \<Rightarrow> Config \<Rightarrow> bool" where
  "partly_merged d s r \<longleftrightarrow>
     NumTunaListeners r \<in> {NumTunaListeners d, pick 0 (NumTunaListeners d) (NumTunaListeners s)} \<and>
     (TunaIPFilter r = None \<longrightarrow> TunaIPFilter d = None) \<and>
     (TunaNknFilter r = None \<longrightarrow> TunaNknFilter d = None) \<and>
     (\<forall>x. SessionConfig d = Some x \<longrightarrow>
        (\<exists>y. SessionConfig r = Some y \<and>
          (MTU y = MTU x \<or> (\<exists>z. SessionConfig s = Some z \<and> MTU y = pick 0 (MTU x) (MTU z)))))"

text \<open>
  The client dereferences the two filters and the session configuration without a check
  (\<open>newTunaExit\<close>, \<open>handleMsg\<close>), and sizes its channels and readers by these numbers.
\<close>

definition config_ok :: "Config \<Rightarrow> bool" where
  "config_ok cfg \<longleftrightarrow>
     TunaIPFilter cfg \<noteq> None \<and> TunaNknFilter cfg \<noteq> None \<and> SessionConfig cfg \<noteq> None \<and>
     NumTunaListeners cfg \<noteq> 0 \<and> (\<forall>s. SessionConfig cfg = Some s \<longrightarrow> MTU s \<noteq> 0)"

lemma DefaultConfig_ok: "config_ok (DefaultConfig T)"
  by (simp add: config_ok_def DefaultConfig_def defaultConfig_def DefaultSessionConfig_def defaultSessionConfig_def)

lemma merge_config_ok:
  assumes "merge_laws merge" "config_ok d" "merge d s = Ok r"
  shows "config_ok r"
proof -
  note L = merge_laws_def [THEN iffD1, OF assms(1), THEN conjunct2, rule_format, OF assms(3)]
  have "NumTunaListeners r = pick 0 (NumTunaListeners d) (NumTunaListeners s)"
    "SessionConfig r = pickSession (SessionConfig d) (SessionConfig s)"
    using L by simp_all
  moreover have "TunaIPFilter r \<noteq> None" "TunaNknFilter r \<noteq> None"
    using L assms(2) by (auto simp: config_ok_def)
  ultimately show ?thesis using assms(2)
    by (auto simp: config_ok_def pick_def pickSession_def split: option.splits)
qed

lemma MergedConfig_ok: "merge_laws merge \<Longrightarrow> MergedConfig merge T conf = Ok c \<Longrightarrow> config_ok c"
  using merge_config_ok [OF _ DefaultConfig_ok] DefaultConfig_ok
  by (auto simp: MergedConfig_def Let_def split: option.splits outcome.splits)

lemma partly_merged_ok: "partly_merged d s r \<Longrightarrow> config_ok d \<Longrightarrow> config_ok r"
  by (auto simp: partly_merged_def config_ok_def pick_def split: if_splits)

section \<open>Properties\<close>

text \<open>
  C40: a client never runs with a configuration whose filters or session settings are nil or
  whose listener count or MTU is 0: \<open>MergedConfig\<close> establishes this for any user
  configuration and \<open>SetConfig\<close> keeps it, also when the merge fails after it has replaced some
  of the attributes.
\<close>

theorem configuration_stays_usable:
  assumes "merge_laws merge" "partly_merged cfg new partial"
  shows "(\<forall>c. MergedConfig merge T conf = Ok c \<longrightarrow> config_ok c) \<and>
    (config_ok cfg \<longrightarrow> config_ok (snd (SetConfig merge partial cfg new)))"
proof -
  have "config_ok (snd (SetConfig merge partial cfg new))" if "config_ok cfg"
    using that merge_config_ok [OF assms(1) that, of new] partly_merged_ok [OF assms(2) that]
    by (auto simp: SetConfig_def config_ok_def Let_def split: outcome.split option.split)
  then show ?thesis using MergedConfig_ok [OF assms(1)] by blast
qed

text \<open>A merger with these laws, for examples: field by field.\<close>

definition demoMerge :: merger where
  "demoMerge d s = Ok (d\<lparr>
     NumTunaListeners := pick 0 (NumTunaListeners d) (NumTunaListeners s),
     TunaDialTimeout := pick 0 (TunaDialTimeout d) (TunaDialTimeout s),
     TunaMaxPrice := pick [] (TunaMaxPrice d) (TunaMaxPrice s),
     TunaIPFilter := pick None (TunaIPFilter d) (TunaIPFilter s),
     TunaNknFilter := pick None (TunaNknFilter d) (TunaNknFilter s),
     SessionConfig := pickSession (SessionConfig d) (SessionConfig s),
     ReconnectRetries := pick 0 (ReconnectRetries d) (ReconnectRetries s),
     ReconnectInterval := pick 0 (ReconnectInterval d) (ReconnectInterval s),
     UDPRecvBufferSize := pick 0 (UDPRecvBufferSize d) (UDPRecvBufferSize s),
     MaxUdpDatagramBuffered := pick 0 (MaxUdpDatagramBuffered d) (MaxUdpDatagramBuffered s)\<rparr>)"

lemma demoMerge_laws: "merge_laws demoMerge"
  by (auto simp: merge_laws_def demoMerge_def pick_def split: if_splits)

definition demoNames :: tuna_names where
  "demoNames = \<lparr>DefaultReverseServiceName = ''reverse'', DefaultSubscriptionPrefix = ''tuna''\<rparr>"

text \<open>A change of the listener count, by a merge that succeeds and by one that fails after that field.\<close>

theorem configuration_stays_usable_witness:
  "config_ok (snd (SetConfig demoMerge (DefaultConfig demoNames) (DefaultConfig demoNames)
     ((defaultConfig demoNames)\<lparr>NumTunaListeners := 2\<rparr>))) \<and>
   config_ok (snd (SetConfig (\<lambda>_ _. Err (ErrExt 1)) ((DefaultConfig demoNames)\<lparr>NumTunaListeners := 2\<rparr>)
     (DefaultConfig demoNames) ((defaultConfig demoNames)\<lparr>NumTunaListeners := 2\<rparr>)))"
proof -
  let ?d = "DefaultConfig demoNames" and ?s = "(defaultConfig demoNames)\<lparr>NumTunaListeners := 2\<rparr>"
  have p: "partly_merged ?d ?s ?d" "partly_merged ?d ?s (?d\<lparr>NumTunaListeners := 2\<rparr>)"
    by (simp_all add: partly_merged_def DefaultConfig_def pick_def)
  have "merge_laws (\<lambda>_ _. Err (ErrExt 1))" by (simp add: merge_laws_def)
  then show ?thesis
    using configuration_stays_usable [OF demoMerge_laws p(1)] configuration_stays_usable [OF _ p(2)] DefaultConfig_ok
    by blast
qed

end
