(* ===== verification/Client_State.thy ===== *)
theory Client_State
  imports Secure Session_Pb Config
begin

text \<open>
  The state of a \<open>TunaSessionClient\<close> (\<open>client.go\<close>) that its session and connection handling
  works on, with the objects behind its pointers: connections live in a heap indexed by
  numbers, and what belongs to other packages (the ncp sessions, the expiring cache of
  closed session keys) is a value of an arbitrary type \<open>'w\<close> operated on through \<open>'w ext\<close>.
\<close>

text \<open>
  \<open>ncp.Session\<close> objects are numbers. \<open>cacheAdd\<close>/\<open>cacheGet\<close> are \<open>Add\<close> with the default
  expiration and \<open>Get\<close> of the go-cache library at the current instant.
\<close>

record 'w ext =
  cacheAdd :: "'w \<Rightarrow> string \<Rightarrow> 'w"
  cacheGet :: "'w \<Rightarrow> string \<Rightarrow> bool"
  sessIsClosed :: "'w \<Rightarrow> nat \<Rightarrow> bool"
  sessClose :: "'w \<Rightarrow> nat \<Rightarrow> 'w"
  sessRemoteAddr :: "'w \<Rightarrow> nat \<Rightarrow> string"
  sessReceiveWith :: "'w \<Rightarrow> nat \<Rightarrow> string \<Rightarrow> bytes \<Rightarrow> unit outcome \<times> 'w"
  sessAccept :: "'w \<Rightarrow> nat \<Rightarrow> unit outcome \<times> 'w"
  sessDial :: "'w \<Rightarrow> nat \<Rightarrow> unit outcome \<times> 'w"
  ncpNewSession :: "'w \<Rightarrow> string \<Rightarrow> string list \<Rightarrow> nat outcome \<times> 'w"

definition ext_laws :: "'w ext \<Rightarrow> bool" where
  "ext_laws E \<longleftrightarrow>
     (\<forall>w k k'. cacheGet E (cacheAdd E w k) k' = (k' = k \<or> cacheGet E w k')) \<and>
     (\<forall>w k s. sessIsClosed E (cacheAdd E w k) s = sessIsClosed E w s) \<and>
     (\<forall>w s. sessIsClosed E (sessClose E w s) s) \<and>
     (\<forall>w s s'. sessIsClosed E w s' \<longrightarrow> sessIsClosed E (sessClose E w s) s') \<and>
     (\<forall>w s k. cacheGet E (sessClose E w s) k = cacheGet E w k) \<and>
     (\<forall>w r ids. no_panic (fst (ncpNewSession E w r ids)))"

lemma ext_lawsD:
  assumes "ext_laws E"
  shows "cacheGet E (cacheAdd E w k) k' = (k' = k \<or> cacheGet E w k')"
    and "sessIsClosed E (cacheAdd E w k) s = sessIsClosed E w s"
    and "sessIsClosed E (sessClose E w s) s"
    and "sessIsClosed E w s' \<Longrightarrow> sessIsClosed E (sessClose E w s) s'"
    and "cacheGet E (sessClose E w s) k = cacheGet E w k"
    and "no_panic (fst (ncpNewSession E w r ids))"
  using assms unfolding ext_laws_def by blast+

text \<open>
  The fields of the struct; \<open>onConnect\<close> and \<open>onClose\<close> are channels of which only "closed"
  matters, \<open>acceptSession\<close> is a buffered channel. \<open>addr\<close> is the client's own NKN address.
\<close>

record 'w client = keyring +
  config :: Config
  addr :: string
  acceptAddrs :: "string list"
  sessions :: "(string, nat) gomap"
  sessionConns :: "(string, (string, nat) gomap) gomap"
  connCount :: "(string, int) gomap"
  isClosed :: bool
  pubAddrs :: "(string, PubAddrs) gomap"
  addrConnCount :: "(string, (string, int) gomap) gomap"
  acceptSession :: "nat list"
  onConnectClosed :: bool
  onCloseClosed :: bool
  conns :: "(nat, Conn) gomap"
  nextConn :: nat
  world :: 'w

definition acceptSessionBufSize :: nat where "acceptSessionBufSize = 1024"

definition NewTunaSessionClient ::
  "merger \<Rightarrow> tuna_names \<Rightarrow> bytes \<Rightarrow> string \<Rightarrow> 'w \<Rightarrow> Config option \<Rightarrow> 'w client outcome" where
  "NewTunaSessionClient merge T clientAccount mAddr w conf =
     obind (MergedConfig merge T conf) (\<lambda>cfg. Ok
       \<lparr>privKey = clientAccount, sharedKeys = [], config = cfg, addr = mAddr, acceptAddrs = [],
        sessions = [], sessionConns = [], connCount = [], isClosed = False, pubAddrs = [],
        addrConnCount = [], acceptSession = [], onConnectClosed = False, onCloseClosed = False,
        conns = [], nextConn = 0, world = w\<rparr>)"

section \<open>The heap of connections\<close>

definition closeConn :: "('w, 'a) client_scheme \<Rightarrow> nat \<Rightarrow> ('w, 'a) client_scheme" where
  "closeConn c p =
     (case mget (conns c) p of
        None \<Rightarrow> c
      | Some k \<Rightarrow> c\<lparr>conns := mput (conns c) p (connClose k)\<rparr>)"

fun closeConns :: "('w, 'a) client_scheme \<Rightarrow> nat list \<Rightarrow> ('w, 'a) client_scheme" where
  "closeConns c [] = c"
| "closeConns c (p # ps) = closeConns (closeConn c p) ps"

definition allocConn :: "('w, 'a) client_scheme \<Rightarrow> Conn \<Rightarrow> nat \<times> ('w, 'a) client_scheme" where
  "allocConn c k = (nextConn c, c\<lparr>conns := mput (conns c) (nextConn c) k, nextConn := nextConn c + 1\<rparr>)"

definition connIsClosed :: "('w, 'a) client_scheme \<Rightarrow> nat \<Rightarrow> bool" where
  "connIsClosed c p = (case mget (conns c) p of None \<Rightarrow> True | Some k \<Rightarrow> connClosed k)"

text \<open>\<open>readMessage\<close> and \<open>writeMessage\<close> through a pointer; a connection not in the heap is gone.\<close>

definition readConn :: "('w, 'a) client_scheme \<Rightarrow> nat \<Rightarrow> 32 word \<Rightarrow> bytes outcome \<times> ('w, 'a) client_scheme" where
  "readConn c p mx =
     (case mget (conns c) p of
        None \<Rightarrow> (Err ErrNetClosed, c)
      | Some k \<Rightarrow> (case readMessage k mx of (r, k') \<Rightarrow> (r, c\<lparr>conns := mput (conns c) p k'\<rparr>)))"

definition writeConn ::
  "('w, 'a) client_scheme \<Rightarrow> nat \<Rightarrow> bytes \<Rightarrow> int \<Rightarrow> int \<Rightarrow> unit outcome \<times> ('w, 'a) client_scheme" where
  "writeConn c p buf t now =
     (case mget (conns c) p of
        None \<Rightarrow> (Err ErrNetClosed, c)
      | Some k \<Rightarrow> (case writeMessage k buf t now of (r, k') \<Rightarrow> (r, c\<lparr>conns := mput (conns c) p k'\<rparr>)))"

lemma closeConn_frame: "\<exists>cs. closeConn c p = c\<lparr>conns := cs\<rparr>"
proof (cases "mget (conns c) p")
  case None
  have "c = c\<lparr>conns := conns c\<rparr>" by simp
  with None show ?thesis unfolding closeConn_def by (metis option.simps(4))
qed (auto simp: closeConn_def)

lemma closeConns_frame: "\<exists>cs. closeConns c ps = c\<lparr>conns := cs\<rparr>"
proof (induction ps arbitrary: c)
  case Nil
  have "c = c\<lparr>conns := conns c\<rparr>" by simp
  then show ?case by (metis closeConns.simps(1))
next
  case (Cons p ps)
  obtain cs where cs: "closeConn c p = c\<lparr>conns := cs\<rparr>" using closeConn_frame by blast
  show ?case using Cons.IH [of "c\<lparr>conns := cs\<rparr>"] by (simp add: cs)
qed

text \<open>Closing connections changes nothing but the heap of connections.\<close>

lemma closeConn_simps [simp]:
  "sessions (closeConn c p) = sessions c"
  "sessionConns (closeConn c p) = sessionConns c"
  "connCount (closeConn c p) = connCount c"
  "addrConnCount (closeConn c p) = addrConnCount c"
  "pubAddrs (closeConn c p) = pubAddrs c"
  "isClosed (closeConn c p) = isClosed c"
  "onCloseClosed (closeConn c p) = onCloseClosed c"
  "config (closeConn c p) = config c"
  "acceptSession (closeConn c p) = acceptSession c"
  "addr (closeConn c p) = addr c"
  "sharedKeys (closeConn c p) = sharedKeys c"
  "privKey (closeConn c p) = privKey c"
  "world (closeConn c p) = world c"
  using closeConn_frame [of c p] by auto

lemma closeConns_simps [simp]:
  "sessions (closeConns c ps) = sessions c"
  "sessionConns (closeConns c ps) = sessionConns c"
  "connCount (closeConns c ps) = connCount c"
  "addrConnCount (closeConns c ps) = addrConnCount c"
  "pubAddrs (closeConns c ps) = pubAddrs c"
  "isClosed (closeConns c ps) = isClosed c"
  "onCloseClosed (closeConns c ps) = onCloseClosed c"
  "config (closeConns c ps) = config c"
  "acceptSession (closeConns c ps) = acceptSession c"
  "addr (closeConns c ps) = addr c"
  "sharedKeys (closeConns c ps) = sharedKeys c"
  "privKey (closeConns c ps) = privKey c"
  "world (closeConns c ps) = world c"
  using closeConns_frame [of c ps] by auto

lemma connIsClosed_closeConn [simp]:
  "connIsClosed (closeConn c p) q \<longleftrightarrow> q = p \<or> connIsClosed c q"
  by (auto simp: connIsClosed_def closeConn_def connClose_def split: option.splits)

lemma connIsClosed_closeConns [simp]:
  "connIsClosed (closeConns c ps) q \<longleftrightarrow> q \<in> set ps \<or> connIsClosed c q"
  by (induction ps arbitrary: c) auto

section \<open>A concrete world\<close>

text \<open>A world with the laws, for evaluating examples: the closed keys and closed sessions.\<close>

record demo_world =
  dwCache :: "string list"
  dwClosed :: "nat list"
  dwRemote :: "string list"

definition demoExt :: "demo_world ext" where
  "demoExt =
     \<lparr>cacheAdd = (\<lambda>w k. w\<lparr>dwCache := k # dwCache w\<rparr>),
      cacheGet = (\<lambda>w k. k \<in> set (dwCache w)),
      sessIsClosed = (\<lambda>w s. s \<in> set (dwClosed w)),
      sessClose = (\<lambda>w s. w\<lparr>dwClosed := s # dwClosed w\<rparr>),
      sessRemoteAddr = (\<lambda>w s. if s < length (dwRemote w) then dwRemote w ! s else []),
      sessReceiveWith = (\<lambda>w s cid b. (Ok (), w)),
      sessAccept = (\<lambda>w s. (Ok (), w)),
      sessDial = (\<lambda>w s. (Ok (), w)),
      ncpNewSession = (\<lambda>w r cids. (Ok (length (dwRemote w)), w\<lparr>dwRemote := dwRemote w @ [r]\<rparr>))\<rparr>"

lemma demoExt_laws: "ext_laws demoExt"
  by (auto simp: ext_laws_def demoExt_def)

definition demoClient :: "string \<Rightarrow> demo_world client" where
  "demoClient a =
     \<lparr>privKey = demoPub a, sharedKeys = [], config = DefaultConfig demoNames, addr = a,
      acceptAddrs = ['''' ], sessions = [], sessionConns = [], connCount = [], isClosed = False,
      pubAddrs = [], addrConnCount = [], acceptSession = [], onConnectClosed = False,
      onCloseClosed = False, conns = [], nextConn = 0,
      world = \<lparr>dwCache = [], dwClosed = [], dwRemote = []\<rparr>\<rparr>"

end
