(* ===== verification/Registry.thy ===== *)
theory Registry
  imports Client_State
begin

text \<open>
  The bookkeeping of sessions and connections in \<open>client.go\<close>: \<open>handleConn\<close> (its locked
  entry section, its read loop and its deferred exit section), \<open>removeClosedSessions\<close>,
  \<open>IsSessClosed\<close>, \<open>getCachedPubAddrs\<close>, \<open>CloseOneConn\<close>, and the reference counts
  \<open>connCount\<close> and \<open>addrConnCount\<close> behind them.
\<close>

section \<open>Reference counts\<close>

text \<open>\<open>addrConnCount\<close>: per remote NKN address, per TCP address, the number of handlers.\<close>

type_synonym addr_counts = "(string, (string, int) gomap) gomap"

definition addrCnt :: "addr_counts \<Rightarrow> string \<times> string \<Rightarrow> int" where
  "addrCnt m k = (case mget m (fst k) of None \<Rightarrow> 0 | Some tc \<Rightarrow> mget0 tc (snd k))"

definition addrConnIncr :: "addr_counts \<Rightarrow> string \<Rightarrow> string \<Rightarrow> addr_counts" where
  "addrConnIncr m remoteAddr connStr =
     (case mget m remoteAddr of
        Some tcpCount \<Rightarrow> mput m remoteAddr (mincr tcpCount connStr)
      | None \<Rightarrow> mput m remoteAddr (mincr [] connStr))"

text \<open>
  The decrement: writing through a missing inner map is Go's assignment to a nil map. The
  flag says whether the count dropped to 0, which evicts the cached public addresses.
\<close>

definition addrConnDecr :: "addr_counts \<Rightarrow> string \<Rightarrow> string \<Rightarrow> (addr_counts \<times> bool) outcome" where
  "addrConnDecr m remoteAddr connStr =
     (case mget m remoteAddr of
        None \<Rightarrow> Panic NilMapWrite
      | Some tcpCount \<Rightarrow>
          (let tc1 = mdecr tcpCount connStr
           in if mget0 tc1 connStr \<le> 0
              then let tc2 = mdel tc1 connStr; m1 = mput m remoteAddr tc2
                   in Ok (if tc2 = [] then mdel m1 remoteAddr else m1, True)
              else Ok (mput m remoteAddr tc1, False)))"

definition addr_wf :: "addr_counts \<Rightarrow> bool" where
  "addr_wf m \<longleftrightarrow>
     (\<forall>r tc. mget m r = Some tc \<longrightarrow> tc \<noteq> [] \<and> (\<forall>s v. mget tc s = Some v \<longrightarrow> 0 < v))"

definition addrInc :: "addr_counts \<Rightarrow> string \<times> string \<Rightarrow> addr_counts" where
  "addrInc m k = addrConnIncr m (fst k) (snd k)"

definition addrDec :: "addr_counts \<Rightarrow> string \<times> string \<Rightarrow> addr_counts" where
  "addrDec m k = (case addrConnDecr m (fst k) (snd k) of Ok (m', _) \<Rightarrow> m' | _ \<Rightarrow> m)"

lemma mincr_nonempty [simp]: "mincr tc s \<noteq> []"
  using mget_mincr [of tc s s] by (auto simp: mget_def)

lemma mdecr_nonempty [simp]: "mdecr tc s \<noteq> []"
  using mget_mdecr [of tc s s] by (auto simp: mget_def)

lemma addr_wf_pos: "addr_wf m \<Longrightarrow> mget m r = Some tc \<Longrightarrow> mget0 tc s \<noteq> 0 \<Longrightarrow> 0 < mget0 tc s"
  by (auto simp: addr_wf_def mget0_def split: option.splits)

lemma addrConnDecr_ok: "0 < addrCnt m (r, s) \<Longrightarrow> \<exists>m' ev. addrConnDecr m r s = Ok (m', ev)"
  by (auto simp: addrCnt_def addrConnDecr_def Let_def split: option.splits)

interpretation ac: refcounter addrCnt addrInc addrDec addr_wf
proof
  fix m :: addr_counts and k k' :: "string \<times> string"
  assume wf: "addr_wf m"
  show "addrCnt (addrInc m k) k' = addrCnt m k' + (if k' = k then 1 else 0)"
    by (cases k; cases k') (auto simp: addrCnt_def addrInc_def addrConnIncr_def split: option.splits)
  show "addr_wf (addrInc m k)"
    using wf
    by (auto simp: addr_wf_def addrInc_def addrConnIncr_def mget0_def split: option.splits if_splits)
       (meson less_imp_le)+
  assume pos: "0 < addrCnt m k"
  obtain r s where k: "k = (r, s)" by (cases k)
  with pos obtain tc where tc: "mget m r = Some tc" "0 < mget0 tc s"
    by (auto simp: addrCnt_def split: option.splits)
  show "addrCnt (addrDec m k) k' = addrCnt m k' - (if k' = k then 1 else 0)"
    using tc k empty_iff_no_key [of "mdel (mdecr tc s) s"]
    by (cases k') (auto simp: addrCnt_def addrDec_def addrConnDecr_def Let_def mget0_def split: option.splits if_splits)
  show "addr_wf (addrDec m k)"
    using wf tc k
    by (auto simp: addr_wf_def addrDec_def addrConnDecr_def Let_def split: if_splits)
qed

text \<open>\<open>connCount\<close>: per session key, with the entry removed when it reaches 0.\<close>

definition connDec :: "(string, int) gomap \<Rightarrow> string \<Rightarrow> (string, int) gomap" where
  "connDec m k = (let m1 = mdecr m k in if mget0 m1 k = 0 then mdel m1 k else m1)"

interpretation cc: refcounter mget0 mincr connDec "\<lambda>_. True"
  by unfold_locales (auto simp: connDec_def Let_def)

section \<open>Handling a connection\<close>

text \<open>
  A running \<open>handleConn\<close>: its arguments and the local variables its deferred function uses.
\<close>

record handler =
  hRemote :: string
  hSid :: bytes
  hIdx :: int
  hConn :: nat
  hConnStr :: string
  hSess :: nat

definition hKey :: "handler \<Rightarrow> string" where
  "hKey h = sessionKey (hRemote h) (hSid h)"

definition hAddr :: "handler \<Rightarrow> string \<times> string" where
  "hAddr h = (hRemote h, hConnStr h)"

text \<open>Entry: \<open>None\<close> when the connection or the session is nil and the function returns at once.\<close>

definition handleConn_enter ::
  "('w, 'a) client_scheme \<Rightarrow> nat option \<Rightarrow> string \<Rightarrow> bytes \<Rightarrow> int \<Rightarrow> (handler \<times> ('w, 'a) client_scheme) option" where
  "handleConn_enter c conn remoteAddr sessionID i =
     (case conn of
        None \<Rightarrow> None
      | Some p \<Rightarrow>
          (let sessKey = sessionKey remoteAddr sessionID
           in case mget (sessions c) sessKey of
                None \<Rightarrow> None
              | Some sess \<Rightarrow>
                  (let connStr = (case mget (conns c) p of None \<Rightarrow> [] | Some k \<Rightarrow> remoteStr k)
                   in Some (\<lparr>hRemote = remoteAddr, hSid = sessionID, hIdx = i, hConn = p,
                             hConnStr = connStr, hSess = sess\<rparr>,
                            c\<lparr>connCount := mincr (connCount c) sessKey,
                              addrConnCount := addrConnIncr (addrConnCount c) remoteAddr connStr\<rparr>))))"

text \<open>
  The deferred function: the locked section (decrements, eviction of the cached addresses,
  removal of a session whose count is 0), then closing the session outside the lock.
\<close>

definition dropSession :: "'w ext \<Rightarrow> ('w, 'a) client_scheme \<Rightarrow> string \<Rightarrow> ('w, 'a) client_scheme" where
  "dropSession E c sessKey =
     c\<lparr>sessions := mdel (sessions c) sessKey, sessionConns := mdel (sessionConns c) sessKey,
       connCount := mdel (connCount c) sessKey, world := cacheAdd E (world c) sessKey\<rparr>"

definition deleteConn :: "(string, (string, nat) gomap) gomap \<Rightarrow> string \<Rightarrow> string \<Rightarrow>
    (string, (string, nat) gomap) gomap" where
  "deleteConn scs sessKey cid =
     (case mget scs sessKey of None \<Rightarrow> scs | Some m \<Rightarrow> mput scs sessKey (mdel m cid))"

definition handleConn_exit :: "'w ext \<Rightarrow> ('w, 'a) client_scheme \<Rightarrow> handler \<Rightarrow> ('w, 'a) client_scheme outcome" where
  "handleConn_exit E c h =
     (let sessKey = hKey h;
          c1 = c\<lparr>connCount := mdecr (connCount c) sessKey,
                 sessionConns := deleteConn (sessionConns c) sessKey (connID (hIdx h))\<rparr>
      in case addrConnDecr (addrConnCount c1) (hRemote h) (hConnStr h) of
           Panic p \<Rightarrow> Panic p
         | Err e \<Rightarrow> Err e
         | Ok (counts, gone) \<Rightarrow>
             (let c2 = c1\<lparr>addrConnCount := counts,
                          pubAddrs := (if gone then mdel (pubAddrs c1) (hRemote h) else pubAddrs c1)\<rparr>;
                  shouldClose = (mget0 (connCount c2) sessKey = 0);
                  c3 = (if shouldClose then dropSession E c2 sessKey else c2)
              in Ok (if shouldClose then c3\<lparr>world := sessClose E (world c3) (hSess h)\<rparr> else c3)))"

text \<open>One message: read, decode with the session's remote address, hand to the session.\<close>

definition handleMsg ::
  "'w ext \<Rightarrow> crypto \<Rightarrow> ('w, 'a) client_scheme \<Rightarrow> nat \<Rightarrow> nat \<Rightarrow> int \<Rightarrow> unit outcome \<times> ('w, 'a) client_scheme" where
  "handleMsg E C c conn sess i =
     (case SessionConfig (config c) of
        None \<Rightarrow> (Panic NilDereference, c)
      | Some sc \<Rightarrow>
        (case readConn c conn (MTU sc + word_of_int maxSessionMsgOverhead) of
           (Err e, c1) \<Rightarrow> (Err e, c1)
         | (Panic p, c1) \<Rightarrow> (Panic p, c1)
         | (Ok buf, c1) \<Rightarrow>
             (case decode C c1 buf (sessRemoteAddr E (world c1) sess) of
                (Err e, c2) \<Rightarrow> (Err e, c2)
              | (Panic p, c2) \<Rightarrow> (Panic p, c2)
              | (Ok msg, c2) \<Rightarrow>
                  (case sessReceiveWith E (world c2) sess (connID i) msg of
                     (r, w) \<Rightarrow> (r, c2\<lparr>world := w\<rparr>)))))"

text \<open>
  The loop of \<open>handleConn\<close> reads until \<open>handleMsg\<close> fails; every failure returns. Each message
  takes at least its four length bytes from the connection, so the loop ends when the
  connection has no more input.
\<close>

definition pendingIn :: "('w, 'a) client_scheme \<Rightarrow> nat \<Rightarrow> nat" where
  "pendingIn c p = (case mget (conns c) p of None \<Rightarrow> 0 | Some k \<Rightarrow> length (inBytes k))"

lemma decode_frame: "\<exists>ks. snd (decode C c buf r) = c\<lparr>sharedKeys := ks\<rparr>"
proof -
  have id: "\<exists>ks. c = c\<lparr>sharedKeys := ks\<rparr>" by (metis keyring.surjective keyring.update_convs(2))
  show ?thesis
    using id getOrComputeSharedKey_frame [of C c]
    by (auto simp: decode_def split: outcome.split prod.split) (metis snd_conv)+
qed

lemma pendingIn_keys [simp]:
  "pendingIn (c\<lparr>sharedKeys := ks\<rparr>) p = pendingIn c p" "pendingIn (c\<lparr>world := w\<rparr>) p = pendingIn c p"
  by (simp_all add: pendingIn_def)

lemma readConn_consumes:
  "readConn c p mx = (Ok b, c') \<Longrightarrow> pendingIn c' p < pendingIn c p"
  by (auto simp: readConn_def pendingIn_def split: option.splits prod.splits dest!: readMessage_consumes)

lemma decode_pendingIn: "decode C c buf r = (x, c') \<Longrightarrow> pendingIn c' p = pendingIn c p"
  using decode_frame [of C c buf r] by auto

lemma handleMsg_consumes:
  assumes "handleMsg E C c conn sess i = (Ok u, c')"
  shows "pendingIn c' conn < pendingIn c conn"
  using assms
  by (auto simp: handleMsg_def split: option.splits prod.splits outcome.splits
      dest!: readConn_consumes decode_pendingIn [where p = conn])

function handleConn_loop ::
  "'w ext \<Rightarrow> crypto \<Rightarrow> ('w, 'a) client_scheme \<Rightarrow> nat \<Rightarrow> nat \<Rightarrow> int \<Rightarrow> go_error outcome \<times> ('w, 'a) client_scheme" where
  "handleConn_loop E C c conn sess i =
     (case handleMsg E C c conn sess i of
        (Ok u, c') \<Rightarrow> handleConn_loop E C c' conn sess i
      | (Err e, c') \<Rightarrow> (Ok e, c')
      | (Panic p, c') \<Rightarrow> (Panic p, c'))"
  by pat_completeness auto
termination
  by (relation "measure (\<lambda>(E, C, c, conn, sess, i). pendingIn c conn)")
     (auto intro: handleMsg_consumes [OF sym])

declare handleConn_loop.simps [simp del]

text \<open>The whole of \<open>handleConn\<close>, when no other goroutine runs in between.\<close>

definition handleConn ::
  "'w ext \<Rightarrow> crypto \<Rightarrow> ('w, 'a) client_scheme \<Rightarrow> nat option \<Rightarrow> string \<Rightarrow> bytes \<Rightarrow> int \<Rightarrow>
   ('w, 'a) client_scheme outcome" where
  "handleConn E C c conn remoteAddr sessionID i =
     (case handleConn_enter c conn remoteAddr sessionID i of
        None \<Rightarrow> Ok c
      | Some (h, c1) \<Rightarrow>
          (case handleConn_loop E C c1 (hConn h) (hSess h) i of
             (Ok e, c2) \<Rightarrow> handleConn_exit E c2 h
           | (Err e, c2) \<Rightarrow> Err e
           | (Panic p, c2) \<Rightarrow> Panic p))"

section \<open>Closed sessions\<close>

text \<open>
  One pass of \<open>removeClosedSessions\<close> under the lock: every registered session that is closed
  has its connections closed and is dropped.
\<close>

definition connsOf :: "('w, 'a) client_scheme \<Rightarrow> string \<Rightarrow> nat list" where
  "connsOf c sessKey = (case mget (sessionConns c) sessKey of None \<Rightarrow> [] | Some m \<Rightarrow> map snd m)"

fun sweepSessions :: "'w ext \<Rightarrow> (string \<times> nat) list \<Rightarrow> ('w, 'a) client_scheme \<Rightarrow> ('w, 'a) client_scheme" where
  "sweepSessions E [] c = c"
| "sweepSessions E ((sessKey, sess) # rest) c =
     (if sessIsClosed E (world c) sess
      then sweepSessions E rest (dropSession E (closeConns c (connsOf c sessKey)) sessKey)
      else sweepSessions E rest c)"

text \<open>\<open>None\<close>: the goroutine has returned because the client is closed.\<close>

definition removeClosedSessions :: "'w ext \<Rightarrow> ('w, 'a) client_scheme \<Rightarrow> ('w, 'a) client_scheme option" where
  "removeClosedSessions E c = (if isClosed c then None else Some (sweepSessions E (sessions c) c))"

definition IsSessClosed :: "'w ext \<Rightarrow> ('w, 'a) client_scheme \<Rightarrow> string \<Rightarrow> bool" where
  "IsSessClosed E c sessKey =
     (case mget (sessions c) sessKey of
        Some sess \<Rightarrow> sessIsClosed E (world c) sess
      | None \<Rightarrow> cacheGet E (world c) sessKey)"

text \<open>
  \<open>CloseOneConn\<close>: the first session entry that is the given session (Go's range order is
  open; a session has one entry). A missing connection is a nil pointer.
\<close>

fun CloseOneConn :: "(string \<times> nat) list \<Rightarrow> ('w, 'a) client_scheme \<Rightarrow> nat \<Rightarrow> string \<Rightarrow> ('w, 'a) client_scheme outcome" where
  "CloseOneConn [] c sess cid = Ok c"
| "CloseOneConn ((key, s) # rest) c sess cid =
     (if s = sess
      then (case Option.bind (mget (sessionConns c) key) (\<lambda>m. mget m cid) of
              None \<Rightarrow> Panic NilDereference
            | Some p \<Rightarrow> Ok (closeConn c p))
      else CloseOneConn rest c sess cid)"

section \<open>Cached public addresses\<close>

fun cachedLive :: "('w, 'a) client_scheme \<Rightarrow> string \<Rightarrow> PubAddr option list \<Rightarrow> bool" where
  "cachedLive c remoteAddr [] = True"
| "cachedLive c remoteAddr (None # as) = False"
| "cachedLive c remoteAddr (Some a # as) =
     (case mget (addrConnCount c) remoteAddr of
        Some tcpCount \<Rightarrow>
          (if mget0 tcpCount (PubAddr_String a) \<le> 0 then False else cachedLive c remoteAddr as)
      | None \<Rightarrow> False)"

definition getCachedPubAddrs :: "('w, 'a) client_scheme \<Rightarrow> string \<Rightarrow> PubAddrs option" where
  "getCachedPubAddrs c remoteAddr =
     (case mget (pubAddrs c) remoteAddr of
        None \<Rightarrow> None
      | Some cachedAddr \<Rightarrow> (if cachedLive c remoteAddr (Addrs cachedAddr) then Some cachedAddr else None))"

lemma cachedLive_iff:
  "cachedLive c r as \<longleftrightarrow> (\<forall>a\<in>set as. \<exists>pa. a = Some pa \<and> 0 < addrCnt (addrConnCount c) (r, PubAddr_String pa))"
  by (induction c r as rule: cachedLive.induct) (auto simp: addrCnt_def split: option.splits if_splits)

end
