(* ===== verification/Listener.thy ===== *)
theory Listener
  imports Registry
begin

text \<open>
  The listening side of \<open>client.go\<close>: \<open>shouldAcceptAddr\<close>, the goroutine of \<open>listenNet\<close> that
  takes an accepted connection through the handshake into a session, \<open>AcceptSession\<close>, and
  the reply that \<open>listenNKN\<close> computes for a request of public addresses.
\<close>

text \<open>Matching a compiled regular expression is a parameter: pattern, then subject.\<close>

type_synonym matcher = "string \<Rightarrow> string \<Rightarrow> bool"

fun shouldAcceptLoop :: "matcher \<Rightarrow> string list \<Rightarrow> string \<Rightarrow> bool" where
  "shouldAcceptLoop M [] a = False"
| "shouldAcceptLoop M (allowAddr # rest) a = (if M allowAddr a then True else shouldAcceptLoop M rest a)"

definition shouldAcceptAddr :: "matcher \<Rightarrow> ('w, 'a) client_scheme \<Rightarrow> string \<Rightarrow> bool" where
  "shouldAcceptAddr M c a = shouldAcceptLoop M (acceptAddrs c) a"

lemma shouldAcceptAddr_iff: "shouldAcceptAddr M c a \<longleftrightarrow> (\<exists>p\<in>set (acceptAddrs c). M p a)"
proof -
  have "shouldAcceptLoop M ps a \<longleftrightarrow> (\<exists>p\<in>set ps. M p a)" for ps by (induction ps) auto
  then show ?thesis by (simp add: shouldAcceptAddr_def)
qed

text \<open>
  \<open>getAcceptAddrs\<close>: compile the patterns, or the default when none are given; \<open>compile\<close>
  stands for \<open>regexp.Compile\<close> (\<open>None\<close>: it succeeds).
\<close>

fun compileAll :: "(string \<Rightarrow> go_error option) \<Rightarrow> string list \<Rightarrow> string list outcome" where
  "compileAll compile [] = Ok []"
| "compileAll compile (a # as) =
     (case compile a of
        Some e \<Rightarrow> Err e
      | None \<Rightarrow> obind (compileAll compile as) (\<lambda>rs. Ok (a # rs)))"

definition getAcceptAddrs ::
  "(string \<Rightarrow> go_error option) \<Rightarrow> string \<Rightarrow> string list option \<Rightarrow> string list outcome" where
  "getAcceptAddrs compile DefaultSessionAllowAddr addrsRe =
     (let addrs = (case addrsRe of None \<Rightarrow> [DefaultSessionAllowAddr] | Some xs \<Rightarrow> xs)
      in compileAll compile addrs)"

section \<open>The handshake of an accepted connection\<close>

text \<open>
  The address in the clear, then the encrypted metadata. Every failure closes the
  connection; an address that is not accepted is reported here as \<open>ErrRemoteAddrRejected\<close>.
\<close>

definition listenNet_handshake ::
  "crypto \<Rightarrow> proto \<Rightarrow> matcher \<Rightarrow> ('w, 'a) client_scheme \<Rightarrow> nat \<Rightarrow>
   (string \<times> SessionMetadata) outcome \<times> ('w, 'a) client_scheme" where
  "listenNet_handshake C P M c conn =
     (case readConn c conn maxAddrSize of
        (Err e, c1) \<Rightarrow> (Err e, closeConn c1 conn)
      | (Panic p, c1) \<Rightarrow> (Panic p, c1)
      | (Ok buf, c1) \<Rightarrow>
        (let remoteAddr = string_of_bytes buf in
         if \<not> shouldAcceptAddr M c1 remoteAddr then (Err ErrRemoteAddrRejected, closeConn c1 conn)
         else (case readConn c1 conn maxSessionMetadataSize of
                 (Err e, c2) \<Rightarrow> (Err e, closeConn c2 conn)
               | (Panic p, c2) \<Rightarrow> (Panic p, c2)
               | (Ok buf2, c2) \<Rightarrow>
                 (case decode C c2 buf2 remoteAddr of
                    (Err e, c3) \<Rightarrow> (Err e, closeConn c3 conn)
                  | (Panic p, c3) \<Rightarrow> (Panic p, c3)
                  | (Ok metadataRaw, c3) \<Rightarrow>
                    (case UnmarshalMeta P metadataRaw of
                       Err e \<Rightarrow> (Err e, closeConn c3 conn)
                     | Panic p \<Rightarrow> (Panic p, c3)
                     | Ok metadata \<Rightarrow> (Ok (remoteAddr, metadata), c3))))))"

text \<open>
  \<open>newSession\<close> hands the address and connection ids to \<open>ncp.NewSession\<close>; the callback it
  installs sends one packet of the session on one of its connections.
\<close>

definition newSession ::
  "'w ext \<Rightarrow> ('w, 'a) client_scheme \<Rightarrow> string \<Rightarrow> string list \<Rightarrow> nat outcome \<times> ('w, 'a) client_scheme" where
  "newSession E c remoteAddr connIDs =
     (case ncpNewSession E (world c) remoteAddr connIDs of (r, w) \<Rightarrow> (r, c\<lparr>world := w\<rparr>))"

definition sendWith ::
  "crypto \<Rightarrow> ('w, 'a) client_scheme \<Rightarrow> string \<Rightarrow> bytes \<Rightarrow> string \<Rightarrow> bytes \<Rightarrow> int \<Rightarrow> bytes outcome \<Rightarrow> int \<Rightarrow>
   unit outcome \<times> ('w, 'a) client_scheme" where
  "sendWith C c remoteAddr sessionID cid buf writeTimeout rnd now =
     (case Option.bind (mget (sessionConns c) (sessionKey remoteAddr sessionID)) (\<lambda>m. mget m cid) of
        None \<Rightarrow> (Err (ErrConnNil cid), c)
      | Some conn \<Rightarrow>
          (case encode C c buf remoteAddr rnd of
             (Err e, c1) \<Rightarrow> (Err e, c1)
           | (Panic p, c1) \<Rightarrow> (Panic p, c1)
           | (Ok b, c1) \<Rightarrow>
               (case writeConn c1 conn b writeTimeout now of
                  (Err e, c2) \<Rightarrow> (Err e, closeConn c2 conn)
                | (Panic p, c2) \<Rightarrow> (Panic p, c2)
                | (Ok u, c2) \<Rightarrow> (Ok (), c2))))"

text \<open>
  The locked section: find or create the session, register the connection. The result is
  the session and whether it is new, or \<open>None\<close> when the goroutine returns.
\<close>

definition listenNet_register ::
  "'w ext \<Rightarrow> ('w, 'a) client_scheme \<Rightarrow> nat \<Rightarrow> string \<Rightarrow> bytes \<Rightarrow> int \<Rightarrow>
   ((nat \<times> bool) option \<times> ('w, 'a) client_scheme) outcome" where
  "listenNet_register E c conn remoteAddr sessionID i =
     (let sessKey = sessionKey remoteAddr sessionID in
      case mget (sessions c) sessKey of
        Some sess \<Rightarrow>
          (case mget (sessionConns c) sessKey of
             None \<Rightarrow> Panic NilMapWrite
           | Some m \<Rightarrow>
               Ok (Some (sess, False),
                   c\<lparr>sessionConns := mput (sessionConns c) sessKey (mput m (connID i) conn)\<rparr>))
      | None \<Rightarrow>
          if cacheGet E (world c) sessKey then Ok (None, c)
          else if NumTunaListeners (config c) < 0
          then Panic (MakeSliceLen (NumTunaListeners (config c)))
          else (case newSession E c remoteAddr
                       (map (\<lambda>j. connID (int j)) [0..<nat (NumTunaListeners (config c))]) of
                  (Err e, c1) \<Rightarrow> Ok (None, c1)
                | (Panic p, c1) \<Rightarrow> Panic p
                | (Ok sess, c1) \<Rightarrow>
                    Ok (Some (sess, True),
                        c1\<lparr>sessions := mput (sessions c1) sessKey sess,
                           sessionConns := mput (sessionConns c1) sessKey [(connID i, conn)]\<rparr>)))"

text \<open>A non-blocking send on the accept channel: a full channel discards the session.\<close>

definition offerSession :: "('w, 'a) client_scheme \<Rightarrow> nat \<Rightarrow> ('w, 'a) client_scheme" where
  "offerSession c sess =
     (if length (acceptSession c) < acceptSessionBufSize
      then c\<lparr>acceptSession := acceptSession c @ [sess]\<rparr> else c)"

text \<open>The rest of the goroutine for a TCP session; \<open>conn.Close()\<close> is deferred.\<close>

definition listenNet_tcp ::
  "'w ext \<Rightarrow> crypto \<Rightarrow> ('w, 'a) client_scheme \<Rightarrow> nat \<Rightarrow> string \<Rightarrow> bytes \<Rightarrow> int \<Rightarrow>
   ('w, 'a) client_scheme outcome" where
  "listenNet_tcp E C c conn remoteAddr sessionID i =
     (case listenNet_register E c conn remoteAddr sessionID i of
        Panic p \<Rightarrow> Panic p
      | Err e \<Rightarrow> Err e
      | Ok (None, c1) \<Rightarrow> Ok (closeConn c1 conn)
      | Ok (Some (sess, fresh), c1) \<Rightarrow>
          (case (if fresh then handleMsg E C c1 conn sess i else (Ok (), c1)) of
             (Panic p, c2) \<Rightarrow> Panic p
           | (Err e, c2) \<Rightarrow> Ok (closeConn c2 conn)
           | (Ok u, c2) \<Rightarrow>
               obind (handleConn E C (if fresh then offerSession c2 sess else c2)
                        (Some conn) remoteAddr sessionID i)
                 (\<lambda>c3. Ok (closeConn c3 conn))))"

section \<open>Accepting sessions\<close>

text \<open>
  \<open>AcceptSession\<close>: take sessions off the channel until one accepts. When both the channel
  and \<open>onClose\<close> are ready, Go picks either; \<open>preferClose n\<close> is the choice of the \<open>select\<close> in the
  loop's iteration \<open>n\<close>. \<open>None\<close>: the call blocks.
\<close>

fun acceptLoop ::
  "'w ext \<Rightarrow> bool \<Rightarrow> (nat \<Rightarrow> bool) \<Rightarrow> nat list \<Rightarrow> 'w \<Rightarrow> (nat outcome \<times> nat list \<times> 'w) option" where
  "acceptLoop E closed preferClose [] w = (if closed then Some (Err ErrNknClosed, [], w) else None)"
| "acceptLoop E closed preferClose (s # q) w =
     (if closed \<and> preferClose 0 then Some (Err ErrNknClosed, s # q, w)
      else (case sessAccept E w s of
              (Ok u, w') \<Rightarrow> Some (Ok s, q, w')
            | (Err e, w') \<Rightarrow> acceptLoop E closed (\<lambda>n. preferClose (Suc n)) q w'
            | (Panic p, w') \<Rightarrow> Some (Panic p, q, w')))"

definition AcceptSession ::
  "'w ext \<Rightarrow> (nat \<Rightarrow> bool) \<Rightarrow> ('w, 'a) client_scheme \<Rightarrow> (nat outcome \<times> ('w, 'a) client_scheme) option" where
  "AcceptSession E preferClose c =
     map_option (\<lambda>(r, q, w). (r, c\<lparr>acceptSession := q, world := w\<rparr>))
       (acceptLoop E (onCloseClosed c) preferClose (acceptSession c) (world c))"

section \<open>Answering address requests\<close>

text \<open>\<open>strings.ToLower\<close> on ASCII letters.\<close>

definition toLowerChar :: "char \<Rightarrow> char" where
  "toLowerChar ch =
     (let n = of_char ch :: nat in if 65 \<le> n \<and> n \<le> 90 then char_of (n + 32) else ch)"

definition toLower :: "string \<Rightarrow> string" where
  "toLower s = map toLowerChar s"

text \<open>
  One message of \<open>listenNKN\<close>: \<open>src\<close> is its sender, \<open>req\<close> the decoded request, \<open>exits\<close> what
  \<open>getPubAddrs(false)\<close> gives (\<open>None\<close>: nil). The result is the value sent back, if any.
\<close>

definition listenNKN_reply ::
  "'w ext \<Rightarrow> matcher \<Rightarrow> ('w, 'a) client_scheme \<Rightarrow> string \<Rightarrow> Request outcome \<Rightarrow> PubAddrs option \<Rightarrow>
   PubAddrs option option" where
  "listenNKN_reply E M c src req exits =
     (if \<not> shouldAcceptAddr M c src then None
      else (case req of
              Ok r \<Rightarrow>
                (if toLower (Action r) = toLower ActionGetPubAddr
                 then (if IsSessClosed E c (sessionKey src (SessionID r))
                       then Some (Some \<lparr>Addrs = [], SessionClosed = True\<rparr>)
                       else Some exits)
                 else None)
            | _ \<Rightarrow> None))"

section \<open>What the listener guarantees\<close>

lemma readConn_keeps: "readConn c p mx = (x, c') \<Longrightarrow> \<exists>cs. c' = c\<lparr>conns := cs\<rparr>"
  by (auto simp: readConn_def split: option.splits prod.splits intro: exI [of _ "conns c"])

lemma decode_keeps: "decode C c buf r = (x, c') \<Longrightarrow> \<exists>ks. c' = c\<lparr>sharedKeys := ks\<rparr>"
  using decode_frame [of C c buf r] by auto

lemma handleMsg_frame:
  assumes "handleMsg E C c conn sess i = (x, c')"
  shows "sessions c' = sessions c \<and> sessionConns c' = sessionConns c \<and> acceptSession c' = acceptSession c"
  using assms
  by (auto simp: handleMsg_def split: option.splits prod.splits outcome.splits
      dest!: readConn_keeps decode_keeps)

text \<open>
  A new session whose first packet cannot be read is lost. \<open>listenNet\<close> has already
  registered the session when it reads the first packet; when that read or its decoding
  fails, the goroutine returns without offering the session to \<open>AcceptSession\<close> and without
  removing it. Every later connection of the same session then finds it registered, so
  nothing ever offers it.
\<close>

lemma first_packet_failure_strands_session:
  assumes "listenNet_register E c conn r sid i = Ok (Some (sess, True), c1)"
    and "handleMsg E C c1 conn sess i = (Err e, c2)"
  shows "\<exists>c'. listenNet_tcp E C c conn r sid i = Ok c' \<and>
    mget (sessions c') (sessionKey r sid) = Some sess \<and> acceptSession c' = acceptSession c \<and>
    (\<forall>conn2 j. \<exists>c''. listenNet_register E c' conn2 r sid j = Ok (Some (sess, False), c''))"
proof -
  have reg: "mget (sessions c1) (sessionKey r sid) = Some sess" "acceptSession c1 = acceptSession c"
    "mget (sessionConns c1) (sessionKey r sid) \<noteq> None"
    using assms(1)
    by (auto simp: listenNet_register_def newSession_def Let_def split: go_splits)
  obtain cs where "closeConn c2 conn = c2\<lparr>conns := cs\<rparr>" using closeConn_frame by blast
  then show ?thesis
    using assms reg handleMsg_frame [OF assms(2)] by (auto simp: listenNet_tcp_def listenNet_register_def)
qed

text \<open>Bob's connection 7 carries nothing after the handshake and then ends.\<close>

definition demoBroken :: "demo_world client" where
  "demoBroken = (demoClient ''bob'')\<lparr>conns := [(7, newConn ''1.2.3.4:80'' [] ErrEOF)]\<rparr>"

lemma first_packet_failure_strands_session_witness:
  "\<exists>c'. listenNet_tcp demoExt demoCrypto demoBroken 7 ''alice'' [1] 0 = Ok c' \<and>
    mget (sessions c') (sessionKey ''alice'' [1]) = Some 0 \<and> acceptSession c' = []"
proof -
  obtain c1 where c1: "listenNet_register demoExt demoBroken 7 ''alice'' [1] 0 = Ok (Some (0, True), c1)"
    "conns c1 = conns demoBroken" "config c1 = config demoBroken"
    by (simp add: listenNet_register_def newSession_def demoBroken_def demoClient_def demoExt_def
        DefaultConfig_def defaultConfig_def Let_def)
  have "\<exists>c2. handleMsg demoExt demoCrypto c1 7 0 0 = (Err ErrEOF, c2)"
    by (simp add: handleMsg_def c1 demoBroken_def demoClient_def DefaultConfig_def defaultConfig_def
        readConn_def mget_def newConn_def readMessage_def readFull.simps connRead_def)
  then obtain c2 where "handleMsg demoExt demoCrypto c1 7 0 0 = (Err ErrEOF, c2)" by blast
  from first_packet_failure_strands_session [OF c1(1) this] show ?thesis
    by (auto simp: demoBroken_def demoClient_def)
qed

text \<open>What is left of the outside world when the sessions \<open>xs\<close>, one after the other, fail to accept.\<close>

fun acceptsFail :: "'w ext \<Rightarrow> 'w \<Rightarrow> nat list \<Rightarrow> 'w option" where
  "acceptsFail E w [] = Some w"
| "acceptsFail E w (x # xs) =
     (case sessAccept E w x of (Err e, w') \<Rightarrow> acceptsFail E w' xs | _ \<Rightarrow> None)"

lemma acceptLoop_fifo:
  "acceptLoop E cl pc q w = Some (Ok s, q', w') \<Longrightarrow>
   \<exists>skipped w1. q = skipped @ s # q' \<and> acceptsFail E w skipped = Some w1 \<and> sessAccept E w1 s = (Ok (), w')"
proof (induction E cl pc q w rule: acceptLoop.induct)
  case (2 E cl pc x q w)
  obtain r w1 where r: "sessAccept E w x = (r, w1)" by (cases "sessAccept E w x")
  show ?case
  proof (cases r)
    case (Err e)
    with r 2 obtain sk w2 where "q = sk @ s # q'" "acceptsFail E w1 sk = Some w2" "sessAccept E w2 s = (Ok (), w')"
      by (auto split: if_splits)
    then show ?thesis using Err r by (intro exI [of _ "x # sk"]) auto
  next
    case (Ok u)
    then show ?thesis using r 2(2) by (intro exI [of _ "[]"]) (auto split: if_splits)
  qed (use r 2(2) in \<open>auto split: if_splits\<close>)
qed (auto split: if_splits)

lemma acceptLoop_closed: "acceptLoop E True pc q w \<noteq> None"
  by (induction E "True" pc q w rule: acceptLoop.induct) (auto split: prod.splits outcome.splits)

text \<open>
  C33: \<open>AcceptSession\<close> takes sessions in the order in which they were offered, skips
  exactly sessions whose \<open>Accept\<close> fails, one after the other, and after \<open>Close\<close> it never blocks,
  whatever its \<open>select\<close> picks in each iteration.
\<close>

theorem accept_in_order_and_never_stuck:
  "(AcceptSession E pc c = Some (Ok s, c') \<longrightarrow>
      (\<exists>skipped w1. acceptSession c = skipped @ s # acceptSession c' \<and>
        acceptsFail E (world c) skipped = Some w1 \<and> sessAccept E w1 s = (Ok (), world c'))) \<and>
   (onCloseClosed c \<longrightarrow> AcceptSession E pc c \<noteq> None)"
  using acceptLoop_closed [of E pc] acceptLoop_fifo [of E _ pc "acceptSession c" "world c" s]
  by (auto simp: AcceptSession_def)

theorem accept_in_order_and_never_stuck_witness:
  "\<exists>c'. AcceptSession demoExt (\<lambda>_. False) ((demoClient ''bob'')\<lparr>acceptSession := [3, 4]\<rparr>) = Some (Ok 3, c') \<and>
    acceptSession c' = [4]"
proof -
  let ?c = "(demoClient ''bob'')\<lparr>acceptSession := [3, 4]\<rparr>"
  obtain c' where c': "AcceptSession demoExt (\<lambda>_. False) ?c = Some (Ok 3, c')"
    by (simp add: AcceptSession_def demoExt_def)
  have "\<exists>skipped w1. acceptSession ?c = skipped @ 3 # acceptSession c' \<and>
      acceptsFail demoExt (world ?c) skipped = Some w1"
    using accept_in_order_and_never_stuck [of demoExt "\<lambda>_. False" ?c 3 c'] c' by blast
  then show ?thesis using c' by (auto simp: demoExt_def Cons_eq_append_conv)
qed

end
