(* ===== verification/Dialer.thy ===== *)
theory Dialer
  imports Listener
begin

text \<open>
  The dialing side of \<open>client.go\<close>: asking a peer for its public addresses
  (\<open>getPubAddrsFromRemote\<close>), opening one TCP connection of a session (\<open>dialTcpConn\<close>),
  building the session (\<open>DialWithConfig\<close>) and keeping its connections alive (\<open>reconnect\<close> and
  the retry loop around it).
\<close>

section \<open>Public addresses of a peer\<close>

text \<open>
  What became of one of the three requests that are sent 0, 3 and 6 seconds after the call.
  The list of attempts is in the order in which their goroutines finish; the reply and the
  error channel each keep the first value they get.
\<close>

datatype attempt = SendFailed go_error | Replied bytes | Stopped

fun firstReply :: "attempt list \<Rightarrow> bytes option" where
  "firstReply [] = None"
| "firstReply (Replied m # as) = Some m"
| "firstReply (_ # as) = firstReply as"

fun firstError :: "attempt list \<Rightarrow> go_error option" where
  "firstError [] = None"
| "firstError (SendFailed e # as) = Some e"
| "firstError (_ # as) = firstError as"

definition awaitReply :: "attempt list \<Rightarrow> go_error \<Rightarrow> bytes outcome" where
  "awaitReply as ctxErr =
     (case firstReply as of
        Some m \<Rightarrow> Ok m
      | None \<Rightarrow> (case firstError as of Some e \<Rightarrow> Err e | None \<Rightarrow> Err ctxErr))"

definition usableAddr :: "PubAddr \<Rightarrow> bool" where
  "usableAddr a \<longleftrightarrow> 0 < length (IP a) \<and> Port a \<noteq> 0"

text \<open>The loop over a reply's addresses dereferences each entry without a nil check.\<close>

fun someUsable :: "PubAddr option list \<Rightarrow> bool outcome" where
  "someUsable [] = Ok False"
| "someUsable (None # as) = Panic NilDereference"
| "someUsable (Some a # as) = (if usableAddr a then Ok True else someUsable as)"

definition takeReply :: "('w, 'a) client_scheme \<Rightarrow> string \<Rightarrow> PubAddrs \<Rightarrow> PubAddrs outcome \<times> ('w, 'a) client_scheme" where
  "takeReply c remoteAddr pa =
     (if SessionClosed pa then (Err ErrClosed, c)
      else (case someUsable (Addrs pa) of
              Ok True \<Rightarrow> (Ok pa, c\<lparr>pubAddrs := mput (pubAddrs c) remoteAddr pa\<rparr>)
            | Ok False \<Rightarrow> (Err ErrNoPubAddr, c)
            | Err e \<Rightarrow> (Err e, c)
            | Panic p \<Rightarrow> (Panic p, c)))"

text \<open>\<open>unjson\<close> is \<open>json.Unmarshal\<close> into a \<open>PubAddrs\<close>.\<close>

definition getPubAddrsFromRemote ::
  "(bytes \<Rightarrow> PubAddrs outcome) \<Rightarrow> ('w, 'a) client_scheme \<Rightarrow> string \<Rightarrow> attempt list \<Rightarrow> go_error \<Rightarrow>
   PubAddrs outcome \<times> ('w, 'a) client_scheme" where
  "getPubAddrsFromRemote unjson c remoteAddr attempts ctxErr =
     (case getCachedPubAddrs c remoteAddr of
        Some pa \<Rightarrow> (Ok pa, c)
      | None \<Rightarrow>
          (case awaitReply attempts ctxErr of
             Err e \<Rightarrow> (Err e, c)
           | Panic p \<Rightarrow> (Panic p, c)
           | Ok msg \<Rightarrow>
               (case unjson msg of
                  Err e \<Rightarrow> (Err e, c)
                | Panic p \<Rightarrow> (Panic p, c)
                | Ok pa \<Rightarrow> takeReply c remoteAddr pa)))"

section \<open>One connection\<close>

record DialConfig =
  DialTimeout :: int
  dialSession :: NcpConfig

text \<open>The locked section: register the connection under its session key and index.\<close>

definition dialTcpConn_register ::
  "('w, 'a) client_scheme \<Rightarrow> nat \<Rightarrow> string \<Rightarrow> bytes \<Rightarrow> int \<Rightarrow> ('w, 'a) client_scheme" where
  "dialTcpConn_register c conn remoteAddr sessionID i =
     (let sessKey = sessionKey remoteAddr sessionID;
          m = (case mget (sessionConns c) sessKey of Some m \<Rightarrow> m | None \<Rightarrow> [])
      in c\<lparr>sessionConns := mput (sessionConns c) sessKey (mput m (connID i) conn)\<rparr>)"

text \<open>
  \<open>dialTcpConn\<close>: \<open>net\<close> is what \<open>DialContext\<close> gives, \<open>rnd\<close> the nonce of the metadata. The
  returned number points to the connection.
\<close>

definition dialTcpConn ::
  "crypto \<Rightarrow> proto \<Rightarrow> ('w, 'a) client_scheme \<Rightarrow> string \<Rightarrow> bytes \<Rightarrow> int \<Rightarrow> int \<Rightarrow> PubAddr option \<Rightarrow>
   DialConfig \<Rightarrow> Conn outcome \<Rightarrow> bytes outcome \<Rightarrow> int \<Rightarrow> nat outcome \<times> ('w, 'a) client_scheme" where
  "dialTcpConn C P c remoteAddr sessionID sessType i a dcfg net rnd now =
     (case a of
        None \<Rightarrow> (Err ErrWrongParamsAddr, c)
      | Some pa \<Rightarrow>
        if length (IP pa) = 0 \<or> Port pa = 0 then (Err ErrWrongParamsAddr, c)
        else (case net of
           Err e \<Rightarrow> (Err e, c)
         | Panic p \<Rightarrow> (Panic p, c)
         | Ok netConn \<Rightarrow>
           (case allocConn c netConn of (conn, c0) \<Rightarrow>
            (case writeConn c0 conn (bytes_of_string (addr c0)) (DialTimeout dcfg) now of
               (Err e, c1) \<Rightarrow> (Err e, closeConn c1 conn)
             | (Panic p, c1) \<Rightarrow> (Panic p, c1)
             | (Ok u, c1) \<Rightarrow>
               (case MarshalMeta P \<lparr>Id = sessionID, SessionType = sessType, DialerNknAddr = []\<rparr> of
                  Err e \<Rightarrow> (Err e, closeConn c1 conn)
                | Panic p \<Rightarrow> (Panic p, c1)
                | Ok metadataRaw \<Rightarrow>
                  (case encode C c1 metadataRaw remoteAddr rnd of
                     (Err e, c2) \<Rightarrow> (Err e, closeConn c2 conn)
                   | (Panic p, c2) \<Rightarrow> (Panic p, c2)
                   | (Ok buf, c2) \<Rightarrow>
                     (case writeConn c2 conn buf (DialTimeout dcfg) now of
                        (Err e, c3) \<Rightarrow> (Err e, closeConn c3 conn)
                      | (Panic p, c3) \<Rightarrow> (Panic p, c3)
                      | (Ok u2, c3) \<Rightarrow>
                          (Ok conn,
                           if sessType = SessionType_TCP
                           then dialTcpConn_register c3 conn remoteAddr sessionID i else c3))))))))"

section \<open>A session\<close>

text \<open>
  The parallel dials of \<open>DialWithConfig\<close>, in the order in which they run: the address index,
  what the network and the random source gave. All of them assign the one variable \<open>err\<close>
  of the enclosing function, so the last to finish decides its value.
\<close>

type_synonym dial_run = "nat \<times> Conn outcome \<times> bytes outcome"

fun dialAll ::
  "crypto \<Rightarrow> proto \<Rightarrow> ('w, 'a) client_scheme \<Rightarrow> string \<Rightarrow> bytes \<Rightarrow> PubAddr option list \<Rightarrow> DialConfig \<Rightarrow> int \<Rightarrow>
   go_error option \<Rightarrow> dial_run list \<Rightarrow> go_error option outcome \<times> ('w, 'a) client_scheme" where
  "dialAll C P c remoteAddr sessionID as dcfg now err [] = (Ok err, c)"
| "dialAll C P c remoteAddr sessionID as dcfg now err ((i, net, rnd) # rs) =
     (if length as \<le> i then (Panic (IndexOutOfRange (int i)), c)
      else (case dialTcpConn C P c remoteAddr sessionID SessionType_TCP (int i) (as ! i) dcfg net rnd now of
              (Ok p, c') \<Rightarrow> dialAll C P c' remoteAddr sessionID as dcfg now None rs
            | (Err e, c') \<Rightarrow> dialAll C P c' remoteAddr sessionID as dcfg now (Some e) rs
            | (Panic x, c') \<Rightarrow> (Panic x, c')))"

text \<open>
  The loop that starts the dials skips the entries without IP or port. With \<open>Verbose\<close> set it
  logs the skipped entry's fields, which for a nil entry is a nil dereference.
\<close>

fun dialTargets :: "bool \<Rightarrow> nat \<Rightarrow> PubAddr option list \<Rightarrow> nat list outcome" where
  "dialTargets verbose i [] = Ok []"
| "dialTargets verbose i (a # as) =
     (case a of
        None \<Rightarrow> (if verbose then Panic NilDereference else dialTargets verbose (i + 1) as)
      | Some pa \<Rightarrow>
          (if IP pa = [] \<or> Port pa = 0 then dialTargets verbose (i + 1) as
           else obind (dialTargets verbose (i + 1) as) (\<lambda>is. Ok (i # is))))"

text \<open>The connection ids of the session: the indices that are connected, in order.\<close>

definition connectedIDs :: "(string, nat) gomap \<Rightarrow> nat \<Rightarrow> string list" where
  "connectedIDs m n = filter (\<lambda>cid. mget m cid \<noteq> None) (map (\<lambda>i. connID (int i)) [0..<n])"

text \<open>
  The session is made and registered in two critical sections: the first, under the read
  lock, takes the table of the connections that came up and their ids, and a session is made
  from them (no table, or an empty one, is \<open>Ok None\<close>); the second, under the write lock, enters
  the session. Other goroutines run in between.
\<close>

definition dialLookup ::
  "'w ext \<Rightarrow> ('w, 'a) client_scheme \<Rightarrow> string \<Rightarrow> bytes \<Rightarrow> nat \<Rightarrow>
   (nat \<times> (string, nat) gomap) option outcome \<times> ('w, 'a) client_scheme" where
  "dialLookup E c remoteAddr sessionID n =
     (case mget (sessionConns c) (sessionKey remoteAddr sessionID) of
        None \<Rightarrow> (Ok None, c)
      | Some m \<Rightarrow>
          if m = [] then (Ok None, c)
          else (case newSession E c remoteAddr (connectedIDs m n) of
                  (Err e, c1) \<Rightarrow> (Err e, c1)
                | (Panic p, c1) \<Rightarrow> (Panic p, c1)
                | (Ok sess, c1) \<Rightarrow> (Ok (Some (sess, m)), c1)))"

definition dialRegister :: "('w, 'a) client_scheme \<Rightarrow> string \<Rightarrow> nat \<Rightarrow> ('w, 'a) client_scheme" where
  "dialRegister c sessKey sess = c\<lparr>sessions := mput (sessions c) sessKey sess\<rparr>"

text \<open>
  \<open>DialWithConfig\<close> after the configuration, the destination, the session id and the public
  addresses \<open>pa\<close> are known, up to the start of the connection goroutines: the result is Go's
  pair of session and error, with the connections and indices that goroutines are started for.
\<close>

definition dialSessionConns ::
  "'w ext \<Rightarrow> ('w, 'a) client_scheme \<Rightarrow> string \<Rightarrow> bytes \<Rightarrow> nat \<Rightarrow> go_error option \<Rightarrow>
   (nat option \<times> go_error option \<times> (nat \<times> nat) list) outcome \<times> ('w, 'a) client_scheme" where
  "dialSessionConns E c remoteAddr sessionID n err =
     (case dialLookup E c remoteAddr sessionID n of
        (Err e, c1) \<Rightarrow> (Ok (None, Some e, []), c1)
      | (Panic p, c1) \<Rightarrow> (Panic p, c1)
      | (Ok None, c1) \<Rightarrow> (Ok (None, err, []), c1)
      | (Ok (Some (sess, m)), c1) \<Rightarrow>
          (Ok (Some sess, None,
               List.map_filter (\<lambda>i. map_option (\<lambda>p. (p, i)) (mget m (connID (int i)))) [0..<n]),
           dialRegister c1 (sessionKey remoteAddr sessionID) sess))"

lemmas dialSessionConns_defs = dialSessionConns_def dialLookup_def dialRegister_def

text \<open>The last step, \<open>sess.Dial(ctx)\<close>: its error replaces the session.\<close>

definition dialFinish ::
  "'w ext \<Rightarrow> (nat option \<times> go_error option \<times> (nat \<times> nat) list) outcome \<times> ('w, 'a) client_scheme \<Rightarrow>
   (nat option \<times> go_error option \<times> (nat \<times> nat) list) outcome \<times> ('w, 'a) client_scheme" where
  "dialFinish E r =
     (case r of
        (Ok (Some sess, None, started), c) \<Rightarrow>
          (case sessDial E (world c) sess of
             (Ok u, w) \<Rightarrow> (Ok (Some sess, None, started), c\<lparr>world := w\<rparr>)
           | (Err e, w) \<Rightarrow> (Ok (None, Some e, started), c\<lparr>world := w\<rparr>)
           | (Panic p, w) \<Rightarrow> (Panic p, c\<lparr>world := w\<rparr>))
      | _ \<Rightarrow> r)"

definition DialWithConfig ::
  "'w ext \<Rightarrow> crypto \<Rightarrow> proto \<Rightarrow> (bytes \<Rightarrow> PubAddrs outcome) \<Rightarrow> ('w, 'a) client_scheme \<Rightarrow>
   DialConfig outcome \<Rightarrow> string outcome \<Rightarrow> bytes outcome \<Rightarrow> attempt list \<Rightarrow> go_error \<Rightarrow> dial_run list \<Rightarrow> int \<Rightarrow>
   (nat option \<times> go_error option \<times> (nat \<times> nat) list) outcome \<times> ('w, 'a) client_scheme" where
  "DialWithConfig E C P unjson c merged resolved rndID attempts ctxErr runs now =
     (case merged of Err e \<Rightarrow> (Ok (None, Some e, []), c) | Panic p \<Rightarrow> (Panic p, c) | Ok dcfg \<Rightarrow>
      (case resolved of Err e \<Rightarrow> (Ok (None, Some e, []), c) | Panic p \<Rightarrow> (Panic p, c) | Ok remoteAddr \<Rightarrow>
       (case rndID of Err e \<Rightarrow> (Ok (None, Some e, []), c) | Panic p \<Rightarrow> (Panic p, c) | Ok sessionID \<Rightarrow>
        (case getPubAddrsFromRemote unjson c remoteAddr attempts ctxErr of
           (Err e, c1) \<Rightarrow> (Ok (None, Some e, []), c1)
         | (Panic p, c1) \<Rightarrow> (Panic p, c1)
         | (Ok pa, c1) \<Rightarrow>
           (case dialTargets (Verbose (config c1)) 0 (Addrs pa) of
              Err e \<Rightarrow> (Err e, c1)
            | Panic p \<Rightarrow> (Panic p, c1)
            | Ok targets \<Rightarrow>
              (case dialAll C P c1 remoteAddr sessionID (Addrs pa) dcfg now None
                      (filter (\<lambda>(i, _, _). i \<in> set targets) runs) of
                 (Err e, c2) \<Rightarrow> (Err e, c2)
               | (Panic p, c2) \<Rightarrow> (Panic p, c2)
               | (Ok err, c2) \<Rightarrow>
                   dialFinish E (dialSessionConns E c2 remoteAddr sessionID (length (Addrs pa)) err)))))))"

section \<open>Reconnecting\<close>

text \<open>
  \<open>reconnect\<close>, with Go's result pair. When the peer now has no address at this index, the
  error variable is still nil from the successful address query and both results are nil.
\<close>

definition reconnect ::
  "'w ext \<Rightarrow> crypto \<Rightarrow> proto \<Rightarrow> (bytes \<Rightarrow> PubAddrs outcome) \<Rightarrow> ('w, 'a) client_scheme \<Rightarrow> string \<Rightarrow> bytes \<Rightarrow> nat \<Rightarrow>
   DialConfig \<Rightarrow> attempt list \<Rightarrow> go_error \<Rightarrow> Conn outcome \<Rightarrow> bytes outcome \<Rightarrow> int \<Rightarrow>
   (nat option \<times> go_error option) outcome \<times> ('w, 'a) client_scheme" where
  "reconnect E C P unjson c remoteAddr sessionID i dcfg attempts ctxErr net rnd now =
     (if isClosed c then (Ok (None, Some ErrClosed), c)
      else (case mget (sessions c) (sessionKey remoteAddr sessionID) of
              None \<Rightarrow> (Ok (None, Some ErrSessionClosed), c)
            | Some sess \<Rightarrow>
                if sessIsClosed E (world c) sess then (Ok (None, Some ErrSessionClosed), c)
                else (case getPubAddrsFromRemote unjson c remoteAddr attempts ctxErr of
                        (Panic p, c1) \<Rightarrow> (Panic p, c1)
                      | (Err e, c1) \<Rightarrow>
                          if e = ErrClosed
                          then (Ok (None, Some ErrClosed), c1\<lparr>world := sessClose E (world c1) sess\<rparr>)
                          else (Ok (None, Some e), c1)
                      | (Ok pa, c1) \<Rightarrow>
                          if i < length (Addrs pa)
                          then (case dialTcpConn C P c1 remoteAddr sessionID SessionType_TCP (int i)
                                       (Addrs pa ! i) dcfg net rnd now of
                                  (Ok p, c2) \<Rightarrow> (Ok (Some p, None), c2)
                                | (Err e, c2) \<Rightarrow> (Ok (None, Some e), c2)
                                | (Panic x, c2) \<Rightarrow> (Panic x, c2))
                          else (Ok (None, None), c1))))"

text \<open>
  The retry loop of a connection goroutine, over the results its successive \<open>reconnect\<close>
  calls give. \<open>Proceed\<close> continues with the new connection, \<open>Leave\<close> returns at once,
  \<open>Exhausted\<close> is the loop running out of retries, \<open>Waiting\<close> means that more calls follow.
\<close>

datatype retry = Proceed "nat option" | Leave | Exhausted | Waiting

fun retryReconnect :: "int \<Rightarrow> int \<Rightarrow> (nat option \<times> go_error option) list \<Rightarrow> retry" where
  "retryReconnect R j [] = (if R < 0 \<or> j < R then Waiting else Exhausted)"
| "retryReconnect R j ((conn, err) # rs) =
     (if R < 0 \<or> j < R
      then (case err of
              None \<Rightarrow> Proceed conn
            | Some e \<Rightarrow>
                if e = ErrClosed \<or> e = ErrSessionClosed then Leave else retryReconnect R (j + 1) rs)
      else Exhausted)"

text \<open>
  What the goroutine does after one \<open>handleConn\<close>: \<open>Some (Some p)\<close> handles \<open>p\<close> next,
  \<open>Some None\<close> ends (also when it proceeds with a nil connection), \<open>None\<close> is still retrying.
\<close>

definition afterHandleConn :: "int \<Rightarrow> (nat option \<times> go_error option) list \<Rightarrow> nat option option" where
  "afterHandleConn R rs =
     (if R = 0 then Some None
      else (case retryReconnect R 0 rs of
              Proceed conn \<Rightarrow> Some conn
            | Leave \<Rightarrow> Some None
            | Exhausted \<Rightarrow> Some None
            | Waiting \<Rightarrow> None))"

end
