(* ===== verification/Handshake.thy ===== *)
theory Handshake
  imports Dialer
begin

text \<open>
  The two ends of a new TCP connection together: what \<open>dialTcpConn\<close> writes, the goroutine of
  \<open>listenNet\<close> reads back as the dialer's address and the session's metadata.
\<close>

lemma encode_frame: "\<exists>ks. snd (encode C c m r rnd) = c\<lparr>sharedKeys := ks\<rparr>"
proof -
  have id: "\<exists>ks. c = c\<lparr>sharedKeys := ks\<rparr>" by (metis keyring.surjective keyring.update_convs(2))
  show ?thesis
    using id getOrComputeSharedKey_frame [of C c]
    by (auto simp: encode_def split: outcome.split prod.split) (metis snd_conv)+
qed

lemma keyring_ok_fields:
  "keyring_ok C (c\<lparr>conns := cs\<rparr>) = keyring_ok C c"
  "keyring_ok C (c\<lparr>conns := cs, nextConn := n\<rparr>) = keyring_ok C c"
  for c :: "('w, 'a) client_scheme"
  by (simp_all add: keyring_ok_def)

text \<open>A connection on which everything is written, with nothing sent yet.\<close>

definition freshConn :: "Conn \<Rightarrow> bool" where
  "freshConn k \<longleftrightarrow> \<not> connClosed k \<and> wrRoom k = None \<and> wrSent k = []"

text \<open>The metadata record that \<open>dialTcpConn\<close> sends.\<close>

abbreviation dialMeta :: "bytes \<Rightarrow> int \<Rightarrow> SessionMetadata" where
  "dialMeta sid ty \<equiv> \<lparr>Id = sid, SessionType = ty, DialerNknAddr = []\<rparr>"

lemma writeConn_ok:
  assumes "mget (conns c) p = Some k" "\<not> connClosed k" "wrRoom k = None"
  shows "writeConn c p b t now =
    (Ok (), c\<lparr>conns := mput (conns c) p
       (k\<lparr>wrSent := wrSent k @ frame b, wrDeadline := (if t > 0 then None else wrDeadline k)\<rparr>)\<rparr>)"
  using assms by (simp add: writeConn_def writeMessage_ok)

lemma dialTcpConn_sends:
  assumes laws: "crypto_laws C" "keyring_ok C d" "peerKey C (privKey d) remote = Ok key"
    and inp: "usableAddr a" "freshConn k" "length nonce = nonceSize" "MarshalMeta P (dialMeta sid ty) = Ok raw"
  shows "\<exists>d' k'. dialTcpConn C P d remote sid ty i (Some a) dcfg (Ok k) (Ok nonce) now = (Ok (nextConn d), d') \<and>
    mget (conns d') (nextConn d) = Some k' \<and> \<not> connClosed k' \<and>
    wrSent k' = frame (bytes_of_string (addr d)) @ frame (nonce @ Seal C raw nonce key)"
proof -
  let ?p = "nextConn d"
  let ?k1 = "k\<lparr>wrSent := frame (bytes_of_string (addr d)),
      wrDeadline := (if DialTimeout dcfg > 0 then None else wrDeadline k)\<rparr>"
  obtain d0 where d0: "allocConn d k = (?p, d0)" "mget (conns d0) ?p = Some k" "addr d0 = addr d"
      "keyring_ok C d0" "privKey d0 = privKey d"
    using laws(2) by (simp add: allocConn_def keyring_ok_fields)
  let ?d1 = "d0\<lparr>conns := mput (conns d0) ?p ?k1\<rparr>"
  have w1: "writeConn d0 ?p (bytes_of_string (addr d0)) (DialTimeout dcfg) now = (Ok (), ?d1)"
    using writeConn_ok [OF d0(2)] inp(2) d0(3) by (simp add: freshConn_def)
  obtain ks where "snd (encode C ?d1 raw remote (Ok nonce)) = ?d1\<lparr>sharedKeys := ks\<rparr>"
    using encode_frame by blast
  moreover have "fst (encode C ?d1 raw remote (Ok nonce)) = Ok (nonce @ Seal C raw nonce key)"
    using encode_spec [OF laws(1), of ?d1 nonce raw remote] d0(4,5) laws(3) inp(3)
    by (simp add: keyring_ok_fields)
  ultimately have e: "encode C ?d1 raw remote (Ok nonce) = (Ok (nonce @ Seal C raw nonce key), ?d1\<lparr>sharedKeys := ks\<rparr>)"
    by (metis prod.collapse)
  obtain k2 where w2: "writeConn (?d1\<lparr>sharedKeys := ks\<rparr>) ?p (nonce @ Seal C raw nonce key) (DialTimeout dcfg) now =
     (Ok (), ?d1\<lparr>sharedKeys := ks, conns := mput (conns ?d1) ?p k2\<rparr>)" "\<not> connClosed k2"
     "wrSent k2 = frame (bytes_of_string (addr d)) @ frame (nonce @ Seal C raw nonce key)"
    using inp(2) writeConn_ok [of "?d1\<lparr>sharedKeys := ks\<rparr>" ?p ?k1] by (simp add: freshConn_def)
  show ?thesis
    using inp d0(1) w1 e w2
    by (simp add: dialTcpConn_def usableAddr_def freshConn_def dialTcpConn_register_def Let_def)
qed

lemma readConn_frame:
  assumes "mget (conns c) p = Some k" "inBytes k = frame b @ rest" "length b \<le> unat mx"
  shows "\<exists>k'. readConn c p mx = (Ok b, c\<lparr>conns := mput (conns c) p k'\<rparr>) \<and> inBytes k' = rest \<and> inEnd k' = inEnd k"
proof -
  obtain k' where k: "readMessage k mx = (Ok b, k')" "inBytes k' = rest" "k' = k\<lparr>rdSegs := rdSegs k'\<rparr>"
    using readMessage_frame [OF assms(3,2)] by blast
  have "inEnd k' = inEnd k" by (subst k(3)) (simp add: inEnd_def)
  with k(1,2) show ?thesis using assms(1) by (auto simp: readConn_def)
qed

lemma listenNet_handshake_reads:
  assumes laws: "crypto_laws C" "0 < Overhead C" "proto_laws P" "keyring_ok C l"
      "peerKey C (privKey l) a = Ok key"
    and inp: "mget (conns l) q = Some k"
      "inBytes k = frame (bytes_of_string a) @ frame (nonce @ Seal C raw nonce key) @ rest"
      "MarshalMeta P md = Ok raw" "length nonce = nonceSize"
    and size: "length a \<le> 512" "length raw + Overhead C \<le> 1000"
    and acc: "shouldAcceptAddr M l a"
  shows "\<exists>l' k' cs ks. listenNet_handshake C P M l q = (Ok (a, md), l') \<and>
    mget (conns l') q = Some k' \<and> inBytes k' = rest \<and> inEnd k' = inEnd k \<and>
    l' = l\<lparr>conns := cs, sharedKeys := ks\<rparr> \<and> keyring_ok C l'"
proof -
  obtain k1 where k1: "readConn l q maxAddrSize = (Ok (bytes_of_string a), l\<lparr>conns := mput (conns l) q k1\<rparr>)"
      "inBytes k1 = frame (nonce @ Seal C raw nonce key) @ rest" "inEnd k1 = inEnd k"
    using readConn_frame [OF inp(1,2), of maxAddrSize] size(1) by (auto simp: maxAddrSize_def)
  let ?l1 = "l\<lparr>conns := mput (conns l) q k1\<rparr>"
  have len: "length (nonce @ Seal C raw nonce key) \<le> unat maxSessionMetadataSize"
    using size(2) inp(4) crypto_lawsD(2) [OF laws(1)] by (simp add: maxSessionMetadataSize_def nonceSize_def)
  obtain k2 where k2: "readConn ?l1 q maxSessionMetadataSize =
      (Ok (nonce @ Seal C raw nonce key), ?l1\<lparr>conns := mput (conns ?l1) q k2\<rparr>)" "inBytes k2 = rest" "inEnd k2 = inEnd k1"
    using readConn_frame [of ?l1 q k1, OF _ k1(2) len] by auto
  let ?l2 = "?l1\<lparr>conns := mput (conns ?l1) q k2\<rparr>"
  have "fst (decode C ?l2 (nonce @ Seal C raw nonce key) a) = Ok raw"
    using decode_sealed [OF laws(1), of ?l2 a key nonce raw] laws inp(4) by (simp add: keyring_ok_fields)
  moreover obtain ks where ks: "snd (decode C ?l2 (nonce @ Seal C raw nonce key) a) = ?l2\<lparr>sharedKeys := ks\<rparr>"
    using decode_frame by blast
  ultimately have "decode C ?l2 (nonce @ Seal C raw nonce key) a = (Ok raw, ?l2\<lparr>sharedKeys := ks\<rparr>)"
    by (metis prod.collapse)
  moreover have "shouldAcceptAddr M ?l1 a" using acc by (simp add: shouldAcceptAddr_iff)
  moreover have "keyring_ok C (?l2\<lparr>sharedKeys := ks\<rparr>)"
    using decode_keyring_ok [of C ?l2 "nonce @ Seal C raw nonce key" a] ks laws(4) by (simp add: keyring_ok_fields)
  ultimately show ?thesis
    using k1(1,3) k2 proto_lawsD(1) [OF laws(3) inp(3)] by (auto simp: listenNet_handshake_def Let_def)
qed

section \<open>Properties\<close>

text \<open>
  C1: the handshake. When a client dials a listener's public address, the bytes it sends
  identify it completely: the listener's goroutine, whatever the segmentation of the stream,
  obtains the dialer's NKN address, the session id and the session type, and is left exactly
  at the bytes that follow. The sizes are the limits the listener reads with.
\<close>

theorem handshake_identifies_session:
  assumes "crypto_laws C" "0 < Overhead C" "proto_laws P" "keyring_ok C d" "keyring_ok C l"
    and "peerKey C (privKey d) remote = Ok key" "peerKey C (privKey l) (addr d) = Ok key"
    and "usableAddr a" "freshConn k" "length nonce = nonceSize"
    and "MarshalMeta P (dialMeta sid ty) = Ok raw"
    and "length (addr d) \<le> 512" "length raw + Overhead C \<le> 1000" "shouldAcceptAddr M l (addr d)"
  shows "\<exists>d' k'. dialTcpConn C P d remote sid ty i (Some a) dcfg (Ok k) (Ok nonce) now = (Ok (nextConn d), d') \<and>
    mget (conns d') (nextConn d) = Some k' \<and>
    (\<forall>q kq rest. mget (conns l) q = Some kq \<and> inBytes kq = wrSent k' @ rest \<longrightarrow>
      (\<exists>l' kq'. listenNet_handshake C P M l q = (Ok (addr d, dialMeta sid ty), l') \<and>
        mget (conns l') q = Some kq' \<and> inBytes kq' = rest))"
proof -
  obtain d' k' where "dialTcpConn C P d remote sid ty i (Some a) dcfg (Ok k) (Ok nonce) now = (Ok (nextConn d), d')"
    "mget (conns d') (nextConn d) = Some k'"
    and s: "wrSent k' = frame (bytes_of_string (addr d)) @ frame (nonce @ Seal C raw nonce key)"
    using dialTcpConn_sends [OF assms(1,4,6,8-11)] by blast
  moreover have "\<exists>l' kq'. listenNet_handshake C P M l q = (Ok (addr d, dialMeta sid ty), l') \<and>
        mget (conns l') q = Some kq' \<and> inBytes kq' = rest"
    if "mget (conns l) q = Some kq" "inBytes kq = wrSent k' @ rest" for q kq rest
    using listenNet_handshake_reads [OF assms(1-3,5,7) that(1) _ assms(11,10,12-14), of rest] that(2) s by fastforce
  ultimately show ?thesis by blast
qed

text \<open>Alice dials Bob; her bytes reach Bob in one-byte segments.\<close>

definition demoAddr :: PubAddr where
  "demoAddr = \<lparr>IP = ''1.2.3.4'', Port = 80, InPrice = [], OutPrice = []\<rparr>"

definition acceptAny :: matcher where
  "acceptAny p a = True"

theorem handshake_identifies_session_witness:
  "\<exists>d' k'. dialTcpConn demoCrypto demoProto (demoClient ''alice'') ''bob'' [1, 2] 1 0 (Some demoAddr)
      \<lparr>DialTimeout = 5000, dialSession = DefaultSessionConfig\<rparr> (Ok (newConn ''1.2.3.4:80'' [] ErrEOF))
      (Ok (replicate 24 7)) 0 = (Ok 0, d') \<and> mget (conns d') 0 = Some k' \<and>
    (\<exists>l'. listenNet_handshake demoCrypto demoProto acceptAny
       ((demoClient ''bob'')\<lparr>conns := [(5, newConn ''peer'' (map (\<lambda>b. [b]) (wrSent k')) ErrEOF)]\<rparr>) 5 =
       (Ok (''alice'', dialMeta [1, 2] 1), l'))"
proof -
  let ?d = "demoClient ''alice''"
  let ?cfg = "\<lparr>DialTimeout = 5000, dialSession = DefaultSessionConfig\<rparr>"
  let ?l = "\<lambda>k'. (demoClient ''bob'')\<lparr>conns := [(5, newConn ''peer'' (map (\<lambda>b. [b]) (wrSent k')) ErrEOF)]\<rparr>"
  have raw: "MarshalMeta demoProto (dialMeta [1, 2] 1) = Ok [1, 2, 1, 2, 0]"
    by (simp add: demoProto_def demoMarshal_def putField_def bytes_of_string_def)
  have pk: "peerKey demoCrypto (privKey ?d) ''bob'' = Ok (demoKey ''bob'' ''alice'')"
    "peerKey demoCrypto (privKey (?l k')) (addr ?d) = Ok (demoKey ''bob'' ''alice'')" for k'
    by (simp_all add: demoClient_def demo_peerKey demoKey_sym)
  have small: "0 < Overhead demoCrypto" "length (addr ?d) \<le> 512"
    "length [1, 2, 1, 2, 0 :: byte] + Overhead demoCrypto \<le> 1000"
    by (simp_all add: demoCrypto_def demoClient_def)
  have ok: "keyring_ok demoCrypto ?d" "keyring_ok demoCrypto (?l k')" "usableAddr demoAddr"
    "shouldAcceptAddr acceptAny (?l k') (addr ?d)" "length (replicate 24 7 :: bytes) = nonceSize"
    "freshConn (newConn ''1.2.3.4:80'' [] ErrEOF)" for k'
    by (simp_all add: demoClient_def usableAddr_def demoAddr_def shouldAcceptAddr_iff acceptAny_def
        nonceSize_def freshConn_def newConn_def)
  obtain d' k' where "dialTcpConn demoCrypto demoProto ?d ''bob'' [1, 2] 1 0 (Some demoAddr) ?cfg
      (Ok (newConn ''1.2.3.4:80'' [] ErrEOF)) (Ok (replicate 24 7)) 0 = (Ok (nextConn ?d), d')"
    "mget (conns d') (nextConn ?d) = Some k'"
    using handshake_identifies_session [OF demoCrypto_laws small(1) demoProto_laws ok(1) ok(2) pk ok(3,6,5) raw small(2,3) ok(4)]
    by blast
  moreover from handshake_identifies_session [OF demoCrypto_laws small(1) demoProto_laws ok(1) ok(2) [of k'] pk ok(3,6,5) raw small(2,3) ok(4),
      where i = 0 and dcfg = ?cfg and now = 0] calculation
  have "\<exists>l'. listenNet_handshake demoCrypto demoProto acceptAny (?l k') 5 = (Ok (addr ?d, dialMeta [1, 2] 1), l')"
    by (fastforce simp: mget_def newConn_def inBytes_def)
  ultimately show ?thesis by (simp add: demoClient_def)
qed

end
