(* ===== verification/Delivery.thy ===== *)
theory Delivery
  imports Handshake
begin

text \<open>
  Packets of a session between its two clients: what the session's send callback
  (\<open>newSession\<close>) puts on a connection, the peer's \<open>handleConn\<close> hands to its session.
\<close>

section \<open>Sending\<close>

text \<open>The calls that ncp makes on one connection, each packet with the nonce drawn for it.\<close>

fun sendPackets ::
  "crypto \<Rightarrow> ('w, 'a) client_scheme \<Rightarrow> string \<Rightarrow> bytes \<Rightarrow> string \<Rightarrow> int \<Rightarrow> int \<Rightarrow> (bytes \<times> bytes) list \<Rightarrow>
   unit outcome \<times> ('w, 'a) client_scheme" where
  "sendPackets C c remoteAddr sid cid t now [] = (Ok (), c)"
| "sendPackets C c remoteAddr sid cid t now ((m, nonce) # ps) =
     (case sendWith C c remoteAddr sid cid m t (Ok nonce) now of
        (Ok u, c1) \<Rightarrow> sendPackets C c1 remoteAddr sid cid t now ps
      | (Err e, c1) \<Rightarrow> (Err e, c1)
      | (Panic p, c1) \<Rightarrow> (Panic p, c1))"

text \<open>What travels for one packet: a frame around nonce and box.\<close>

definition packetFrame :: "crypto \<Rightarrow> bytes \<Rightarrow> bytes \<times> bytes \<Rightarrow> bytes" where
  "packetFrame C key p = frame (snd p @ Seal C (fst p) (snd p) key)"

text \<open>A client that can send on connection \<open>p\<close>.\<close>

definition canSend :: "crypto \<Rightarrow> ('w, 'a) client_scheme \<Rightarrow> string \<Rightarrow> bytes \<Rightarrow> string \<Rightarrow> nat \<Rightarrow> bytes \<Rightarrow> Conn \<Rightarrow> bool" where
  "canSend C c remoteAddr sid cid p key k \<longleftrightarrow>
     keyring_ok C c \<and> peerKey C (privKey c) remoteAddr = Ok key \<and>
     Option.bind (mget (sessionConns c) (sessionKey remoteAddr sid)) (\<lambda>m. mget m cid) = Some p \<and>
     mget (conns c) p = Some k \<and> \<not> connClosed k \<and> wrRoom k = None"

lemma sendWith_ok:
  assumes "crypto_laws C" "canSend C c r sid cid p key k" "length nonce = nonceSize"
  shows "\<exists>c' k'. sendWith C c r sid cid m t (Ok nonce) now = (Ok (), c') \<and>
    canSend C c' r sid cid p key k' \<and> wrSent k' = wrSent k @ packetFrame C key (m, nonce)"
proof -
  obtain ks where ks: "snd (encode C c m r (Ok nonce)) = c\<lparr>sharedKeys := ks\<rparr>" using encode_frame by blast
  have kr: "keyring_ok C (c\<lparr>sharedKeys := ks\<rparr>)"
    using encode_keyring_ok [of C c m r "Ok nonce"] assms(2) ks by (simp add: canSend_def)
  have e: "encode C c m r (Ok nonce) = (Ok (nonce @ Seal C m nonce key), c\<lparr>sharedKeys := ks\<rparr>)"
    using encode_spec [OF assms(1) _ assms(3), of c m r] assms(2) ks
    by (cases "encode C c m r (Ok nonce)") (simp add: canSend_def)
  let ?k = "k\<lparr>wrSent := wrSent k @ frame (nonce @ Seal C m nonce key), wrDeadline := (if t > 0 then None else wrDeadline k)\<rparr>"
  have w: "writeConn (c\<lparr>sharedKeys := ks\<rparr>) p (nonce @ Seal C m nonce key) t now =
      (Ok (), c\<lparr>sharedKeys := ks, conns := mput (conns c) p ?k\<rparr>)"
    using writeConn_ok [of "c\<lparr>sharedKeys := ks\<rparr>" p k] assms(2) by (simp add: canSend_def)
  have "canSend C (c\<lparr>sharedKeys := ks, conns := mput (conns c) p ?k\<rparr>) r sid cid p key ?k"
    using assms(2) kr by (simp add: canSend_def keyring_ok_def)
  then show ?thesis using assms(2) e w by (simp add: sendWith_def canSend_def packetFrame_def)
qed

lemma sendPackets_ok:
  "crypto_laws C \<Longrightarrow> canSend C c r sid cid p key k \<Longrightarrow> \<forall>q\<in>set ps. length (snd q) = nonceSize \<Longrightarrow>
   \<exists>c' k'. sendPackets C c r sid cid t now ps = (Ok (), c') \<and> mget (conns c') p = Some k' \<and>
     wrSent k' = wrSent k @ concat (map (packetFrame C key) ps)"
proof (induction ps arbitrary: c k)
  case Nil
  then show ?case by (simp add: canSend_def)
next
  case (Cons q ps)
  obtain m nonce where q: "q = (m, nonce)" by (cases q)
  obtain c1 k1 where "sendWith C c r sid cid m t (Ok nonce) now = (Ok (), c1)" "canSend C c1 r sid cid p key k1"
    "wrSent k1 = wrSent k @ packetFrame C key q"
    using sendWith_ok [OF Cons.prems(1,2), of nonce m t now] Cons.prems(3) q by auto
  moreover obtain c2 k2 where "sendPackets C c1 r sid cid t now ps = (Ok (), c2)" "mget (conns c2) p = Some k2"
    "wrSent k2 = wrSent k1 @ concat (map (packetFrame C key) ps)"
    using Cons.IH [OF Cons.prems(1) calculation(2)] Cons.prems(3) by auto
  ultimately show ?case using q by simp
qed

section \<open>Receiving\<close>

text \<open>
  The session's side: the packets of one connection in turn, until \<open>ReceiveWith\<close> fails.
\<close>

fun receiveAll :: "'w ext \<Rightarrow> 'w \<Rightarrow> nat \<Rightarrow> string \<Rightarrow> bytes list \<Rightarrow> unit outcome \<times> 'w" where
  "receiveAll E w sess cid [] = (Ok (), w)"
| "receiveAll E w sess cid (m # ms) =
     (case sessReceiveWith E w sess cid m of
        (Ok u, w') \<Rightarrow> receiveAll E w' sess cid ms
      | (Err e, w') \<Rightarrow> (Err e, w')
      | (Panic p, w') \<Rightarrow> (Panic p, w'))"

text \<open>What \<open>handleConn\<close>'s loop ends with: a failure of the session, or the end of the connection.\<close>

fun loopEnd :: "go_error \<Rightarrow> unit outcome \<Rightarrow> go_error outcome" where
  "loopEnd eof (Ok u) = Ok eof"
| "loopEnd eof (Err e) = Ok e"
| "loopEnd eof (Panic p) = Panic p"

text \<open>A client that can decode what arrives on connection \<open>q\<close> for a session with \<open>src\<close>.\<close>

definition canReceive ::
  "'w ext \<Rightarrow> crypto \<Rightarrow> ('w, 'a) client_scheme \<Rightarrow> nat \<Rightarrow> nat \<Rightarrow> bytes \<Rightarrow> NcpConfig \<Rightarrow> Conn \<Rightarrow> bool" where
  "canReceive E C l q sess key sc k \<longleftrightarrow>
     keyring_ok C l \<and> peerKey C (privKey l) (sessRemoteAddr E (world l) sess) = Ok key \<and>
     SessionConfig (config l) = Some sc \<and> mget (conns l) q = Some k"

text \<open>A session keeps its remote address.\<close>

definition remote_constant :: "'w ext \<Rightarrow> nat \<Rightarrow> bool" where
  "remote_constant E sess \<longleftrightarrow>
     (\<forall>w cid m. sessRemoteAddr E (snd (sessReceiveWith E w sess cid m)) sess = sessRemoteAddr E w sess)"

definition packetFits :: "crypto \<Rightarrow> NcpConfig \<Rightarrow> bytes \<times> bytes \<Rightarrow> bool" where
  "packetFits C sc p \<longleftrightarrow> length (snd p) = nonceSize \<and>
     length (snd p) + length (fst p) + Overhead C \<le> unat (MTU sc + word_of_int maxSessionMsgOverhead)"

lemma handleMsg_ok:
  assumes laws: "crypto_laws C" "0 < Overhead C" "remote_constant E sess"
    and l: "canReceive E C l q sess key sc k" "inBytes k = packetFrame C key p @ rest" "packetFits C sc p"
  shows "\<exists>l' k'. handleMsg E C l q sess i = (fst (sessReceiveWith E (world l) sess (connID i) (fst p)), l') \<and>
    world l' = snd (sessReceiveWith E (world l) sess (connID i) (fst p)) \<and>
    canReceive E C l' q sess key sc k' \<and> inBytes k' = rest \<and> inEnd k' = inEnd k"
proof -
  let ?b = "snd p @ Seal C (fst p) (snd p) key" and ?src = "sessRemoteAddr E (world l) sess"
  have fit: "length ?b \<le> unat (MTU sc + word_of_int maxSessionMsgOverhead)"
    using l(3) crypto_lawsD(2) [OF laws(1)] by (simp add: packetFits_def)
  obtain k1 where k1: "readConn l q (MTU sc + word_of_int maxSessionMsgOverhead) =
      (Ok ?b, l\<lparr>conns := mput (conns l) q k1\<rparr>)" "inBytes k1 = rest" "inEnd k1 = inEnd k"
    using readConn_frame [OF _ _ fit, of l q k rest] l(1,2) by (auto simp: canReceive_def packetFrame_def)
  let ?l1 = "l\<lparr>conns := mput (conns l) q k1\<rparr>"
  have ok1: "keyring_ok C ?l1" using l(1) by (simp add: canReceive_def keyring_ok_fields)
  have "fst (decode C ?l1 ?b ?src) = Ok (fst p)"
    using decode_sealed [OF laws(1) ok1, of ?src key "snd p" "fst p"] l(1,3) laws(2)
    by (simp add: canReceive_def packetFits_def)
  moreover obtain ks where ks: "snd (decode C ?l1 ?b ?src) = ?l1\<lparr>sharedKeys := ks\<rparr>" using decode_frame by blast
  ultimately have d: "decode C ?l1 ?b ?src = (Ok (fst p), ?l1\<lparr>sharedKeys := ks\<rparr>)" by (metis prod.collapse)
  have kr: "keyring_ok C (?l1\<lparr>sharedKeys := ks\<rparr>)" using decode_keyring_ok [OF ok1, of ?b ?src] ks by simp
  obtain r w where rw: "sessReceiveWith E (world l) sess (connID i) (fst p) = (r, w)" by fastforce
  have "sessRemoteAddr E w sess = ?src" using laws(3) rw unfolding remote_constant_def by (metis snd_conv)
  then have "canReceive E C (?l1\<lparr>sharedKeys := ks, world := w\<rparr>) q sess key sc k1"
    using l(1) kr by (simp add: canReceive_def keyring_ok_def)
  moreover have "handleMsg E C l q sess i = (r, ?l1\<lparr>sharedKeys := ks, world := w\<rparr>)"
    using k1(1) d rw l(1) by (simp add: handleMsg_def canReceive_def)
  ultimately show ?thesis using rw k1(2,3) by auto
qed

lemma handleMsg_end:
  assumes "canReceive E C l q sess key sc k" "inBytes k = []"
  shows "\<exists>l'. handleMsg E C l q sess i = (Err (inEnd k), l') \<and> world l' = world l"
  using assms readMessage_truncated [of k "MTU sc + word_of_int maxSessionMsgOverhead"]
  by (cases "readMessage k (MTU sc + word_of_int maxSessionMsgOverhead)")
     (simp add: handleMsg_def canReceive_def readConn_def)

lemma handleConn_loop_ok:
  assumes "crypto_laws C" "0 < Overhead C" "remote_constant E sess"
  shows "canReceive E C l q sess key sc k \<Longrightarrow> inBytes k = concat (map (packetFrame C key) ps) \<Longrightarrow>
    \<forall>p\<in>set ps. packetFits C sc p \<Longrightarrow>
    \<exists>l'. handleConn_loop E C l q sess i =
        (loopEnd (inEnd k) (fst (receiveAll E (world l) sess (connID i) (map fst ps))), l') \<and>
      world l' = snd (receiveAll E (world l) sess (connID i) (map fst ps))"
proof (induction ps arbitrary: l k)
  case Nil
  then show ?case using handleMsg_end [of E C l q sess key sc k i] by (subst handleConn_loop.simps) auto
next
  case (Cons p ps)
  obtain r w where rw: "sessReceiveWith E (world l) sess (connID i) (fst p) = (r, w)" by fastforce
  obtain l1 k1 where l1: "handleMsg E C l q sess i = (r, l1)" "world l1 = w"
      "canReceive E C l1 q sess key sc k1" "inBytes k1 = concat (map (packetFrame C key) ps)" "inEnd k1 = inEnd k"
    using handleMsg_ok [OF assms Cons.prems(1), of p "concat (map (packetFrame C key) ps)" i] Cons.prems(2,3) rw by auto
  show ?case
    using Cons.IH [OF l1(3,4)] Cons.prems(3) l1(1,2,5) rw by (subst handleConn_loop.simps) (cases r; auto)
qed

text \<open>Receiving changes the connections, the key cache and the world outside, nothing else.\<close>

lemma handleMsg_keeps:
  "handleMsg E C c q sess i = (x, c') \<Longrightarrow> c' = c\<lparr>conns := conns c', sharedKeys := sharedKeys c', world := world c'\<rparr>"
  by (auto simp: handleMsg_def split: option.splits prod.splits outcome.splits dest!: readConn_keeps decode_keeps)

lemma handleConn_loop_keeps:
  "handleConn_loop E C c q sess i = (x, c') \<Longrightarrow> c' = c\<lparr>conns := conns c', sharedKeys := sharedKeys c', world := world c'\<rparr>"
proof (induction E C c q sess i arbitrary: x c' rule: handleConn_loop.induct)
  case (1 E C c q sess i)
  obtain y c1 where h: "handleMsg E C c q sess i = (y, c1)" by fastforce
  obtain cs ks w where c1: "c1 = c\<lparr>conns := cs, sharedKeys := ks, world := w\<rparr>" using handleMsg_keeps [OF h] by metis
  have loop: "(case y of Ok u \<Rightarrow> handleConn_loop E C c1 q sess i | Err e \<Rightarrow> (Ok e, c1) | Panic p \<Rightarrow> (Panic p, c1)) = (x, c')"
    using 1(2) h by (subst (asm) handleConn_loop.simps) simp
  show ?case
  proof (cases y)
    case (Ok u)
    with loop have "handleConn_loop E C c1 q sess i = (x, c')" by simp
    from 1(1) [OF h [symmetric] Ok this] show ?thesis unfolding c1 by simp
  qed (use loop c1 in auto)
qed

section \<open>Properties\<close>

text \<open>
  C2: packets reach the peer's session. What a session's send callback puts on one of its
  connections, the peer's \<open>handleConn\<close> takes off that connection, whatever the segmentation of
  the stream, decrypts, and hands to its own session, packet by packet and in the order sent;
  it goes on until the session refuses a packet or the connection ends, and returns that error.
  The packets are those within the MTU and overhead the receiver reads with.
\<close>

theorem packets_reach_peer_session:
  assumes "crypto_laws C" "0 < Overhead C" "remote_constant E sess"
    and "canSend C d remote sid cid p key k" "canReceive E C l q sess key sc kq"
    and "\<forall>x\<in>set ps. packetFits C sc x"
  shows "\<exists>d' k'. sendPackets C d remote sid cid t now ps = (Ok (), d') \<and> mget (conns d') p = Some k' \<and>
    (wrSent k' = wrSent k @ inBytes kq \<longrightarrow>
      (\<exists>l'. handleConn_loop E C l q sess i =
          (loopEnd (inEnd kq) (fst (receiveAll E (world l) sess (connID i) (map fst ps))), l') \<and>
        world l' = snd (receiveAll E (world l) sess (connID i) (map fst ps))))"
proof -
  have "\<forall>x\<in>set ps. length (snd x) = nonceSize" using assms(6) by (simp add: packetFits_def)
  from sendPackets_ok [OF assms(1,4) this] obtain d' k' where
    s: "sendPackets C d remote sid cid t now ps = (Ok (), d')" "mget (conns d') p = Some k'"
      "wrSent k' = wrSent k @ concat (map (packetFrame C key) ps)" by blast
  have "\<exists>l'. handleConn_loop E C l q sess i =
          (loopEnd (inEnd kq) (fst (receiveAll E (world l) sess (connID i) (map fst ps))), l') \<and>
        world l' = snd (receiveAll E (world l) sess (connID i) (map fst ps))"
    if "wrSent k' = wrSent k @ inBytes kq"
    using that s(3) handleConn_loop_ok [OF assms(1-3,5) _ assms(6), of i] by simp
  with s(1,2) show ?thesis by blast
qed

text \<open>
  Alice sends three packets on connection 3; they reach Bob's connection 5 in one-byte
  segments, and Bob's session 0 keeps what it receives.
\<close>

definition logExt :: "demo_world ext" where
  "logExt = demoExt\<lparr>sessReceiveWith := (\<lambda>w s cid b. (Ok (), w\<lparr>dwCache := dwCache w @ [string_of_bytes b]\<rparr>))\<rparr>"

definition alicePackets :: "(bytes \<times> bytes) list" where
  "alicePackets = [([1, 2], replicate 24 5), ([], replicate 24 6), ([3], replicate 24 7)]"

lemma alicePackets_fit: "\<forall>x\<in>set alicePackets. packetFits demoCrypto DefaultSessionConfig x"
  by (simp add: packetFits_def alicePackets_def nonceSize_def demoCrypto_def maxSessionMsgOverhead_def
      DefaultSessionConfig_def defaultSessionConfig_def)

lemma logExt_remote: "remote_constant logExt s"
  by (simp add: remote_constant_def logExt_def demoExt_def)

lemma logExt_receives:
  "receiveAll logExt \<lparr>dwCache = [], dwClosed = [], dwRemote = r\<rparr> s cid (map fst alicePackets) =
    (Ok (), \<lparr>dwCache = [string_of_bytes [1, 2], [], string_of_bytes [3]], dwClosed = [], dwRemote = r\<rparr>)"
  by (simp add: logExt_def alicePackets_def string_of_bytes_def)

lemma demo_overhead: "Overhead demoCrypto = 16"
  by (simp add: demoCrypto_def)

definition aliceSends :: "demo_world client" where
  "aliceSends = (demoClient ''alice'')\<lparr>sessionConns := [(sessionKey ''bob'' [1], [(connID 0, 3)])],
     conns := [(3, newConn ''1.2.3.4:80'' [] ErrEOF)]\<rparr>"

definition bobReceives :: "demo_world client" where
  "bobReceives = (demoClient ''bob'')\<lparr>conns := [(5, newConn ''peer''
       (map (\<lambda>b. [b]) (concat (map (packetFrame demoCrypto (demoKey ''bob'' ''alice'')) alicePackets))) ErrEOF)],
     world := \<lparr>dwCache = [], dwClosed = [], dwRemote = [''alice'']\<rparr>\<rparr>"

theorem packets_reach_peer_session_witness:
  "\<exists>l'. handleConn_loop logExt demoCrypto bobReceives 5 0 0 = (Ok ErrEOF, l') \<and>
     dwCache (world l') = [string_of_bytes [1, 2], [], string_of_bytes [3]]"
proof -
  let ?key = "demoKey ''bob'' ''alice''"
  let ?kq = "newConn ''peer'' (map (\<lambda>b. [b]) (concat (map (packetFrame demoCrypto ?key) alicePackets))) ErrEOF"
  have h: "0 < Overhead demoCrypto"
    "canSend demoCrypto aliceSends ''bob'' [1] (connID 0) 3 ?key (newConn ''1.2.3.4:80'' [] ErrEOF)"
    "canReceive logExt demoCrypto bobReceives 5 0 ?key DefaultSessionConfig ?kq"
    by (simp_all add: demo_overhead canSend_def canReceive_def aliceSends_def bobReceives_def demoClient_def mget_def
        keyring_ok_def demo_peerKey demoKey_sym newConn_def logExt_def demoExt_def DefaultConfig_def defaultConfig_def)
  have r: "receiveAll logExt (world bobReceives) 0 (connID 0) (map fst alicePackets) =
      (Ok (), \<lparr>dwCache = [string_of_bytes [1, 2], [], string_of_bytes [3]], dwClosed = [], dwRemote = [''alice'']\<rparr>)"
    by (simp add: bobReceives_def logExt_receives)
  have in': "inBytes ?kq = concat (map (packetFrame demoCrypto ?key) alicePackets)" "inEnd ?kq = ErrEOF"
    by (simp_all add: inBytes_def inEnd_def newConn_def)
  obtain d' k' where d: "sendPackets demoCrypto aliceSends ''bob'' [1] (connID 0) 0 0 alicePackets = (Ok (), d')"
      "mget (conns d') 3 = Some k'" "wrSent k' = inBytes ?kq"
    using sendPackets_ok [OF demoCrypto_laws h(2), of alicePackets 0 0] alicePackets_fit in'(1)
    by (auto simp: packetFits_def newConn_def)
  then show ?thesis
    using packets_reach_peer_session [OF demoCrypto_laws h(1) logExt_remote h(2,3) alicePackets_fit, of 0 0 0] r in'(2) by (auto simp: newConn_def)
qed

end
