(* ===== verification/Session_Machine.thy ===== *)
theory Session_Machine
  imports Dialer
begin

text \<open>
  The goroutines of one client as a machine. A state is the client together with the
  handlers that are running and the dials that are between their two critical sections; ghost
  state remembers the session keys that \<open>removeClosedSessions\<close> has dropped and those whose
  dialed session was registered after the key had been used by somebody else. The steps are
  the critical sections of \<open>client.go\<close>, in any order, with a panic as the result of a step;
  everything that happens outside the lock (traffic on connections, the ncp sessions, time
  passing for the expiring cache) is the step \<open>env\<close>, which may change the heap, the outside
  world, the key cache and the accept channel arbitrarily.
\<close>

section \<open>Closing\<close>

fun closeSessions :: "'w ext \<Rightarrow> (string \<times> nat) list \<Rightarrow> 'w \<Rightarrow> 'w" where
  "closeSessions E [] w = w"
| "closeSessions E ((k, s) # rest) w =
     closeSessions E rest (if sessIsClosed E w s then w else sessClose E w s)"

definition allConns :: "('w, 'a) client_scheme \<Rightarrow> nat list" where
  "allConns c = concat (map (\<lambda>(k, m). map snd m) (sessionConns c))"

text \<open>
  What \<open>Close\<close> does to this part of the client, before (\<open>closeAll\<close>) and when it marks the
  client closed (\<open>markClosed\<close>): closing the channel \<open>onClose\<close> twice would panic.
\<close>

definition closeAll :: "'w ext \<Rightarrow> ('w, 'a) client_scheme \<Rightarrow> ('w, 'a) client_scheme" where
  "closeAll E c =
     closeConns (c\<lparr>world := closeSessions E (sessions c) (world c)\<rparr>) (allConns c)"

definition markClosed :: "('w, 'a) client_scheme \<Rightarrow> ('w, 'a) client_scheme outcome" where
  "markClosed c =
     (if onCloseClosed c then Panic CloseOfClosedChannel
      else Ok (c\<lparr>isClosed := True, onCloseClosed := True\<rparr>))"

section \<open>The machine\<close>

record 'w sys =
  cl :: "'w client"
  active :: "handler list"
  dialing :: "(string \<times> nat) list"
  swept :: "string list"
  crossed :: "string list"

fun sweptKeys :: "'w ext \<Rightarrow> (string \<times> nat) list \<Rightarrow> ('w, 'a) client_scheme \<Rightarrow> string list" where
  "sweptKeys E [] c = []"
| "sweptKeys E ((sessKey, sess) # rest) c =
     (if sessIsClosed E (world c) sess
      then sessKey # sweptKeys E rest (dropSession E (closeConns c (connsOf c sessKey)) sessKey)
      else sweptKeys E rest c)"

definition sys_init :: "'w ext \<Rightarrow> 'w sys \<Rightarrow> bool" where
  "sys_init E s \<longleftrightarrow>
     ext_laws E \<and> active s = [] \<and> dialing s = [] \<and> swept s = [] \<and> crossed s = [] \<and>
     (\<exists>merge T acct a w conf. NewTunaSessionClient merge T acct a w conf = Ok (cl s))"

text \<open>
  A dial makes its session from the connection table it sees (\<open>dial_lookup\<close>) and registers it
  in a second critical section (\<open>dial_register\<close>), with anything in between. A key is
  \<open>crossed\<close> when, at the registration, the connection table is gone or another session has been
  registered under the key: the peer, which learns the session id from the dialed connections,
  has connected to this client under the same id in that window. \<open>set_config\<close> is \<open>SetConfig\<close>
  with whatever the merge gives; \<open>targets_panic\<close> is the loop of \<open>DialWithConfig\<close> over the
  addresses of a reply.
\<close>

inductive sys_step :: "'w ext \<Rightarrow> 'w sys \<Rightarrow> 'w sys outcome \<Rightarrow> bool" for E where
  enter: "handleConn_enter (cl s) conn r sid i = Some (h, c) \<Longrightarrow>
    sys_step E s (Ok (s\<lparr>cl := c, active := h # active s\<rparr>))"
| leave: "h \<in> set (active s) \<Longrightarrow> handleConn_exit E (cl s) h = Ok c \<Longrightarrow>
    sys_step E s (Ok (s\<lparr>cl := c, active := remove1 h (active s)\<rparr>))"
| leave_panic: "h \<in> set (active s) \<Longrightarrow> handleConn_exit E (cl s) h = Panic p \<Longrightarrow>
    sys_step E s (Panic p)"
| sweep: "removeClosedSessions E (cl s) = Some c \<Longrightarrow>
    sys_step E s (Ok (s\<lparr>cl := c, swept := sweptKeys E (sessions (cl s)) (cl s) @ swept s\<rparr>))"
| dial_conn: "sys_step E s (Ok (s\<lparr>cl := dialTcpConn_register (cl s) conn r sid i\<rparr>))"
| dial_lookup: "dialLookup E (cl s) r sid n = (Ok (Some (sess, m)), c) \<Longrightarrow>
    sys_step E s (Ok (s\<lparr>cl := c, dialing := (sessionKey r sid, sess) # dialing s\<rparr>))"
| dial_none: "dialLookup E (cl s) r sid n = (x, c) \<Longrightarrow> x = Ok None \<or> x = Err e \<Longrightarrow>
    sys_step E s (Ok (s\<lparr>cl := c\<rparr>))"
| dial_panic: "dialLookup E (cl s) r sid n = (Panic p, c) \<Longrightarrow> sys_step E s (Panic p)"
| dial_register: "(k, sess) \<in> set (dialing s) \<Longrightarrow>
    sys_step E s (Ok (s\<lparr>cl := dialRegister (cl s) k sess, dialing := remove1 (k, sess) (dialing s),
      crossed := (if mget (sessionConns (cl s)) k = None \<or> mget (sessions (cl s)) k \<noteq> None
        then k # crossed s else crossed s)\<rparr>))"
| targets_panic: "dialTargets (Verbose (config (cl s))) 0 (Addrs (pa :: PubAddrs)) = Panic p \<Longrightarrow> sys_step E s (Panic p)"
| accept: "listenNet_register E (cl s) conn r sid i = Ok (x, c) \<Longrightarrow>
    sys_step E s (Ok (s\<lparr>cl := c\<rparr>))"
| accept_panic: "listenNet_register E (cl s) conn r sid i = Panic p \<Longrightarrow> sys_step E s (Panic p)"
| reply: "takeReply (cl s) r pa = (x, c) \<Longrightarrow> no_panic x \<Longrightarrow> sys_step E s (Ok (s\<lparr>cl := c\<rparr>))"
| reply_panic: "takeReply (cl s) r pa = (Panic p, c) \<Longrightarrow> sys_step E s (Panic p)"
| set_config: "sys_step E s (Ok (s\<lparr>cl := (cl s)\<lparr>config := conf\<rparr>\<rparr>))"
| close: "\<not> isClosed (cl s) \<Longrightarrow> markClosed (closeAll E (cl s)) = Ok c \<Longrightarrow>
    sys_step E s (Ok (s\<lparr>cl := c\<rparr>))"
| close_panic: "\<not> isClosed (cl s) \<Longrightarrow> markClosed (closeAll E (cl s)) = Panic p \<Longrightarrow>
    sys_step E s (Panic p)"
| env: "sys_step E s (Ok (s\<lparr>cl := (cl s)\<lparr>world := w, conns := cs, sharedKeys := ks, acceptSession := q\<rparr>\<rparr>))"

text \<open>
  The invariant: the address counts are exact, so are the session counts of keys never
  swept, every registered session whose key is not crossed has a connection table, the close
  channel is closed exactly when the client is, every cached reply has a usable address, and
  the session of a running handler is the registered one unless its key was swept or crossed.
\<close>

definition counts_ok :: "('w, 'a) client_scheme \<Rightarrow> handler list \<Rightarrow> string list \<Rightarrow> bool" where
  "counts_ok c hs ks \<longleftrightarrow>
     addr_wf (addrConnCount c) \<and> tracks addrCnt (addrConnCount c) (map hAddr hs) \<and>
     (\<forall>k. k \<notin> set ks \<longrightarrow> mget0 (connCount c) k = int (count_list (map hKey hs) k))"

definition tables_ok :: "('w, 'a) client_scheme \<Rightarrow> string list \<Rightarrow> bool" where
  "tables_ok c xs \<longleftrightarrow>
     (\<forall>k. k \<notin> set xs \<longrightarrow> mget (sessionConns c) k = None \<longrightarrow> mget (sessions c) k = None) \<and>
     onCloseClosed c = isClosed c \<and>
     (\<forall>r pa. mget (pubAddrs c) r = Some pa \<longrightarrow> (\<exists>a. Some a \<in> set (Addrs pa) \<and> usableAddr a))"

definition owners_ok :: "('w, 'a) client_scheme \<Rightarrow> handler list \<Rightarrow> string list \<Rightarrow> bool" where
  "owners_ok c hs ks \<longleftrightarrow>
     (\<forall>h\<in>set hs. hKey h \<notin> set ks \<longrightarrow> mget (sessions c) (hKey h) = Some (hSess h))"

definition sys_inv :: "'w ext \<Rightarrow> 'w sys \<Rightarrow> bool" where
  "sys_inv E s \<longleftrightarrow> ext_laws E \<and> counts_ok (cl s) (active s) (swept s) \<and> tables_ok (cl s) (crossed s) \<and>
     owners_ok (cl s) (active s) (swept s @ crossed s)"

section \<open>Every step keeps the invariant\<close>

lemma new_client_fields:
  assumes "NewTunaSessionClient merge T acct a w conf = Ok c"
  shows "sessions c = [] \<and> sessionConns c = [] \<and> connCount c = [] \<and> addrConnCount c = [] \<and>
    pubAddrs c = [] \<and> \<not> isClosed c \<and> \<not> onCloseClosed c"
  using assms by (auto simp: NewTunaSessionClient_def)

lemma sys_init_inv: "sys_init E s \<Longrightarrow> sys_inv E s"
  by (auto simp: sys_init_def sys_inv_def counts_ok_def tables_ok_def owners_ok_def tracks_def addrCnt_def addr_wf_def
      dest!: new_client_fields)

lemma enter_counts:
  assumes "handleConn_enter c conn r sid i = Some (h, c')" "counts_ok c hs ks"
  shows "counts_ok c' (h # hs) ks"
proof -
  have "addrConnCount c' = addrInc (addrConnCount c) (hAddr h)" "connCount c' = mincr (connCount c) (hKey h)"
    using assms(1) by (auto simp: handleConn_enter_def addrInc_def hAddr_def hKey_def Let_def split: option.splits)
  then show ?thesis
    using assms(2) ac.tracks_inc ac.wf_inc by (auto simp: counts_ok_def)
qed

lemma enter_tables:
  "handleConn_enter c conn r sid i = Some (h, c') \<Longrightarrow> tables_ok c xs \<Longrightarrow> tables_ok c' xs"
  by (auto simp: handleConn_enter_def tables_ok_def Let_def split: option.splits)

lemma enter_owners:
  "handleConn_enter c conn r sid i = Some (h, c') \<Longrightarrow> owners_ok c hs ks \<Longrightarrow> owners_ok c' (h # hs) ks"
  by (auto simp: handleConn_enter_def owners_ok_def hKey_def Let_def split: option.splits)

text \<open>What the exit section leaves behind, given that the decrement succeeds.\<close>

lemma exit_eqs:
  assumes "handleConn_exit E c h = Ok c'"
  shows "addrConnCount c' = addrDec (addrConnCount c) (hAddr h)"
    and "connCount c' = connDec (connCount c) (hKey h)"
    and "mget (sessions c') k = (if k = hKey h \<and> mget0 (connCount c) k = 1 then None else mget (sessions c) k)"
    and "mget (sessionConns c') k = None \<longleftrightarrow>
      mget (sessionConns c) k = None \<or> k = hKey h \<and> mget0 (connCount c) k = 1"
    and "onCloseClosed c' = onCloseClosed c" "isClosed c' = isClosed c" "config c' = config c"
    and "mget (pubAddrs c') r = Some pa \<Longrightarrow> mget (pubAddrs c) r = Some pa"
  using assms
  by (auto simp: handleConn_exit_def addrDec_def hAddr_def connDec_def dropSession_def deleteConn_def Let_def
      split: outcome.splits option.splits if_splits)

lemma exit_counts:
  assumes "handleConn_exit E c h = Ok c'" "counts_ok c hs ks" "h \<in> set hs"
  shows "counts_ok c' (remove1 h hs) ks"
proof -
  have mem: "hAddr h \<in> set (map hAddr hs)" "hKey h \<in> set (map hKey hs)" using assms(3) by auto
  note cnt = count_list_map_remove1 [OF assms(3)]
  have "0 < addrCnt (addrConnCount c) (hAddr h)"
    using ac.tracked_pos [OF _ mem(1)] assms(2) unfolding counts_ok_def by blast
  then have "addr_wf (addrConnCount c')"
    using assms(2) ac.wf_dec by (simp add: counts_ok_def exit_eqs [OF assms(1)])
  moreover have "tracks addrCnt (addrConnCount c') (remove1 (hAddr h) (map hAddr hs))"
    using ac.tracks_dec [OF _ _ mem(1)] assms(2) by (simp add: counts_ok_def exit_eqs [OF assms(1)])
  then have "tracks addrCnt (addrConnCount c') (map hAddr (remove1 h hs))"
    by (simp add: tracks_def cnt)
  moreover have "mget0 (connCount c') k = int (count_list (map hKey (remove1 h hs)) k)" if "k \<notin> set ks" for k
  proof -
    have "0 < count_list (map hKey hs) (hKey h)" using mem(2) by (metis count_list_0_iff not_gr_zero)
    then show ?thesis
      using assms(2) that mem(2)
      by (auto simp: counts_ok_def exit_eqs [OF assms(1)] connDec_def Let_def cnt count_list_remove1 of_nat_diff)
  qed
  ultimately show ?thesis by (simp add: counts_ok_def)
qed

lemma exit_tables:
  assumes "handleConn_exit E c h = Ok c'" "tables_ok c xs"
  shows "tables_ok c' xs"
proof -
  have "mget (sessions c') k = None" if "k \<notin> set xs" "mget (sessionConns c') k = None" for k
    using that assms(2) by (auto simp: exit_eqs(3,4) [OF assms(1)] tables_ok_def)
  moreover have "\<exists>a. Some a \<in> set (Addrs pa) \<and> usableAddr a" if "mget (pubAddrs c') r = Some pa" for r pa
    using exit_eqs(8) [OF assms(1) that] assms(2) unfolding tables_ok_def by blast
  ultimately show ?thesis
    using assms(2) exit_eqs(5-7) [OF assms(1)] by (simp add: tables_ok_def)
qed

lemma exit_owners:
  assumes "handleConn_exit E c h = Ok c'" "h \<in> set hs" "counts_ok c hs ks" "owners_ok c hs (ks @ xs)"
  shows "owners_ok c' (remove1 h hs) (ks @ xs)"
proof -
  have "mget0 (connCount c) (hKey h) \<noteq> 1" if "h' \<in> set (remove1 h hs)" "hKey h' = hKey h" "hKey h \<notin> set ks" for h'
  proof -
    have "0 < mget0 (connCount c') (hKey h)"
      using exit_counts [OF assms(1,3,2)] that count_list_map_pos [of "remove1 h hs" hKey "hKey h"]
      by (auto simp: counts_ok_def)
    then show ?thesis by (auto simp: exit_eqs(2) [OF assms(1)] connDec_def Let_def)
  qed
  then show ?thesis
    using assms(4) notin_set_remove1 unfolding owners_ok_def exit_eqs(3) [OF assms(1)] by fastforce
qed

lemma exit_no_panic:
  assumes "counts_ok c hs ks" "h \<in> set hs"
  shows "\<exists>c'. handleConn_exit E c h = Ok c'"
proof -
  have "0 < addrCnt (addrConnCount c) (hAddr h)"
    using assms ac.tracked_pos [of "addrConnCount c" "map hAddr hs" "hAddr h"] by (simp add: counts_ok_def)
  from addrConnDecr_ok [OF this [unfolded hAddr_def]]
  show ?thesis by (auto simp: handleConn_exit_def Let_def)
qed

text \<open>The sweep touches the swept keys only, and those completely.\<close>

lemma dropSession_simps [simp]:
  "mget (sessions (dropSession E c k)) k' = (if k' = k then None else mget (sessions c) k')"
  "mget (sessionConns (dropSession E c k)) k' = (if k' = k then None else mget (sessionConns c) k')"
  "mget0 (connCount (dropSession E c k)) k' = (if k' = k then 0 else mget0 (connCount c) k')"
  "addrConnCount (dropSession E c k) = addrConnCount c" "pubAddrs (dropSession E c k) = pubAddrs c"
  "isClosed (dropSession E c k) = isClosed c" "onCloseClosed (dropSession E c k) = onCloseClosed c"
  "config (dropSession E c k) = config c" "world (dropSession E c k) = cacheAdd E (world c) k"
  by (simp_all add: dropSession_def)

lemma sweep_eqs:
  "mget (sessions (sweepSessions E ss c)) k = (if k \<in> set (sweptKeys E ss c) then None else mget (sessions c) k)"
  "mget (sessionConns (sweepSessions E ss c)) k = (if k \<in> set (sweptKeys E ss c) then None else mget (sessionConns c) k)"
  "mget0 (connCount (sweepSessions E ss c)) k = (if k \<in> set (sweptKeys E ss c) then 0 else mget0 (connCount c) k)"
  "addrConnCount (sweepSessions E ss c) = addrConnCount c" "pubAddrs (sweepSessions E ss c) = pubAddrs c"
  "isClosed (sweepSessions E ss c) = isClosed c" "onCloseClosed (sweepSessions E ss c) = onCloseClosed c"
  "config (sweepSessions E ss c) = config c"
  by (induction E ss c rule: sweepSessions.induct) auto

lemma sweep_counts:
  "counts_ok c hs ks \<Longrightarrow> counts_ok (sweepSessions E ss c) hs (sweptKeys E ss c @ ks)"
  by (simp add: counts_ok_def sweep_eqs)

lemma sweep_tables: "tables_ok c xs \<Longrightarrow> tables_ok (sweepSessions E ss c) xs"
  by (simp add: tables_ok_def sweep_eqs)

lemma sweep_owners: "owners_ok c hs ks \<Longrightarrow> owners_ok (sweepSessions E ss c) hs (sweptKeys E ss c @ ks)"
  by (simp add: owners_ok_def sweep_eqs)

text \<open>Steps that leave the counts alone.\<close>

lemma counts_frame:
  "connCount c' = connCount c \<Longrightarrow> addrConnCount c' = addrConnCount c \<Longrightarrow> counts_ok c' hs ks = counts_ok c hs ks"
  by (simp add: counts_ok_def)

lemma newSession_frame: "newSession E c r ids = (x, c') \<Longrightarrow> \<exists>w. c' = c\<lparr>world := w\<rparr>"
  by (auto simp: newSession_def split: prod.splits)

lemma dialLookup_frame: "dialLookup E c r sid n = (x, c') \<Longrightarrow> \<exists>w. c' = c\<lparr>world := w\<rparr>"
  by (auto simp: dialLookup_def split: go_splits dest!: newSession_frame intro: exI [of _ "world c"])

lemma newSession_no_panic: "ext_laws E \<Longrightarrow> newSession E c r ids \<noteq> (Panic p, c')"
  using ext_lawsD(6) [of E "world c" r ids] by (auto simp: newSession_def split: prod.splits)

lemma dialLookup_no_panic: "ext_laws E \<Longrightarrow> dialLookup E c r sid n \<noteq> (Panic p, c')"
  by (auto simp: dialLookup_def newSession_no_panic split: option.splits prod.splits outcome.splits)

lemma register_tables:
  "tables_ok c xs \<Longrightarrow> mget (sessionConns c) k = None \<Longrightarrow> tables_ok (dialRegister c k sess) (k # xs)"
  "tables_ok c xs \<Longrightarrow> mget (sessionConns c) k \<noteq> None \<Longrightarrow> tables_ok (dialRegister c k sess) xs"
  "tables_ok c xs \<Longrightarrow> tables_ok c (k # xs)"
  by (auto simp: tables_ok_def dialRegister_def)

lemma register_owners:
  "owners_ok c hs (ks @ xs) \<Longrightarrow> owners_ok (dialRegister c k sess) hs (ks @ k # xs)"
  "owners_ok c hs ks \<Longrightarrow> mget (sessions c) k = None \<Longrightarrow> owners_ok (dialRegister c k sess) hs ks"
  by (auto simp: owners_ok_def dialRegister_def)

lemma accept_counts:
  "listenNet_register E c conn r sid i = Ok (x, c') \<Longrightarrow> connCount c' = connCount c \<and> addrConnCount c' = addrConnCount c"
  by (auto simp: listenNet_register_def Let_def split: go_splits
      dest!: newSession_frame)

lemma accept_tables:
  "listenNet_register E c conn r sid i = Ok (x, c') \<Longrightarrow> tables_ok c xs \<Longrightarrow> tables_ok c' xs"
  by (auto simp: listenNet_register_def tables_ok_def Let_def split: go_splits
      dest!: newSession_frame)

lemma accept_owners:
  "listenNet_register E c conn r sid i = Ok (x, c') \<Longrightarrow> owners_ok c hs ks \<Longrightarrow> owners_ok c' hs ks"
  by (auto simp: listenNet_register_def owners_ok_def Let_def split: go_splits
      dest!: newSession_frame bspec)

text \<open>When the registration of an accepted connection panics, and when nothing else does.\<close>

lemma accept_panic_iff:
  assumes "ext_laws E" "tables_ok c xs" "k = sessionKey r sid"
  shows "listenNet_register E c conn r sid i = Panic p \<longleftrightarrow>
    p = NilMapWrite \<and> k \<in> set xs \<and> mget (sessions c) k \<noteq> None \<and> mget (sessionConns c) k = None \<or>
    p = MakeSliceLen (NumTunaListeners (config c)) \<and> NumTunaListeners (config c) < 0 \<and>
      mget (sessions c) k = None \<and> \<not> cacheGet E (world c) k"
proof (cases "mget (sessions c) k")
  case None
  then show ?thesis
    using newSession_no_panic [OF assms(1), of c r]
    by (auto simp: assms(3) listenNet_register_def Let_def split: outcome.split prod.split)
next
  case (Some sess)
  then show ?thesis
    using assms(2) by (auto simp: assms(3) listenNet_register_def tables_ok_def Let_def split: option.split)
qed

lemma someUsable_panic_iff:
  "someUsable as = Panic p \<longleftrightarrow>
   p = NilDereference \<and> (\<exists>us rest. as = map Some us @ None # rest \<and> (\<forall>a\<in>set us. \<not> usableAddr a))"
proof (induction as rule: someUsable.induct)
  case (3 a as)
  have "(\<exists>us rest. Some a # as = map Some us @ None # rest \<and> (\<forall>b\<in>set us. \<not> usableAddr b)) \<longleftrightarrow>
      \<not> usableAddr a \<and> (\<exists>us rest. as = map Some us @ None # rest \<and> (\<forall>b\<in>set us. \<not> usableAddr b))"
    by (fastforce simp: Cons_eq_append_conv Cons_eq_map_conv intro: exI [of _ "a # _"])
  with 3 show ?case by simp
qed (fastforce simp: Cons_eq_append_conv)+

lemma reply_panic_iff:
  "fst (takeReply c r pa) = Panic p \<longleftrightarrow> p = NilDereference \<and> \<not> SessionClosed pa \<and>
     (\<exists>us rest. Addrs pa = map Some us @ None # rest \<and> (\<forall>a\<in>set us. \<not> usableAddr a))"
  unfolding conj_left_commute [of "p = NilDereference" "\<not> SessionClosed pa"] someUsable_panic_iff [symmetric]
  by (auto simp: takeReply_def split: outcome.split bool.split)

lemma targets_panic_iff:
  "dialTargets v i as = Panic p \<longleftrightarrow> p = NilDereference \<and> v \<and> None \<in> set as"
proof (induction v i as rule: dialTargets.induct)
  case (2 v i a as)
  then show ?case
    by (cases a; cases "dialTargets v (i + 1) as") auto
qed simp

lemma reply_frame:
  "takeReply c r pa = (x, c') \<Longrightarrow>
   c' = c \<or> someUsable (Addrs pa) = Ok True \<and> c' = c\<lparr>pubAddrs := mput (pubAddrs c) r pa\<rparr>"
  by (auto simp: takeReply_def split: if_splits outcome.splits bool.splits)

lemma someUsable_True: "someUsable as = Ok True \<Longrightarrow> \<exists>a. Some a \<in> set as \<and> usableAddr a"
  by (induction as rule: someUsable.induct) (auto split: if_splits)

lemma reply_inv:
  "takeReply c r pa = (x, c') \<Longrightarrow> tables_ok c xs \<Longrightarrow> counts_ok c hs ks \<Longrightarrow> owners_ok c hs ys \<Longrightarrow>
   tables_ok c' xs \<and> counts_ok c' hs ks \<and> owners_ok c' hs ys"
  using reply_frame [of c r pa x c'] someUsable_True [of "Addrs pa"]
  by (auto simp: tables_ok_def counts_ok_def owners_ok_def split: if_splits)

lemma closeAll_simps [simp]:
  "sessions (closeAll E c) = sessions c" "sessionConns (closeAll E c) = sessionConns c"
  "connCount (closeAll E c) = connCount c" "addrConnCount (closeAll E c) = addrConnCount c"
  "pubAddrs (closeAll E c) = pubAddrs c" "isClosed (closeAll E c) = isClosed c"
  "onCloseClosed (closeAll E c) = onCloseClosed c" "config (closeAll E c) = config c"
  by (simp_all add: closeAll_def)

lemma sys_invD:
  "sys_inv E s \<Longrightarrow> ext_laws E" "sys_inv E s \<Longrightarrow> counts_ok (cl s) (active s) (swept s)"
  "sys_inv E s \<Longrightarrow> tables_ok (cl s) (crossed s)"
  "sys_inv E s \<Longrightarrow> owners_ok (cl s) (active s) (swept s @ crossed s)"
  by (simp_all add: sys_inv_def)

lemma sys_inv_step: "sys_step E s (Ok t) \<Longrightarrow> sys_inv E s \<Longrightarrow> sys_inv E t"
proof (induction "Ok t :: 'a sys outcome" rule: sys_step.induct)
  case (enter s conn r sid i h c)
  then show ?case by (auto simp: sys_inv_def intro: enter_counts enter_tables enter_owners)
next
  case (leave h s c)
  then show ?case by (auto simp: sys_inv_def intro: exit_counts exit_tables exit_owners)
next
  case (sweep s c)
  then show ?case
    by (auto simp: sys_inv_def removeClosedSessions_def split: if_splits intro: sweep_counts sweep_tables)
      (metis sweep_owners)
next
  case (dial_conn s conn r sid i)
  then show ?case
    by (auto simp: sys_inv_def dialTcpConn_register_def Let_def counts_ok_def tables_ok_def owners_ok_def
        split: if_splits)
next
  case (dial_lookup s r sid n sess m c)
  then show ?case
    by (auto simp: sys_inv_def counts_ok_def tables_ok_def owners_ok_def dest!: dialLookup_frame)
next
  case (dial_none s r sid n x c e)
  then show ?case
    by (auto simp: sys_inv_def counts_ok_def tables_ok_def owners_ok_def dest!: dialLookup_frame)
next
  case (dial_register k sess s)
  have "counts_ok (dialRegister (cl s) k sess) (active s) (swept s)"
    using sys_invD(2) [OF dial_register(3)] by (simp add: counts_ok_def dialRegister_def)
  then show ?case
    using dial_register(3) unfolding dial_register(2) [symmetric]
    by (auto simp: sys_inv_def intro: register_tables register_owners)
next
  case (accept s conn r sid i x c)
  then show ?case
    using accept_counts [OF accept(1)] accept_tables [OF accept(1)] accept_owners [OF accept(1)] counts_frame
    by (fastforce simp: sys_inv_def)
next
  case (reply s r pa x c)
  then show ?case by (auto simp: sys_inv_def dest: reply_inv)
next
  case (close s c)
  then show ?case
    by (auto simp: sys_inv_def markClosed_def counts_ok_def tables_ok_def owners_ok_def split: if_splits)
next
  case (set_config s conf)
  show ?case
    using set_config(2) unfolding set_config(1) [symmetric]
    by (simp add: sys_inv_def counts_ok_def tables_ok_def owners_ok_def)
next
  case (env s w cs ks q)
  show ?case
    using env(2) unfolding env(1) [symmetric] by (simp add: sys_inv_def counts_ok_def tables_ok_def owners_ok_def)
qed

lemma sys_close_no_panic: "tables_ok c xs \<Longrightarrow> \<not> isClosed c \<Longrightarrow> markClosed (closeAll E c) \<noteq> Panic p"
  by (simp add: tables_ok_def markClosed_def)

lemma sys_step_panics:
  "sys_step E s (Panic p) \<Longrightarrow> sys_inv E s \<Longrightarrow>
   p \<in> {NilDereference, NilMapWrite, MakeSliceLen (NumTunaListeners (config (cl s)))}"
proof (induction "Panic p :: 'a sys outcome" rule: sys_step.induct)
  case (leave_panic h s)
  then show ?case using exit_no_panic [of "cl s" "active s" "swept s" h E] by (auto simp: sys_inv_def)
next
  case (dial_panic s r sid n c)
  then show ?case using dialLookup_no_panic [of E "cl s"] by (auto simp: sys_inv_def)
next
  case (targets_panic s pa)
  then show ?case by (simp add: targets_panic_iff)
next
  case (accept_panic s conn r sid i)
  note inv = sys_invD [OF accept_panic(2)]
  from accept_panic(1) show ?case unfolding accept_panic_iff [OF inv(1,3) refl] by auto
next
  case (reply_panic s r pa c)
  then show ?case using reply_panic_iff [of "cl s" r pa p] by simp
next
  case (close_panic s)
  then show ?case using sys_close_no_panic [of "cl s" "crossed s" E p] by (simp add: sys_inv_def)
qed

interpretation sm: invariant_machine "sys_init E" "sys_step E" "sys_inv E" for E
  by unfold_locales (auto intro: sys_init_inv sys_inv_step)

section \<open>An example run\<close>

text \<open>Bob's client accepts a connection of Alice's session 01 and starts handling it.\<close>

definition demoHeap :: "(nat, Conn) gomap" where
  "demoHeap = [(7, newConn ''1.2.3.4:80'' [] ErrEOF)]"

definition demo0 :: "demo_world sys" where
  "demo0 = \<lparr>cl = (demoClient ''bob'')\<lparr>acceptAddrs := []\<rparr>, active = [], dialing = [], swept = [], crossed = []\<rparr>"

definition demo1 :: "demo_world sys" where
  "demo1 = demo0\<lparr>cl := (cl demo0)\<lparr>world := world (cl demo0), conns := demoHeap, sharedKeys := [], acceptSession := []\<rparr>\<rparr>"

definition demo2 :: "demo_world sys" where
  "demo2 = demo1\<lparr>cl := (cl demo1)\<lparr>world := \<lparr>dwCache = [], dwClosed = [], dwRemote = [''alice'']\<rparr>,
     sessions := [(''alice:01'', 0)], sessionConns := [(''alice:01'', [(''0'', 7)])]\<rparr>\<rparr>"

definition demoH :: handler where
  "demoH = \<lparr>hRemote = ''alice'', hSid = [1], hIdx = 0, hConn = 7, hConnStr = ''1.2.3.4:80'', hSess = 0\<rparr>"

definition demo3 :: "demo_world sys" where
  "demo3 = demo2\<lparr>cl := (cl demo2)\<lparr>connCount := [(''alice:01'', 1)],
     addrConnCount := [(''alice'', [(''1.2.3.4:80'', 1)])]\<rparr>, active := [demoH]\<rparr>"

lemmas demo_defs = demo0_def demo1_def demo2_def demo3_def demoH_def demoHeap_def demoClient_def

lemma demo_key: "sessionKey ''alice'' [1] = ''alice:01''" "connID 0 = ''0''"
  by (simp_all add: sessionKey_def connID_def itoa_def natDigits.simps) (simp_all add: hexDigits_def)

lemma demo0_init: "sys_init demoExt demo0"
proof -
  have "NewTunaSessionClient demoMerge demoNames (demoPub ''bob'') ''bob'' (world (cl demo0)) None = Ok (cl demo0)"
    by (simp add: NewTunaSessionClient_def MergedConfig_def demo_defs)
  moreover have "active demo0 = []" "dialing demo0 = []" "swept demo0 = []" "crossed demo0 = []"
    by (simp_all add: demo0_def)
  ultimately show ?thesis unfolding sys_init_def using demoExt_laws by blast
qed

lemma demo3_reachable: "reachable (sys_init demoExt) (sys_step demoExt) demo3"
proof -
  have "reachable (sys_init demoExt) (sys_step demoExt) demo0"
    by (rule reach_start [of "sys_init demoExt", OF demo0_init])
  then have "reachable (sys_init demoExt) (sys_step demoExt) demo1"
    by (rule reach_step) (simp only: demo1_def sys_step.env)
  then have "reachable (sys_init demoExt) (sys_step demoExt) demo2"
  proof (rule reach_step)
    have "listenNet_register demoExt (cl demo1) 7 ''alice'' [1] 0 = Ok (Some (0, True), cl demo2)"
      by (simp add: listenNet_register_def newSession_def demo_key demo_defs demoExt_def gomap_eval
          DefaultConfig_def defaultConfig_def Let_def)
    then have "sys_step demoExt demo1 (Ok (demo1\<lparr>cl := cl demo2\<rparr>))" by (rule sys_step.accept)
    then show "sys_step demoExt demo1 (Ok demo2)" by (simp add: demo2_def)
  qed
  then show ?thesis
  proof (rule reach_step)
    have "handleConn_enter (cl demo2) (Some 7) ''alice'' [1] 0 = Some (demoH, cl demo3)"
      by (simp add: handleConn_enter_def demo_key demo_defs gomap_eval addrConnIncr_def
          newConn_def Let_def)
    then have "sys_step demoExt demo2 (Ok (demo2\<lparr>cl := cl demo3, active := demoH # active demo2\<rparr>))"
      by (rule sys_step.enter)
    then show "sys_step demoExt demo2 (Ok demo3)" by (simp add: demo3_def demo2_def demo1_def demo0_def)
  qed
qed

section \<open>Properties\<close>

text \<open>
  C6: exactly when the client's critical sections panic, in every state that any interleaving
  of handlers, dials, accepts, sweeps, replies, configuration changes and \<open>Close\<close> can reach. The
  decrement in \<open>handleConn\<close>'s deferred function never does, \<open>Close\<close> never closes \<open>onClose\<close> twice,
  and making a dialed session does not. \<open>listenNet\<close>'s registration panics in two cases only: on
  a negative listener count for a new session, and on the nil connection table of a session
  whose key was crossed, that is registered by a dial after the peer had used the key. Reading
  a reply panics exactly when a nil entry comes before every usable address, and starting the
  dials exactly when \<open>Verbose\<close> is set and an entry is nil.
\<close>

theorem client_panics_exactly_when:
  assumes "reachable (sys_init E) (sys_step E) s" "k = sessionKey r sid" "N = NumTunaListeners (config (cl s))"
  shows "(\<forall>h\<in>set (active s). handleConn_exit E (cl s) h \<noteq> Panic p) \<and>
    (\<not> isClosed (cl s) \<longrightarrow> markClosed (closeAll E (cl s)) \<noteq> Panic p) \<and>
    fst (dialLookup E (cl s) r sid n) \<noteq> Panic p \<and>
    (listenNet_register E (cl s) conn r sid i = Panic p \<longleftrightarrow>
      p = NilMapWrite \<and> k \<in> set (crossed s) \<and>
        mget (sessions (cl s)) k \<noteq> None \<and> mget (sessionConns (cl s)) k = None \<or>
      p = MakeSliceLen N \<and> N < 0 \<and> mget (sessions (cl s)) k = None \<and> \<not> cacheGet E (world (cl s)) k) \<and>
    (fst (takeReply (cl s) r pa) = Panic p \<longleftrightarrow>
      p = NilDereference \<and> \<not> SessionClosed pa \<and>
      (\<exists>us rest. Addrs pa = map Some us @ None # rest \<and> (\<forall>a\<in>set us. \<not> usableAddr a))) \<and>
    (dialTargets (Verbose (config (cl s))) 0 (Addrs pa) = Panic p \<longleftrightarrow>
      p = NilDereference \<and> Verbose (config (cl s)) \<and> None \<in> set (Addrs pa)) \<and>
    (sys_step E s (Panic p) \<longrightarrow> p \<in> {NilDereference, NilMapWrite, MakeSliceLen N})"
proof -
  note inv = sm.reachable_inv [OF assms(1)]
  have "handleConn_exit E (cl s) h \<noteq> Panic p" if "h \<in> set (active s)" for h
    using exit_no_panic [OF sys_invD(2) [OF inv] that, of E] by auto
  moreover have "fst (dialLookup E (cl s) r sid n) \<noteq> Panic p"
    using dialLookup_no_panic [OF sys_invD(1) [OF inv], of "cl s" r sid n p] by (metis prod.collapse)
  moreover note accept_panic_iff [OF sys_invD(1) [OF inv] sys_invD(3) [OF inv] assms(2), of conn i p]
  ultimately show ?thesis
    using sys_close_no_panic [OF sys_invD(3) [OF inv], of E p] sys_step_panics [OF _ inv, of p]
    unfolding assms(3) reply_panic_iff targets_panic_iff by blast
qed

text \<open>
  A run into the crossed case. Bob has looked up the connections of a session with Alice that
  he is dialing and made session 1; the connection that Alice opened under that id ends, with
  it her session 0 and the connection table; Bob registers session 1. The next connection that
  Alice opens under the id makes \<open>listenNet\<close> write to a nil map.
\<close>

definition demoX1 :: "demo_world sys" where
  "demoX1 = demo3\<lparr>cl := (cl demo3)\<lparr>world := \<lparr>dwCache = [], dwClosed = [], dwRemote = [''alice'', ''alice'']\<rparr>\<rparr>,
     dialing := [(''alice:01'', 1)]\<rparr>"

definition demoX2 :: "demo_world sys" where
  "demoX2 = demoX1\<lparr>cl := (cl demoX1)\<lparr>
     world := \<lparr>dwCache = [''alice:01''], dwClosed = [0], dwRemote = [''alice'', ''alice'']\<rparr>,
     sessions := [], sessionConns := [], connCount := [], addrConnCount := [], pubAddrs := []\<rparr>, active := []\<rparr>"

definition demoX3 :: "demo_world sys" where
  "demoX3 = demoX2\<lparr>cl := dialRegister (cl demoX2) ''alice:01'' 1, dialing := [], crossed := [''alice:01'']\<rparr>"

lemma demoX3_reachable: "reachable (sys_init demoExt) (sys_step demoExt) demoX3"
proof -
  have "dialLookup demoExt (cl demo3) ''alice'' [1] 1 = (Ok (Some (1, [(''0'', 7)])), cl demoX1)"
    by (simp add: dialLookup_def newSession_def demoX1_def demo_key demo_defs demoExt_def gomap_eval)
  then have "sys_step demoExt demo3
      (Ok (demo3\<lparr>cl := cl demoX1, dialing := (sessionKey ''alice'' [1], 1) # dialing demo3\<rparr>))"
    by (rule sys_step.dial_lookup)
  then have "sys_step demoExt demo3 (Ok demoX1)"
    by (simp add: demoX1_def demo_key demo3_def demo2_def demo1_def demo0_def)
  then have "reachable (sys_init demoExt) (sys_step demoExt) demoX1" by (rule reach_step [OF demo3_reachable])
  moreover have "handleConn_exit demoExt (cl demoX1) demoH = Ok (cl demoX2)"
  proof -
    have f: "connCount (cl demoX1) = [(''alice:01'', 1)]" "sessions (cl demoX1) = [(''alice:01'', 0)]"
      "sessionConns (cl demoX1) = [(''alice:01'', [(''0'', 7)])]" "pubAddrs (cl demoX1) = []"
      "addrConnCount (cl demoX1) = [(''alice'', [(''1.2.3.4:80'', 1)])]"
      "world (cl demoX1) = \<lparr>dwCache = [], dwClosed = [], dwRemote = [''alice'', ''alice'']\<rparr>"
      by (simp_all add: demoX1_def demo3_def demo2_def demo1_def demo0_def demoClient_def)
    have k: "hKey demoH = ''alice:01''" by (simp add: hKey_def demoH_def demo_key)
    have a: "addrConnDecr (addrConnCount (cl demoX1)) (hRemote demoH) (hConnStr demoH) = Ok ([], True)"
      by (simp add: f addrConnDecr_def demoH_def gomap_eval mdecr_def Let_def)
    have "mdel (mdecr (connCount (cl demoX1)) ''alice:01'') ''alice:01'' = []"
      "mget0 (mdecr (connCount (cl demoX1)) ''alice:01'') ''alice:01'' = 0"
      "mdel (deleteConn (sessionConns (cl demoX1)) ''alice:01'' (connID (hIdx demoH))) ''alice:01'' = []"
      "mdel (sessions (cl demoX1)) ''alice:01'' = []" "mdel (pubAddrs (cl demoX1)) (hRemote demoH) = []"
      by (simp_all add: f deleteConn_def gomap_eval mdecr_def)
    moreover have "hSess demoH = 0" by (simp add: demoH_def)
    moreover have "sessClose demoExt (cacheAdd demoExt (world (cl demoX1)) ''alice:01'') 0 =
        \<lparr>dwCache = [''alice:01''], dwClosed = [0], dwRemote = [''alice'', ''alice'']\<rparr>"
      by (simp add: demoExt_def f(6))
    ultimately show ?thesis by (simp add: handleConn_exit_def a k dropSession_def demoX2_def Let_def)
  qed
  then have "sys_step demoExt demoX1 (Ok (demoX1\<lparr>cl := cl demoX2, active := remove1 demoH (active demoX1)\<rparr>))"
    by (intro sys_step.leave) (simp_all add: demoX1_def demo3_def)
  then have "sys_step demoExt demoX1 (Ok demoX2)" by (simp add: demoX1_def demoX2_def demo3_def)
  ultimately have "reachable (sys_init demoExt) (sys_step demoExt) demoX2" by (rule reach_step)
  moreover have "sys_step demoExt demoX2 (Ok (demoX2\<lparr>cl := dialRegister (cl demoX2) ''alice:01'' 1,
      dialing := remove1 (''alice:01'', 1) (dialing demoX2),
      crossed := (if mget (sessionConns (cl demoX2)) ''alice:01'' = None \<or> mget (sessions (cl demoX2)) ''alice:01'' \<noteq> None
        then ''alice:01'' # crossed demoX2 else crossed demoX2)\<rparr>))"
    by (rule sys_step.dial_register) (simp add: demoX1_def demoX2_def)
  then have "sys_step demoExt demoX2 (Ok demoX3)"
    by (simp add: demoX1_def demoX2_def demoX3_def demo3_def demo2_def demo1_def demo0_def gomap_eval)
  ultimately show ?thesis by (rule reach_step)
qed

theorem client_panics_exactly_when_witness:
  "listenNet_register demoExt (cl demoX3) 8 ''alice'' [1] 1 = Panic NilMapWrite \<and>
   handleConn_exit demoExt (cl demo3) demoH \<noteq> Panic NilMapWrite \<and>
   listenNet_register demoExt (cl demo3) 8 ''alice'' [1] 1 \<noteq> Panic NilMapWrite"
proof -
  have "mget (sessions (cl demoX3)) ''alice:01'' \<noteq> None" "mget (sessionConns (cl demoX3)) ''alice:01'' = None"
    "''alice:01'' \<in> set (crossed demoX3)"
    by (simp_all add: demoX3_def demoX2_def dialRegister_def gomap_eval)
  then have "listenNet_register demoExt (cl demoX3) 8 ''alice'' [1] 1 = Panic NilMapWrite"
    using client_panics_exactly_when [OF demoX3_reachable, of "''alice:01''" "''alice''" "[1]" _ NilMapWrite 0 8 1]
    by (simp add: demo_key)
  moreover have "demoH \<in> set (active demo3)" "crossed demo3 = []" by (simp_all add: demo_defs)
  ultimately show ?thesis
    using client_panics_exactly_when [OF demo3_reachable, of "''alice:01''" "''alice''" "[1]" _ NilMapWrite 0 8 1]
    by (simp add: demo_key)
qed

text \<open>
  C8: the nested counter is exact. In every reachable state \<open>addrConnCount[r][a]\<close> is the
  number of handlers running for remote address \<open>r\<close> over TCP address \<open>a\<close>, entries are
  present only while positive, and \<open>r\<close> itself has an entry only while it has a handler.
\<close>

theorem address_counts_exact:
  assumes "reachable (sys_init E) (sys_step E) s"
  shows "addrCnt (addrConnCount (cl s)) (r, a) =
      int (length (filter (\<lambda>h. hRemote h = r \<and> hConnStr h = a) (active s))) \<and>
    (mget (addrConnCount (cl s)) r \<noteq> None \<longleftrightarrow> (\<exists>h\<in>set (active s). hRemote h = r))"
proof -
  have inv: "addr_wf (addrConnCount (cl s))" "tracks addrCnt (addrConnCount (cl s)) (map hAddr (active s))"
    using sm.reachable_inv [OF assms] by (simp_all add: sys_inv_def counts_ok_def)
  have len: "count_list (map hAddr hs) (r, b) = length (filter (\<lambda>h. hRemote h = r \<and> hConnStr h = b) hs)" for hs b
    by (induction hs) (auto simp: hAddr_def)
  have cnt: "addrCnt (addrConnCount (cl s)) (r, b) =
      int (length (filter (\<lambda>h. hRemote h = r \<and> hConnStr h = b) (active s)))" for b
    using inv(2) len by (simp add: tracks_def)
  have "\<exists>h\<in>set (active s). hRemote h = r" if tc: "mget (addrConnCount (cl s)) r = Some tc" for tc
  proof -
    obtain b v where "mget tc b = Some v" "0 < v"
      using inv(1) tc empty_iff_no_key [of tc] unfolding addr_wf_def by fastforce
    then have "0 < length (filter (\<lambda>h. hRemote h = r \<and> hConnStr h = b) (active s))"
      using cnt [of b] tc by (simp add: addrCnt_def mget0_def)
    then show ?thesis by (auto simp: filter_empty_conv)
  qed
  moreover have "mget (addrConnCount (cl s)) r \<noteq> None" if "h \<in> set (active s)" "hRemote h = r" for h
    using that ac.tracked_pos [OF inv(2), of "hAddr h"] by (auto simp: addrCnt_def hAddr_def split: option.splits)
  ultimately show ?thesis using cnt by blast
qed

theorem address_counts_exact_witness:
  "addrCnt (addrConnCount (cl demo3)) (''alice'', ''1.2.3.4:80'') = 1 \<and>
   mget (addrConnCount (cl demo3)) ''carol'' = None"
  using address_counts_exact [OF demo3_reachable, of "''alice''" "''1.2.3.4:80''"]
    address_counts_exact [OF demo3_reachable, of "''carol''" "[]"]
  by (auto simp: demo3_def demoH_def)

text \<open>
  C9: cached public addresses are only served while they are all in use. Whatever
  \<open>getCachedPubAddrs\<close> returns for a peer has no nil entry, has a usable address, and every
  address in it has a handler running on a connection to exactly that address.
\<close>

theorem cached_addresses_are_live:
  assumes "reachable (sys_init E) (sys_step E) s" "getCachedPubAddrs (cl s) r = Some pa"
  shows "(\<forall>a\<in>set (Addrs pa). \<exists>p. a = Some p \<and>
      (\<exists>h\<in>set (active s). hRemote h = r \<and> hConnStr h = PubAddr_String p)) \<and>
    (\<exists>p. Some p \<in> set (Addrs pa) \<and> usableAddr p)"
proof -
  have inv: "tracks addrCnt (addrConnCount (cl s)) (map hAddr (active s))" "tables_ok (cl s) (crossed s)"
    using sm.reachable_inv [OF assms(1)] by (simp_all add: sys_inv_def counts_ok_def)
  have c: "mget (pubAddrs (cl s)) r = Some pa" "cachedLive (cl s) r (Addrs pa)"
    using assms(2) by (auto simp: getCachedPubAddrs_def split: option.splits if_splits)
  have "\<exists>h\<in>set (active s). hRemote h = r \<and> hConnStr h = PubAddr_String p"
    if "0 < addrCnt (addrConnCount (cl s)) (r, PubAddr_String p)" for p
  proof -
    have "count_list (map hAddr (active s)) (r, PubAddr_String p) \<noteq> 0"
      using that inv(1) by (simp add: tracks_def)
    then show ?thesis by (auto simp: count_list_0_iff hAddr_def)
  qed
  then show ?thesis using c inv(2) unfolding cachedLive_iff tables_ok_def by blast
qed

text \<open>Bob holds Alice's address from a reply, and serves it while the handler runs.\<close>

definition demoPubAddrs :: PubAddrs where
  "demoPubAddrs = \<lparr>Addrs = [Some \<lparr>IP = ''1.2.3.4'', Port = 80, InPrice = [], OutPrice = []\<rparr>], SessionClosed = False\<rparr>"

definition demo4 :: "demo_world sys" where
  "demo4 = demo3\<lparr>cl := (cl demo3)\<lparr>pubAddrs := [(''alice'', demoPubAddrs)]\<rparr>\<rparr>"

lemma demo_addr_string: "PubAddr_String \<lparr>IP = ''1.2.3.4'', Port = 80, InPrice = [], OutPrice = []\<rparr> = ''1.2.3.4:80''"
  by (simp add: PubAddr_String_def itoa_def natDigits.simps) (simp add: hexDigits_def)

lemma demo4_reachable: "reachable (sys_init demoExt) (sys_step demoExt) demo4"
  using demo3_reachable
proof (rule reach_step)
  have "takeReply (cl demo3) ''alice'' demoPubAddrs = (Ok demoPubAddrs, cl demo4)"
    by (simp add: takeReply_def demoPubAddrs_def usableAddr_def demo4_def demo_defs mput_def)
  then have "sys_step demoExt demo3 (Ok (demo3\<lparr>cl := cl demo4\<rparr>))" by (rule sys_step.reply) simp
  then show "sys_step demoExt demo3 (Ok demo4)" by (simp add: demo4_def)
qed

theorem cached_addresses_are_live_witness:
  "getCachedPubAddrs (cl demo4) ''alice'' = Some demoPubAddrs \<and>
   (\<exists>h\<in>set (active demo4). hConnStr h = ''1.2.3.4:80'')"
proof -
  have "getCachedPubAddrs (cl demo4) ''alice'' = Some demoPubAddrs"
    by (simp add: getCachedPubAddrs_def demo4_def demo3_def demoPubAddrs_def gomap_eval demo_addr_string)
  with cached_addresses_are_live [OF demo4_reachable this] show ?thesis
    by (auto simp: demoPubAddrs_def demo_addr_string)
qed

text \<open>What one handler's exit does to its session, while no sweep has dropped the key.\<close>

lemma exit_ends_session:
  assumes "sys_inv E s" "h \<in> set (active s)" "hKey h \<notin> set (swept s)"
  shows "\<exists>c. handleConn_exit E (cl s) h = Ok c \<and>
    (if \<exists>h'\<in>set (remove1 h (active s)). hKey h' = hKey h
     then mget (sessions c) (hKey h) = mget (sessions (cl s)) (hKey h) \<and> world c = world (cl s)
     else mget (sessions c) (hKey h) = None \<and> mget (sessionConns c) (hKey h) = None \<and>
       mget (connCount c) (hKey h) = None \<and> IsSessClosed E c (hKey h) \<and> sessIsClosed E (world c) (hSess h))"
proof -
  note inv = assms(1)
  obtain c where c: "handleConn_exit E (cl s) h = Ok c"
    using exit_no_panic [OF sys_invD(2) [OF inv] assms(2)] by blast
  have "counts_ok c (remove1 h (active s)) (swept s)"
    by (rule exit_counts [OF c sys_invD(2) [OF inv] assms(2)])
  then have n: "mget0 (connCount c) (hKey h) = int (count_list (map hKey (remove1 h (active s))) (hKey h))"
    using assms(3) by (simp add: counts_ok_def)
  have m: "mget0 (connCount c) (hKey h) = mget0 (connCount (cl s)) (hKey h) - 1"
    by (simp add: exit_eqs(2) [OF c] connDec_def Let_def)
  have others: "(\<exists>h'\<in>set (remove1 h (active s)). hKey h' = hKey h) \<longleftrightarrow> mget0 (connCount (cl s)) (hKey h) \<noteq> 1"
    using n m count_list_map_pos [of "remove1 h (active s)" hKey "hKey h"] by linarith
  show ?thesis
    using c others ext_lawsD [OF sys_invD(1) [OF inv]]
    by (auto simp: handleConn_exit_def IsSessClosed_def dropSession_def deleteConn_def Let_def
        split: outcome.splits if_splits option.splits)
qed

text \<open>The sweep records every key it drops, and finds the session closed.\<close>

lemma sweep_world:
  "ext_laws E \<Longrightarrow> sessIsClosed E (world (sweepSessions E ss c)) x = sessIsClosed E (world c) x"
  "ext_laws E \<Longrightarrow> cacheGet E (world c) k \<Longrightarrow> cacheGet E (world (sweepSessions E ss c)) k"
  by (induction E ss c rule: sweepSessions.induct) (auto simp: ext_lawsD)

lemma sweep_closed:
  "ext_laws E \<Longrightarrow> k \<in> set (sweptKeys E ss c) \<Longrightarrow>
   cacheGet E (world (sweepSessions E ss c)) k \<and> (\<exists>x. (k, x) \<in> set ss \<and> sessIsClosed E (world c) x)"
  by (induction E ss c rule: sweptKeys.induct) (auto simp: ext_lawsD sweep_world split: if_splits)

text \<open>Only a handler's exit and the sweep take a session out of the table.\<close>

lemma removing_step:
  assumes "sys_step E s (Ok t)" "mget (sessions (cl s)) k = Some x" "mget (sessions (cl t)) k = None"
  shows "(\<exists>h\<in>set (active s). hKey h = k \<and> handleConn_exit E (cl s) h = Ok (cl t) \<and> active t = remove1 h (active s)) \<or>
    cl t = sweepSessions E (sessions (cl s)) (cl s) \<and> k \<in> set (sweptKeys E (sessions (cl s)) (cl s))"
  using assms
proof (induction "Ok t :: 'a sys outcome" rule: sys_step.induct)
  case (enter s conn r sid i h c)
  then show ?case by (auto simp: handleConn_enter_def Let_def split: option.splits)
next
  case (leave h s c)
  then show ?case using exit_eqs(3) [OF leave(2), of k] by (auto split: if_splits)
next
  case (sweep s c)
  then show ?case by (auto simp: removeClosedSessions_def sweep_eqs(1) split: if_splits)
next
  case (reply s r pa x' c)
  then show ?case using reply_frame [OF reply(1)] by auto
next
  case (close s c)
  then show ?case by (auto simp: markClosed_def split: if_splits)
next
  case (accept s conn r sid i y c)
  then show ?case
    by (auto simp: listenNet_register_def Let_def split: go_splits dest!: newSession_frame)
qed (auto simp: dialTcpConn_register_def dialRegister_def Let_def dest!: dialLookup_frame split: if_splits)

text \<open>
  C29: a handler serves the registered session. In every reachable state the session that a
  running handler feeds is the one registered under its key, and the session has a connection
  table, unless \<open>removeClosedSessions\<close> has dropped a session of that key (because it was closed)
  or the key was crossed by a dial. So every connection of a session delivers to the one session
  that \<open>AcceptSession\<close> or \<open>Dial\<close> gave to the application.
\<close>

theorem handlers_have_sessions:
  assumes "reachable (sys_init E) (sys_step E) s" "h \<in> set (active s)"
    and "hKey h \<notin> set (swept s)" "hKey h \<notin> set (crossed s)"
  shows "mget (sessions (cl s)) (hKey h) = Some (hSess h) \<and> mget (sessionConns (cl s)) (hKey h) \<noteq> None \<and>
    (\<forall>h'\<in>set (active s). hKey h' = hKey h \<longrightarrow> hSess h' = hSess h)"
proof -
  note inv = sm.reachable_inv [OF assms(1)]
  have o: "mget (sessions (cl s)) (hKey h) = Some (hSess h')" if "h' \<in> set (active s)" "hKey h' = hKey h" for h'
    using sys_invD(4) [OF inv] assms(3,4) that unfolding owners_ok_def by force
  have "mget (sessionConns (cl s)) (hKey h) \<noteq> None"
    using sys_invD(3) [OF inv] assms(4) o [OF assms(2) refl] by (auto simp: tables_ok_def)
  then show ?thesis using o o [OF assms(2) refl] by auto
qed

theorem handlers_have_sessions_witness:
  "mget (sessions (cl demo3)) ''alice:01'' = Some (hSess demoH) \<and> mget (sessionConns (cl demo3)) ''alice:01'' \<noteq> None"
proof -
  have "hKey demoH = ''alice:01''" by (simp add: hKey_def demoH_def demo_key)
  then show ?thesis
    using handlers_have_sessions [OF demo3_reachable, of demoH] by (simp add: demo3_def demo2_def demo1_def demo0_def)
qed

text \<open>What an exit does to the cached addresses.\<close>

lemma exit_cache:
  assumes "sys_inv E s" "h \<in> set (active s)" "handleConn_exit E (cl s) h = Ok c"
  shows "mget (pubAddrs c) (hRemote h) =
      (if \<exists>h'\<in>set (remove1 h (active s)). hAddr h' = hAddr h then mget (pubAddrs (cl s)) (hRemote h) else None) \<and>
    (\<forall>r. r \<noteq> hRemote h \<longrightarrow> mget (pubAddrs c) r = mget (pubAddrs (cl s)) r)"
proof -
  note inv = assms(1)
  obtain m gone where d: "addrConnDecr (addrConnCount (cl s)) (hRemote h) (hConnStr h) = Ok (m, gone)"
    using assms(3) by (auto simp: handleConn_exit_def Let_def split: outcome.splits)
  have g: "gone \<longleftrightarrow> addrCnt (addrConnCount (cl s)) (hAddr h) \<le> 1"
    using d by (auto simp: addrConnDecr_def addrCnt_def hAddr_def Let_def split: option.splits if_splits)
  have "addrCnt (addrConnCount (cl s)) (hAddr h) = int (count_list (map hAddr (active s)) (hAddr h))"
    using sys_invD(2) [OF inv] unfolding counts_ok_def tracks_def by blast
  also have "count_list (map hAddr (active s)) (hAddr h) =
      Suc (count_list (map hAddr (remove1 h (active s))) (hAddr h))"
    using assms(2) count_list_0_iff [of "map hAddr (active s)" "hAddr h"]
    by (simp add: count_list_map_remove1 count_list_remove1)
  finally have "gone \<longleftrightarrow> \<not> (\<exists>h'\<in>set (remove1 h (active s)). hAddr h' = hAddr h)"
    using g count_list_map_pos [of "remove1 h (active s)" hAddr "hAddr h"] by linarith
  then show ?thesis
    using assms(3) d by (auto simp: handleConn_exit_def dropSession_def Let_def split: if_splits)
qed

text \<open>
  C12: when the last handler on some TCP address of a peer leaves, the peer's cached public
  addresses are evicted, so the next dial asks the peer again; as long as another handler
  runs on that address, the cache entry stays.
\<close>

theorem cache_evicted_with_address:
  assumes "reachable (sys_init E) (sys_step E) s" "h \<in> set (active s)"
    and "handleConn_exit E (cl s) h = Ok c"
  shows "mget (pubAddrs c) (hRemote h) =
      (if \<exists>h'\<in>set (remove1 h (active s)). hAddr h' = hAddr h then mget (pubAddrs (cl s)) (hRemote h) else None) \<and>
    (\<forall>r. r \<noteq> hRemote h \<longrightarrow> mget (pubAddrs c) r = mget (pubAddrs (cl s)) r)"
  using exit_cache [OF sm.reachable_inv [OF assms(1)] assms(2,3)] .

theorem cache_evicted_with_address_witness:
  "\<exists>c. handleConn_exit demoExt (cl demo4) demoH = Ok c \<and> mget (pubAddrs c) ''alice'' = None"
proof -
  have "demoH \<in> set (active demo4)" by (simp add: demo4_def demo3_def)
  moreover from this obtain c where "handleConn_exit demoExt (cl demo4) demoH = Ok c"
    using exit_no_panic [OF sys_invD(2) [OF sm.reachable_inv [OF demo4_reachable]]] by blast
  ultimately show ?thesis
    using cache_evicted_with_address [OF demo4_reachable, of demoH c] by (auto simp: demo4_def demo3_def demoH_def)
qed

text \<open>
  A session that \<open>removeClosedSessions\<close> drops while a handler is still running leaves a
  negative count behind. The sweep deletes \<open>connCount[k]\<close>; the handler's deferred decrement
  then starts from 0, stores -1, does not see 0, and nothing ever deletes that entry.
\<close>

lemma swept_session_leaves_negative_count:
  assumes "mget (connCount c) (hKey h) = None" "handleConn_exit E c h = Ok c'"
  shows "mget (connCount c') (hKey h) = Some (- 1) \<and> mget (sessions c') (hKey h) = mget (sessions c) (hKey h) \<and>
    world c' = world c"
  using assms by (auto simp: handleConn_exit_def mget0_def Let_def split: outcome.splits)

text \<open>Alice's session closes by itself, the sweep runs, then Bob's handler leaves.\<close>

definition demo5 :: "demo_world client" where
  "demo5 = sweepSessions demoExt (sessions (cl demo3))
     ((cl demo3)\<lparr>world := \<lparr>dwCache = [], dwClosed = [0], dwRemote = [''alice'']\<rparr>\<rparr>)"

lemma swept_session_leaves_negative_count_witness:
  "\<exists>c. handleConn_exit demoExt demo5 demoH = Ok c \<and> mget (connCount c) ''alice:01'' = Some (- 1)"
proof -
  have k: "hKey demoH = ''alice:01''" by (simp add: hKey_def demoH_def demo_key)
  have "counts_ok (cl demo3) [demoH] (swept demo3)"
    using sys_invD(2) [OF sm.reachable_inv [OF demo3_reachable]] by (simp add: demo3_def)
  then have "counts_ok ((cl demo3)\<lparr>world := w\<rparr>) [demoH] (swept demo3)" for w
    by (simp add: counts_ok_def)
  then obtain c where c: "handleConn_exit demoExt demo5 demoH = Ok c"
    unfolding demo5_def using exit_no_panic [OF sweep_counts] by (metis list.set_intros(1))
  moreover have "mget (connCount demo5) ''alice:01'' = None"
    by (simp add: demo5_def demo3_def demo2_def demo1_def demo0_def demoExt_def dropSession_def demoClient_def
        gomap_eval connsOf_def closeConn_def demoHeap_def)
  ultimately show ?thesis
    using swept_session_leaves_negative_count [of demo5 demoH demoExt c] by (simp add: k)
qed

end
