(* ===== verification/Registry_Types.thy ===== *)
theory Registry_Types
  imports Session_Machine
begin

text \<open>
  The typing of the client's maps. Go's maps have each key once; the association lists that
  stand for them have this as an invariant of the machine of \<open>Session_Machine\<close>. What it is
  good for is the loops over maps, whose order Go leaves open: the sweep of
  \<open>removeClosedSessions\<close> does the same in every order. How a session ends, by its last handler or
  by the sweep, follows.
\<close>

section \<open>Every map has each key once\<close>

definition mwf2 :: "('k, ('l, 'v) gomap) gomap \<Rightarrow> bool" where
  "mwf2 mm \<longleftrightarrow> mwf mm \<and> (\<forall>k m. mget mm k = Some m \<longrightarrow> mwf m)"

lemma mwf2_Nil [simp]: "mwf2 []"
  by (simp add: mwf2_def)

lemma mwf2_mput [simp]: "mwf2 mm \<Longrightarrow> mwf m \<Longrightarrow> mwf2 (mput mm k m)"
  by (simp add: mwf2_def)

lemma mwf2_mdel [simp]: "mwf2 mm \<Longrightarrow> mwf2 (mdel mm k)"
  by (simp add: mwf2_def)

lemma mwf2_inner: "mwf2 mm \<Longrightarrow> mget mm k = Some m \<Longrightarrow> mwf m"
  by (simp add: mwf2_def)

lemma mwf_count [simp]: "mwf m \<Longrightarrow> mwf (mincr m k)" "mwf m \<Longrightarrow> mwf (mdecr m k)"
  by (simp_all add: mincr_def mdecr_def)

lemma mwf_single [simp]: "mwf [(k, v)]"
  by (simp add: mwf_def)

lemmas mwf2_keep = mwf2_mput mwf2_mdel mwf_mput mwf_mdel mwf_count mwf2_inner

definition maps_wf :: "('w, 'a) client_scheme \<Rightarrow> bool" where
  "maps_wf c \<longleftrightarrow> mwf (sessions c) \<and> mwf2 (sessionConns c) \<and> mwf (connCount c) \<and> mwf (pubAddrs c) \<and>
     mwf2 (addrConnCount c)"

lemma maps_wf_init: "sys_init E s \<Longrightarrow> maps_wf (cl s)"
  by (auto simp: sys_init_def maps_wf_def dest!: new_client_fields)

lemma mwf2_addrConnIncr: "mwf2 m \<Longrightarrow> mwf2 (addrConnIncr m r a)"
  by (auto simp: addrConnIncr_def intro: mwf2_keep split: option.split)

lemma mwf2_addrConnDecr: "addrConnDecr m r a = Ok (m', ev) \<Longrightarrow> mwf2 m \<Longrightarrow> mwf2 m'"
  by (auto simp: addrConnDecr_def Let_def intro: mwf2_keep split: option.splits if_splits)

lemma mwf2_deleteConn: "mwf2 m \<Longrightarrow> mwf2 (deleteConn m k cid)"
  by (auto simp: deleteConn_def intro: mwf2_keep split: option.split)

lemma maps_wf_dropSession [simp]: "maps_wf c \<Longrightarrow> maps_wf (dropSession E c k)"
  by (simp add: maps_wf_def dropSession_def)

lemma maps_wf_closeConns [simp]: "maps_wf (closeConns c ps) = maps_wf c"
  by (simp add: maps_wf_def)

lemma maps_wf_enter: "handleConn_enter c conn r sid i = Some (h, c') \<Longrightarrow> maps_wf c \<Longrightarrow> maps_wf c'"
  by (auto simp: handleConn_enter_def maps_wf_def mwf2_addrConnIncr Let_def split: option.splits)

lemma maps_wf_exit:
  assumes "handleConn_exit E c h = Ok c'" "maps_wf c"
  shows "maps_wf c'"
  using assms
  by (auto simp: handleConn_exit_def maps_wf_def dropSession_def mwf2_deleteConn Let_def
      dest: mwf2_addrConnDecr split: outcome.splits if_splits)

lemma maps_wf_sweep: "maps_wf c \<Longrightarrow> maps_wf (sweepSessions E ss c)"
  by (induction E ss c rule: sweepSessions.induct) auto

lemma maps_wf_dial_conn: "maps_wf c \<Longrightarrow> maps_wf (dialTcpConn_register c conn r sid i)"
  by (auto simp: dialTcpConn_register_def maps_wf_def Let_def intro: mwf2_keep split: option.split)

lemma maps_wf_dial_lookup: "dialLookup E c r sid n = (x, c') \<Longrightarrow> maps_wf c \<Longrightarrow> maps_wf c'"
  by (auto simp: maps_wf_def dest!: dialLookup_frame)

lemma maps_wf_dial_register: "maps_wf c \<Longrightarrow> maps_wf (dialRegister c k sess)"
  by (simp add: maps_wf_def dialRegister_def)

lemma mwf2_extend: "mwf2 mm \<Longrightarrow> mget mm k = Some m \<Longrightarrow> mwf2 (mput mm k (mput m l v))"
  by (blast intro: mwf2_keep)

lemma maps_wf_accept: "listenNet_register E c conn r sid i = Ok (x, c') \<Longrightarrow> maps_wf c \<Longrightarrow> maps_wf c'"
  by (auto simp: listenNet_register_def maps_wf_def mwf2_extend Let_def split: go_splits dest!: newSession_frame dest: mwf2_inner)

lemma maps_wf_reply: "takeReply c r pa = (x, c') \<Longrightarrow> maps_wf c \<Longrightarrow> maps_wf c'"
  using reply_frame [of c r pa x c'] by (auto simp: maps_wf_def)

lemma maps_wf_step: "sys_step E s (Ok t) \<Longrightarrow> maps_wf (cl s) \<Longrightarrow> maps_wf (cl t)"
proof (induction "Ok t :: 'a sys outcome" rule: sys_step.induct)
  case (close s c)
  then show ?case by (auto simp: markClosed_def maps_wf_def split: if_splits)
next
  case (set_config s conf)
  show ?case using set_config(2) unfolding set_config(1) [symmetric] by (simp add: maps_wf_def)
next
  case (env s w cs ks q)
  show ?case using env(2) unfolding env(1) [symmetric] by (simp add: maps_wf_def)
qed (auto simp: removeClosedSessions_def split: if_splits
    intro: maps_wf_enter maps_wf_exit maps_wf_sweep maps_wf_dial_conn maps_wf_dial_lookup maps_wf_dial_register maps_wf_accept maps_wf_reply)

interpretation wm: invariant_machine "sys_init E" "sys_step E" "\<lambda>s. maps_wf (cl s)" for E
  by unfold_locales (auto intro: maps_wf_init maps_wf_step)

section \<open>The sweep in any order\<close>

lemma connsOf_drop: "k' \<noteq> k \<Longrightarrow> connsOf (dropSession E (closeConns c ps) k) k' = connsOf c k'"
  by (simp add: connsOf_def)

lemma connIsClosed_dropSession [simp]: "connIsClosed (dropSession E c k) p = connIsClosed c p"
  by (simp add: connIsClosed_def dropSession_def)

definition closedIn :: "'w ext \<Rightarrow> (string \<times> nat) list \<Rightarrow> 'w \<Rightarrow> string \<Rightarrow> bool" where
  "closedIn E ss w k \<longleftrightarrow> (\<exists>x. (k, x) \<in> set ss \<and> sessIsClosed E w x)"

lemma closedIn_Cons: "closedIn E ((k, x) # ss) w k' \<longleftrightarrow> k' = k \<and> sessIsClosed E w x \<or> closedIn E ss w k'"
  by (auto simp: closedIn_def)

lemma closedIn_Nil: "\<not> closedIn E [] w k"
  by (simp add: closedIn_def)

lemma closedIn_key: "k \<notin> fst ` set ss \<Longrightarrow> \<not> closedIn E ss w k"
  by (force simp: closedIn_def)

lemma closedIn_drop: "ext_laws E \<Longrightarrow> closedIn E ss (cacheAdd E w k) = closedIn E ss w"
  by (rule ext) (simp add: closedIn_def ext_lawsD)

lemma sweptKeys_spec: "ext_laws E \<Longrightarrow> k \<in> set (sweptKeys E ss c) \<longleftrightarrow> closedIn E ss (world c) k"
  by (induction E ss c rule: sweptKeys.induct) (auto simp: closedIn_Cons closedIn_drop closedIn_Nil)

lemma sweep_cache:
  "ext_laws E \<Longrightarrow> cacheGet E (world (sweepSessions E ss c)) k \<longleftrightarrow> cacheGet E (world c) k \<or> closedIn E ss (world c) k"
  by (induction E ss c rule: sweepSessions.induct)
     (auto simp: closedIn_Cons closedIn_drop closedIn_Nil ext_lawsD)

lemma sweep_conns:
  "ext_laws E \<Longrightarrow> distinct (map fst ss) \<Longrightarrow> connIsClosed (sweepSessions E ss c) p \<longleftrightarrow>
     connIsClosed c p \<or> (\<exists>k. closedIn E ss (world c) k \<and> p \<in> set (connsOf c k))"
proof (induction E ss c rule: sweepSessions.induct)
  case (2 E k x ss c)
  have n: "\<not> closedIn E ss (world c) k" using 2(4) closedIn_key [of k ss] by simp
  let ?c = "dropSession E (closeConns c (connsOf c k)) k"
  have "connsOf ?c k' = connsOf c k'" if "closedIn E ss (world c) k'" for k'
    using that n connsOf_drop [of k' k E c "connsOf c k"] by (cases "k' = k") simp_all
  then have "(\<exists>k'. closedIn E ss (world c) k' \<and> p \<in> set (connsOf ?c k')) \<longleftrightarrow>
      (\<exists>k'. closedIn E ss (world c) k' \<and> p \<in> set (connsOf c k'))" by (intro ex_cong1) auto
  then have "connIsClosed (sweepSessions E ss ?c) p \<longleftrightarrow> connIsClosed c p \<or> p \<in> set (connsOf c k) \<or>
      (\<exists>k'. closedIn E ss (world c) k' \<and> p \<in> set (connsOf c k'))" if "sessIsClosed E (world c) x"
    using 2(1) [OF that 2(3)] 2(3,4) by (auto simp: closedIn_drop)
  moreover have "connIsClosed (sweepSessions E ss c) p \<longleftrightarrow> connIsClosed c p \<or>
      (\<exists>k'. closedIn E ss (world c) k' \<and> p \<in> set (connsOf c k'))" if "\<not> sessIsClosed E (world c) x"
    using 2(2) [OF that 2(3)] 2(4) by auto
  moreover have "(\<exists>k'. closedIn E ((k, x) # ss) (world c) k' \<and> p \<in> set (connsOf c k')) \<longleftrightarrow>
      (sessIsClosed E (world c) x \<and> p \<in> set (connsOf c k)) \<or> (\<exists>k'. closedIn E ss (world c) k' \<and> p \<in> set (connsOf c k'))"
    unfolding closedIn_Cons by blast
  ultimately show ?case by (cases "sessIsClosed E (world c) x") simp_all
qed (simp add: closedIn_Nil)

section \<open>Properties\<close>

text \<open>
  In every reachable state the tables have every key once, so that what a loop over one of them
  meets is exactly what looking up its keys gives.
\<close>

lemma registry_tables_are_maps:
  assumes "reachable (sys_init E) (sys_step E) s"
  shows "maps_wf (cl s)" "(k, x) \<in> set (sessions (cl s)) \<longleftrightarrow> mget (sessions (cl s)) k = Some x"
  using wm.reachable_inv [OF assms] by (simp_all add: maps_wf_def mget_Some_iff)

text \<open>
  A session that disappears from the table has ended: by the exit of its last handler, or by a
  sweep that found it closed.
\<close>

lemma session_removed:
  assumes "sys_step E s (Ok t)" "sys_inv E s" "mget (sessions (cl s)) k = Some x" "mget (sessions (cl t)) k = None"
    and "k \<notin> set (swept s)" "k \<notin> set (crossed s)" "mwf (sessions (cl s))"
  shows "IsSessClosed E (cl t) k \<and> sessIsClosed E (world (cl t)) x \<and>
    (sessIsClosed E (world (cl s)) x \<or> (\<forall>h\<in>set (active t). hKey h \<noteq> k))"
  using removing_step [OF assms(1,3,4)]
proof
  assume "\<exists>h\<in>set (active s). hKey h = k \<and> handleConn_exit E (cl s) h = Ok (cl t) \<and> active t = remove1 h (active s)"
  then obtain h where h: "h \<in> set (active s)" "hKey h = k" "handleConn_exit E (cl s) h = Ok (cl t)"
    "active t = remove1 h (active s)" by blast
  have "hSess h = x" using sys_invD(4) [OF assms(2)] h(1,2) assms(3,5,6) by (auto simp: owners_ok_def)
  then show ?thesis
    using exit_ends_session [OF assms(2) h(1)] h(2-4) assms(3-5) by (auto split: if_splits)
next
  assume a: "cl t = sweepSessions E (sessions (cl s)) (cl s) \<and> k \<in> set (sweptKeys E (sessions (cl s)) (cl s))"
  note E = sys_invD(1) [OF assms(2)]
  have "sessIsClosed E (world (cl s)) x"
    using sweep_closed [OF E a [THEN conjunct2]] assms(3) by (metis mget_Some_iff [OF assms(7)] option.inject)
  then show ?thesis
    using a sweep_closed [OF E a [THEN conjunct2]] assms(4) by (simp add: IsSessClosed_def sweep_world(1) [OF E])
qed

text \<open>
  C7: how a session ends. When a handler of a session leaves and another handler of the same
  session is still running, the session stays registered and the ncp session is not touched;
  when it was the last one, the session is unregistered with its connections and count, its key
  is remembered as closed (so that \<open>IsSessClosed\<close> answers true and the dialer is told not to
  reconnect), and the ncp session is closed. This holds for keys of which \<open>removeClosedSessions\<close>
  has not dropped a session. Whatever step takes a session out of the table, its key is then
  remembered as closed and its ncp session closed: either the ncp session had been closed before
  (the application closed it) and \<open>removeClosedSessions\<close> dropped it, or no handler of it is left.
\<close>

theorem session_ends_with_last_handler:
  assumes "reachable (sys_init E) (sys_step E) s"
  shows "(h \<in> set (active s) \<longrightarrow> hKey h \<notin> set (swept s) \<longrightarrow>
     (\<exists>c. handleConn_exit E (cl s) h = Ok c \<and>
      (if \<exists>h'\<in>set (remove1 h (active s)). hKey h' = hKey h
       then mget (sessions c) (hKey h) = mget (sessions (cl s)) (hKey h) \<and> world c = world (cl s)
       else mget (sessions c) (hKey h) = None \<and> mget (sessionConns c) (hKey h) = None \<and>
         mget (connCount c) (hKey h) = None \<and> IsSessClosed E c (hKey h) \<and> sessIsClosed E (world c) (hSess h)))) \<and>
    (sys_step E s (Ok t) \<longrightarrow> k \<notin> set (swept s) \<union> set (crossed s) \<longrightarrow>
     mget (sessions (cl s)) k = Some x \<longrightarrow> mget (sessions (cl t)) k = None \<longrightarrow>
     IsSessClosed E (cl t) k \<and> sessIsClosed E (world (cl t)) x \<and>
     (sessIsClosed E (world (cl s)) x \<or> (\<forall>h\<in>set (active t). hKey h \<noteq> k)))"
proof -
  note inv = sm.reachable_inv [OF assms]
  have "mwf (sessions (cl s))" using registry_tables_are_maps(1) [OF assms] by (simp add: maps_wf_def)
  then show ?thesis
    using exit_ends_session [OF inv, of h] session_removed [OF _ inv, of t k x] by blast
qed

text \<open>Bob's only handler of Alice's session leaves; and, in another run, the closed session is swept.\<close>

definition demoSwept :: "demo_world sys" where
  "demoSwept = demo3\<lparr>cl := (cl demo3)\<lparr>world := \<lparr>dwCache = [], dwClosed = [0], dwRemote = [''alice'']\<rparr>,
     conns := conns (cl demo3), sharedKeys := sharedKeys (cl demo3), acceptSession := acceptSession (cl demo3)\<rparr>\<rparr>"

lemma demoSwept_reachable: "reachable (sys_init demoExt) (sys_step demoExt) demoSwept"
  unfolding demoSwept_def by (rule reach_step [OF demo3_reachable sys_step.env])

theorem session_ends_with_last_handler_witness:
  "(\<exists>c. handleConn_exit demoExt (cl demo3) demoH = Ok c \<and> IsSessClosed demoExt c ''alice:01'') \<and>
   (\<exists>c. removeClosedSessions demoExt (cl demoSwept) = Some c \<and> mget (sessions c) ''alice:01'' = None \<and>
     IsSessClosed demoExt c ''alice:01'')"
proof
  show "\<exists>c. handleConn_exit demoExt (cl demo3) demoH = Ok c \<and> IsSessClosed demoExt c ''alice:01''"
    using session_ends_with_last_handler [OF demo3_reachable, of demoH, THEN conjunct1]
    by (auto simp: demo3_def demo2_def demo1_def demo0_def) (simp add: hKey_def demoH_def demo_key)
  obtain c where c: "removeClosedSessions demoExt (cl demoSwept) = Some c" "mget (sessions c) ''alice:01'' = None"
  proof -
    have "\<not> isClosed (cl demoSwept)" "sessions (cl demoSwept) = [(''alice:01'', 0)]"
      "sessIsClosed demoExt (world (cl demoSwept)) 0"
      by (simp_all add: demoSwept_def demo_defs demoExt_def)
    then show ?thesis by (intro that) (simp add: removeClosedSessions_def, simp)
  qed
  have s: "mget (sessions (cl demoSwept)) ''alice:01'' = Some 0" "swept demoSwept = []" "crossed demoSwept = []"
    by (simp_all add: demoSwept_def demo_defs gomap_eval)
  from session_ends_with_last_handler [OF demoSwept_reachable, THEN conjunct2] sys_step.sweep [OF c(1)] c s
  show "\<exists>c. removeClosedSessions demoExt (cl demoSwept) = Some c \<and> mget (sessions c) ''alice:01'' = None \<and>
     IsSessClosed demoExt c ''alice:01''" by force
qed

text \<open>
  C30: the sweep does not depend on the order of Go's range loop. Whatever permutation of the
  session table \<open>removeClosedSessions\<close> walks, it removes exactly the sessions that are closed,
  with their connection tables, counts and handlers' connections, records exactly their keys as
  closed, and leaves every other session and connection alone.
\<close>

theorem sweep_order_irrelevant:
  assumes "reachable (sys_init E) (sys_step E) s" "c = cl s" "mset ss = mset (sessions c)" "c' = sweepSessions E ss c"
  shows "mget (sessions c') k = (case mget (sessions c) k of None \<Rightarrow> None
       | Some x \<Rightarrow> if sessIsClosed E (world c) x then None else Some x) \<and>
     mget (sessionConns c') k = (if \<exists>x. mget (sessions c) k = Some x \<and> sessIsClosed E (world c) x then None
       else mget (sessionConns c) k) \<and>
     mget0 (connCount c') k = (if \<exists>x. mget (sessions c) k = Some x \<and> sessIsClosed E (world c) x then 0
       else mget0 (connCount c) k) \<and>
     cacheGet E (world c') k =
       (cacheGet E (world c) k \<or> (\<exists>x. mget (sessions c) k = Some x \<and> sessIsClosed E (world c) x)) \<and>
     connIsClosed c' p = (connIsClosed c p \<or>
       (\<exists>k x. mget (sessions c) k = Some x \<and> sessIsClosed E (world c) x \<and> p \<in> set (connsOf c k)))"
proof -
  have E: "ext_laws E" using sys_invD(1) [OF sm.reachable_inv [OF assms(1)]] .
  have wf: "mwf (sessions c)" using wm.reachable_inv [OF assms(1)] assms(2) by (simp add: maps_wf_def)
  have "mset (map fst ss) = mset (map fst (sessions c))" using assms(3) by simp
  with wf have d: "distinct (map fst ss)" by (metis mwf_def mset_eq_imp_distinct_iff)
  have cl: "closedIn E ss (world c) k \<longleftrightarrow> (\<exists>x. mget (sessions c) k = Some x \<and> sessIsClosed E (world c) x)" for k
    using mset_eq_setD [OF assms(3)] mget_Some_iff [OF wf] by (auto simp: closedIn_def)
  have "mget (sessions c') k = (case mget (sessions c) k of None \<Rightarrow> None
      | Some x \<Rightarrow> if sessIsClosed E (world c) x then None else Some x)"
    by (auto simp: assms(4) sweep_eqs(1) sweptKeys_spec [OF E] cl split: option.split)
  moreover have "connIsClosed c' p = (connIsClosed c p \<or>
      (\<exists>k x. mget (sessions c) k = Some x \<and> sessIsClosed E (world c) x \<and> p \<in> set (connsOf c k)))"
    by (auto simp: assms(4) sweep_conns [OF E d] cl)
  ultimately show ?thesis by (simp add: assms(4) sweep_eqs(2,3) sweep_cache [OF E] sweptKeys_spec [OF E] cl)
qed

text \<open>Bob's session 0 with Alice has been closed; its connection 7 goes with it.\<close>

theorem sweep_order_irrelevant_witness:
  "mget (sessions (cl demoSwept)) ''alice:01'' = Some 0 \<and>
   mget (sessions (sweepSessions demoExt (rev (sessions (cl demoSwept))) (cl demoSwept))) ''alice:01'' = None \<and>
   connIsClosed (sweepSessions demoExt (rev (sessions (cl demoSwept))) (cl demoSwept)) 7"
proof -
  have s: "mget (sessions (cl demoSwept)) ''alice:01'' = Some 0" "sessIsClosed demoExt (world (cl demoSwept)) 0"
    "7 \<in> set (connsOf (cl demoSwept) ''alice:01'')"
    by (simp_all add: demoSwept_def demo_defs connsOf_def mget_def demoExt_def demo_key)
  have "mset (rev (sessions (cl demoSwept))) = mset (sessions (cl demoSwept))" by simp
  from sweep_order_irrelevant [OF demoSwept_reachable refl this refl, of "''alice:01''" 7] s show ?thesis by auto
qed

end
