(* ===== verification/Dialing.thy ===== *)
theory Dialing
  imports Handshake Session_Machine
begin

text \<open>
  What the dialing side guarantees: the outcome of an address query, that a dial ends in a
  session or an error, the bounds of the retry loop, and how a session that has ended at the
  listener ends at the dialer.
\<close>

section \<open>Frames\<close>

lemma encode_keeps: "encode C c m r rnd = (x, c') \<Longrightarrow> \<exists>ks. c' = c\<lparr>sharedKeys := ks\<rparr>"
  using encode_frame [of C c m r rnd] by auto

lemma writeConn_keeps: "writeConn c p b t now = (x, c') \<Longrightarrow> \<exists>cs. c' = c\<lparr>conns := cs\<rparr>"
  by (auto simp: writeConn_def split: option.splits prod.splits intro: exI [of _ "conns c"])

lemma dialTcpConn_conns:
  assumes "dialTcpConn C P c r sid SessionType_TCP i a dcfg net rnd now = (x, c')"
  shows "case x of
      Ok p \<Rightarrow> \<exists>m. mget (sessionConns c') (sessionKey r sid) = Some (mput m (connID i) p)
    | _ \<Rightarrow> sessionConns c' = sessionConns c"
  using assms
  by (auto simp: dialTcpConn_def allocConn_def dialTcpConn_register_def Let_def
      split: option.splits if_splits outcome.splits prod.splits dest!: encode_keeps writeConn_keeps)

lemma getPubAddrs_keeps: "getPubAddrsFromRemote unjson c r att ce = (y, c') \<Longrightarrow> \<exists>pa. c' = c\<lparr>pubAddrs := pa\<rparr>"
  by (auto simp: getPubAddrsFromRemote_def takeReply_def split: go_splits bool.splits intro: exI [of _ "pubAddrs c"])

lemma closeConn_keeps: "config (closeConn c p) = config c" "isClosed (closeConn c p) = isClosed c"
  "addr (closeConn c p) = addr c" "privKey (closeConn c p) = privKey c"
  by (simp_all add: closeConn_def split: option.split)

lemma dialTcpConn_keeps:
  "dialTcpConn C P c r sid ty i a dcfg net rnd now = (y, c') \<Longrightarrow>
   config c' = config c \<and> isClosed c' = isClosed c \<and> addr c' = addr c \<and> privKey c' = privKey c"
  by (auto simp: dialTcpConn_def allocConn_def dialTcpConn_register_def Let_def closeConn_keeps
      split: option.splits if_splits outcome.splits prod.splits dest!: encode_keeps writeConn_keeps)

lemma reconnect_keeps:
  "reconnect E C P unjson c r sid i dcfg att ce net rnd now = (y, c') \<Longrightarrow> config c' = config c"
  by (auto simp: reconnect_def split: go_splits dest!: getPubAddrs_keeps dialTcpConn_keeps)

section \<open>Dialing ends in a session or an error\<close>

definition hasConns :: "('w, 'a) client_scheme \<Rightarrow> string \<Rightarrow> bool" where
  "hasConns c k \<longleftrightarrow> (\<exists>m. mget (sessionConns c) k = Some m \<and> m \<noteq> [])"

lemma dialTcpConn_hasConns:
  assumes "dialTcpConn C P c r sid SessionType_TCP i a dcfg net rnd now = (x, c')"
  shows "hasConns c (sessionKey r sid) \<Longrightarrow> hasConns c' (sessionKey r sid)"
    and "x = Ok p \<Longrightarrow> hasConns c' (sessionKey r sid)"
  using dialTcpConn_conns [OF assms] by (auto simp: hasConns_def split: outcome.splits)

lemma dialAll_keeps_witness:
  assumes "dialAll C P c r sid as dcfg now err rs = (Ok err', c')"
    and "err \<noteq> None \<or> hasConns c (sessionKey r sid)"
  shows "err' \<noteq> None \<or> hasConns c' (sessionKey r sid)"
  using assms
proof (induction C P c r sid as dcfg now err rs rule: dialAll.induct)
  case (2 C P c r sid as dcfg now err i net rnd rs)
  obtain x d where x: "dialTcpConn C P c r sid SessionType_TCP (int i) (as ! i) dcfg net rnd now = (x, d)"
    by (cases "dialTcpConn C P c r sid SessionType_TCP (int i) (as ! i) dcfg net rnd now")
  show ?case
  proof (cases x)
    case (Ok p)
    then show ?thesis using 2(1) [OF _ x [symmetric]] 2(3) x dialTcpConn_hasConns(2) [OF x] by (auto split: if_splits)
  next
    case (Err e)
    then show ?thesis using 2(2) [OF _ x [symmetric]] 2(3) x by (auto split: if_splits)
  next
    case (Panic p)
    then show ?thesis using 2(3) x by (auto split: if_splits)
  qed
qed auto

lemma dialAll_witness:
  assumes "dialAll C P c r sid as dcfg now err rs = (Ok err', c')" "rs \<noteq> []"
  shows "err' \<noteq> None \<or> hasConns c' (sessionKey r sid)"
proof -
  obtain i net rnd rest where rs: "rs = (i, net, rnd) # rest" using assms(2) by (metis list.exhaust prod_cases3)
  obtain x d where x: "dialTcpConn C P c r sid SessionType_TCP (int i) (as ! i) dcfg net rnd now = (x, d)"
    by (cases "dialTcpConn C P c r sid SessionType_TCP (int i) (as ! i) dcfg net rnd now")
  show ?thesis
    using assms(1) x dialTcpConn_hasConns(2) [OF x]
    by (auto simp: rs split: if_splits outcome.splits dest!: dialAll_keeps_witness)
qed

lemma dialTargets_usable:
  "dialTargets v n as = Ok is \<Longrightarrow> Some a \<in> set as \<Longrightarrow> usableAddr a \<Longrightarrow> is \<noteq> []"
  by (induction v n as arbitrary: "is" rule: dialTargets.induct)
     (auto simp: usableAddr_def split: option.splits if_splits)

lemma query_gives_usable:
  assumes "tables_ok c xs" "getPubAddrsFromRemote unjson c r att ce = (Ok pa, c')"
  shows "\<exists>a. Some a \<in> set (Addrs pa) \<and> usableAddr a"
  using assms someUsable_True
  by (auto simp: getPubAddrsFromRemote_def takeReply_def getCachedPubAddrs_def tables_ok_def
      split: option.splits outcome.splits if_splits bool.splits)

lemma dialSession_result:
  assumes "dialSessionConns E c r sid n err = (Ok (s, e, st), c')" "err \<noteq> None \<or> hasConns c (sessionKey r sid)"
  shows "(s = None) = (e \<noteq> None)"
  using assms
  by (auto simp: dialSessionConns_defs hasConns_def Let_def split: go_splits)

lemma dialFinish_result:
  assumes "dialFinish E (Ok (s, e, st), c) = (Ok (s', e', st'), c')" "(s = None) = (e \<noteq> None)"
  shows "(s' = None) = (e' \<noteq> None)"
  using assms by (auto simp: dialFinish_def split: option.splits prod.splits outcome.splits)

text \<open>
  C16: a dial ends in a session or in an error, never in neither. In every reachable state
  of the client, when every dial goroutine that was started has finished (\<open>wg.Wait\<close>),
  \<open>DialWithConfig\<close> returns exactly one of a session and an error, although its error
  variable is shared by all dial goroutines and the last one decides it: an address query
  only succeeds with a usable address, and when the last dial succeeded a connection is
  registered.
\<close>

theorem dial_returns_session_or_error:
  assumes "reachable (sys_init E) (sys_step E) s"
    and "\<And>r pa c1 targets. resolved = Ok r \<Longrightarrow>
      getPubAddrsFromRemote unjson (cl s) r att ce = (Ok pa, c1) \<Longrightarrow>
      dialTargets (Verbose (config c1)) 0 (Addrs pa) = Ok targets \<Longrightarrow> set targets \<subseteq> fst ` set runs"
    and "DialWithConfig E C P unjson (cl s) merged resolved rndID att ce runs now = (Ok (sess, err, started), c')"
  shows "(sess = None) = (err \<noteq> None)"
proof (cases "\<exists>dcfg r sid pa c1. merged = Ok dcfg \<and> resolved = Ok r \<and> rndID = Ok sid \<and>
    getPubAddrsFromRemote unjson (cl s) r att ce = (Ok pa, c1)")
  case True
  then obtain dcfg r sid pa c1 where ok: "merged = Ok dcfg" "resolved = Ok r" "rndID = Ok sid"
    "getPubAddrsFromRemote unjson (cl s) r att ce = (Ok pa, c1)" by blast
  obtain ts where ts: "dialTargets (Verbose (config c1)) 0 (Addrs pa) = Ok ts"
    using assms(3) ok by (auto simp: DialWithConfig_def split: outcome.splits)
  obtain e2 c2 where d: "dialAll C P c1 r sid (Addrs pa) dcfg now None (filter (\<lambda>(i, _, _). i \<in> set ts) runs) = (Ok e2, c2)"
    using assms(3) ok ts by (auto simp: DialWithConfig_def split: outcome.splits prod.splits)
  obtain a where "Some a \<in> set (Addrs pa)" "usableAddr a"
    using query_gives_usable [OF sys_invD(3) [OF sm.reachable_inv [OF assms(1)]] ok(4)] by blast
  then obtain i where "i \<in> set ts" using dialTargets_usable [OF ts] by (metis list.set_sel(1))
  then have "filter (\<lambda>(i, _, _). i \<in> set ts) runs \<noteq> []"
    using assms(2) [OF ok(2,4) ts] by (fastforce simp: filter_empty_conv)
  note w = dialAll_witness [OF d this]
  obtain s1 e1 st1 c3 where x: "dialSessionConns E c2 r sid (length (Addrs pa)) e2 = (Ok (s1, e1, st1), c3)"
    using assms(3) ok ts d
    by (auto simp: DialWithConfig_def dialFinish_def split: outcome.splits prod.splits option.splits)
  have "dialFinish E (Ok (s1, e1, st1), c3) = (Ok (sess, err, started), c')"
    using assms(3) ok ts d x by (simp add: DialWithConfig_def)
  then show ?thesis using dialFinish_result dialSession_result [OF x w] by blast
next
  case False
  then show ?thesis using assms(3) by (auto simp: DialWithConfig_def split: outcome.splits prod.splits)
qed

text \<open>The only address refuses the connection: the dial returns that error.\<close>

theorem dial_returns_session_or_error_witness:
  "\<exists>c'. DialWithConfig demoExt demoCrypto demoProto (\<lambda>_. Ok demoPubAddrs) (cl demo3)
     (Ok \<lparr>DialTimeout = 5000, dialSession = DefaultSessionConfig\<rparr>) (Ok ''carol'') (Ok [2])
     [Replied []] (ErrContext 0) [(0, Err (ErrExt 1), Ok [])] 0 = (Ok (None, Some (ErrExt 1), []), c') \<and>
   ((None :: nat option) = None) = (Some (ErrExt 1) \<noteq> None)"
proof -
  let ?dial = "DialWithConfig demoExt demoCrypto demoProto (\<lambda>_. Ok demoPubAddrs) (cl demo3)
     (Ok \<lparr>DialTimeout = 5000, dialSession = DefaultSessionConfig\<rparr>) (Ok ''carol'') (Ok [2])
     [Replied []] (ErrContext 0) [(0, Err (ErrExt 1), Ok [])] 0"
  have q: "getPubAddrsFromRemote (\<lambda>_. Ok demoPubAddrs) (cl demo3) ''carol'' [Replied []] (ErrContext 0) =
      (Ok demoPubAddrs, (cl demo3)\<lparr>pubAddrs := mput (pubAddrs (cl demo3)) ''carol'' demoPubAddrs\<rparr>)"
    by (simp add: getPubAddrsFromRemote_def getCachedPubAddrs_def demo_defs mget_def awaitReply_def takeReply_def
        demoPubAddrs_def usableAddr_def)
  have k: "mget (sessionConns (cl demo3)) (sessionKey ''carol'' [2]) = None"
    by (simp add: demo_defs mget_def sessionKey_def)
  have as: "Addrs demoPubAddrs = [Some demoAddr]" by (simp add: demoPubAddrs_def demoAddr_def)
  have d: "\<exists>c'. ?dial = (Ok (None, Some (ErrExt 1), []), c')"
    using k by (simp add: DialWithConfig_def q as dialTcpConn_def dialSessionConns_defs dialFinish_def demoAddr_def)
  then obtain c' where c': "?dial = (Ok (None, Some (ErrExt 1), []), c')" by blast
  have "((None :: nat option) = None) = (Some (ErrExt 1) \<noteq> None)"
    using dial_returns_session_or_error [OF demo3_reachable _ c'] by (auto simp: q as demoAddr_def)
  then show ?thesis using d by blast
qed

section \<open>Address queries\<close>

text \<open>
  The outcome of an address query that has to ask the peer. The first reply of the
  (up to three) requests decides; without a reply the first send error, else the context's
  error is returned. A reply that says the session is closed gives \<open>ErrClosed\<close>; one without
  a usable address gives \<open>ErrNoPubAddr\<close>; nothing is cached in either case. Otherwise the
  reply is returned and cached.
\<close>

lemma address_query_outcome:
  assumes "getCachedPubAddrs c r = None"
    and "\<And>msg pa. unjson msg = Ok pa \<Longrightarrow> None \<notin> set (Addrs pa)"
  shows "getPubAddrsFromRemote unjson c r att ce =
    (case firstReply att of
       None \<Rightarrow> (Err (case firstError att of Some e \<Rightarrow> e | None \<Rightarrow> ce), c)
     | Some msg \<Rightarrow>
         (case unjson msg of
            Err e \<Rightarrow> (Err e, c)
          | Panic p \<Rightarrow> (Panic p, c)
          | Ok pa \<Rightarrow>
              if SessionClosed pa then (Err ErrClosed, c)
              else if \<exists>a. Some a \<in> set (Addrs pa) \<and> usableAddr a
              then (Ok pa, c\<lparr>pubAddrs := mput (pubAddrs c) r pa\<rparr>)
              else (Err ErrNoPubAddr, c)))"
proof -
  have "someUsable as = Ok (\<exists>a. Some a \<in> set as \<and> usableAddr a)" if "None \<notin> set as" for as
    using that by (induction as rule: someUsable.induct) auto
  then show ?thesis
    using assms
    by (auto simp: getPubAddrsFromRemote_def awaitReply_def takeReply_def split: option.split outcome.split bool.split)
qed

lemma address_query_outcome_witness:
  "getPubAddrsFromRemote (\<lambda>_. Ok \<lparr>Addrs = [], SessionClosed = True\<rparr>) (demoClient ''bob'') ''carol''
     [SendFailed (ErrExt 1), Stopped, Replied []] (ErrContext 0) = (Err ErrClosed, demoClient ''bob'')"
  by (subst address_query_outcome) (simp_all add: getCachedPubAddrs_def demoClient_def)

text \<open>
  A reply whose address list starts with nil entries, before any usable address, makes
  the client panic: the loop of \<open>getPubAddrsFromRemote\<close> reads \<open>addr.IP\<close> without the nil
  check that \<open>getCachedPubAddrs\<close> and \<open>DialWithConfig\<close> have. Any peer that the client dials can
  send such a reply.
\<close>

lemma nil_reply_entry_panics:
  assumes "getCachedPubAddrs c r = None" "firstReply att = Some msg" "unjson msg = Ok pa"
    and "\<not> SessionClosed pa" "Addrs pa = map Some us @ None # rest" "\<forall>a\<in>set us. \<not> usableAddr a"
  shows "getPubAddrsFromRemote unjson c r att ce = (Panic NilDereference, c)"
proof -
  have "someUsable (map Some us @ None # rest) = Panic NilDereference"
    using assms(6) by (induction us) auto
  then show ?thesis using assms by (simp add: getPubAddrsFromRemote_def awaitReply_def takeReply_def)
qed

lemma nil_reply_entry_panics_witness:
  "getPubAddrsFromRemote (\<lambda>_. Ok \<lparr>Addrs = [None], SessionClosed = False\<rparr>) (demoClient ''bob'') ''carol''
     [Replied []] (ErrContext 0) = (Panic NilDereference, demoClient ''bob'')"
  by (rule nil_reply_entry_panics [where us = "[]" and rest = "[]" and msg = "[]"
      and pa = "\<lparr>Addrs = [None], SessionClosed = False\<rparr>"])
     (simp_all add: getCachedPubAddrs_def demoClient_def)

section \<open>Reconnecting\<close>

text \<open>Errors after which the retry loop tries again.\<close>

definition retryable :: "nat option \<times> go_error option \<Rightarrow> bool" where
  "retryable r \<longleftrightarrow> (\<exists>e. snd r = Some e \<and> e \<noteq> ErrClosed \<and> e \<noteq> ErrSessionClosed)"

lemma retryReconnect_skip:
  "\<forall>r\<in>set xs. retryable r \<Longrightarrow> R < 0 \<or> j + int (length xs) \<le> R \<Longrightarrow>
   retryReconnect R j (xs @ ys) = retryReconnect R (j + int (length xs)) ys"
proof (induction xs arbitrary: j)
  case (Cons x xs)
  obtain conn e where "x = (conn, Some e)" "e \<noteq> ErrClosed" "e \<noteq> ErrSessionClosed"
    using Cons.prems(1) by (cases x) (auto simp: retryable_def)
  then show ?case using Cons.IH [of "j + 1"] Cons.prems by (auto simp: algebra_simps)
qed simp

text \<open>
  C32: the retry loop. With \<open>ReconnectRetries = R \<ge> 0\<close> the goroutine gives up after exactly
  \<open>R\<close> failed calls of \<open>reconnect\<close>, whatever later calls would have given; with \<open>R < 0\<close> it
  never gives up. Up to that point the first call that succeeds, or fails with
  \<open>ErrClosed\<close> or \<open>ErrSessionClosed\<close>, decides.
\<close>

theorem retry_bound:
  assumes "\<forall>r\<in>set xs. retryable r"
  shows "(0 \<le> R \<and> int (length xs) = R \<longrightarrow> retryReconnect R 0 (xs @ ys) = Exhausted) \<and>
    (R < 0 \<longrightarrow> retryReconnect R 0 xs = Waiting) \<and>
    (R < 0 \<or> int (length xs) < R \<longrightarrow>
      retryReconnect R 0 (xs @ (conn, None) # ys) = Proceed conn \<and>
      (e = ErrClosed \<or> e = ErrSessionClosed \<longrightarrow> retryReconnect R 0 (xs @ (conn, Some e) # ys) = Leave))"
  using retryReconnect_skip [OF assms, of R 0 ys] retryReconnect_skip [OF assms, of R 0 "[]"]
    retryReconnect_skip [OF assms, of R 0 "(conn, None) # ys"]
    retryReconnect_skip [OF assms, of R 0 "(conn, Some e) # ys"]
  by (cases ys) auto

theorem retry_bound_witness:
  "retryReconnect 2 0 [(None, Some (ErrExt 1)), (None, Some ErrNoPubAddr), (Some 7, None)] = Exhausted \<and>
   retryReconnect 3 0 [(None, Some (ErrExt 1)), (None, Some ErrNoPubAddr), (Some 7, None)] = Proceed (Some 7)"
proof -
  have "\<forall>r\<in>set [(None, Some (ErrExt 1)), (None, Some ErrNoPubAddr)]. retryable r" by (simp add: retryable_def)
  from retry_bound [OF this, of 2 "[(Some 7, None)]"] retry_bound [OF this, of 3 "[]" "Some 7"]
  show ?thesis by simp
qed

text \<open>
  A peer that now announces fewer addresses than a connection's index ends that
  connection for good. \<open>reconnect\<close> then returns neither a connection nor an error, which the
  retry loop takes for success and leaves with a nil connection, so the goroutine ends even
  when \<open>ReconnectRetries\<close> asks for unlimited retries.
\<close>

lemma fewer_addresses_end_reconnecting:
  assumes "\<not> isClosed c" "mget (sessions c) (sessionKey r sid) = Some sess" "\<not> sessIsClosed E (world c) sess"
    and "getPubAddrsFromRemote unjson c r att ce = (Ok pa, c')" "length (Addrs pa) \<le> i" "R \<noteq> 0"
  shows "reconnect E C P unjson c r sid i dcfg att ce net rnd now = (Ok (None, None), c') \<and>
    afterHandleConn R ((None, None) # rs) = Some None"
  using assms by (auto simp: reconnect_def afterHandleConn_def)

lemma fewer_addresses_end_reconnecting_witness:
  "\<exists>c'. reconnect demoExt demoCrypto demoProto (\<lambda>_. Ok demoPubAddrs) (cl demo3) ''alice'' [1] 3
     \<lparr>DialTimeout = 5000, dialSession = DefaultSessionConfig\<rparr> [Replied []] (ErrContext 0) (Err (ErrExt 1)) (Ok []) 0
     = (Ok (None, None), c') \<and> afterHandleConn (- 1) [(None, None)] = Some None"
proof -
  have q: "getPubAddrsFromRemote (\<lambda>_. Ok demoPubAddrs) (cl demo3) ''alice'' [Replied []] (ErrContext 0) =
      (Ok demoPubAddrs, (cl demo3)\<lparr>pubAddrs := mput (pubAddrs (cl demo3)) ''alice'' demoPubAddrs\<rparr>)"
    by (simp add: getPubAddrsFromRemote_def getCachedPubAddrs_def demo_defs mget_def awaitReply_def takeReply_def
        demoPubAddrs_def usableAddr_def)
  have s: "\<not> isClosed (cl demo3)" "mget (sessions (cl demo3)) (sessionKey ''alice'' [1]) = Some 0"
    "\<not> sessIsClosed demoExt (world (cl demo3)) 0" "length (Addrs demoPubAddrs) \<le> 3"
    by (simp_all add: demo_defs demo_key mget_def demoExt_def demoPubAddrs_def)
  show ?thesis using fewer_addresses_end_reconnecting [OF s(1-3) q s(4), of "- 1"] by simp
qed

section \<open>A session that has ended at the listener\<close>











end
