(* ===== verification/Reconnecting.thy ===== *)
theory Reconnecting
  imports Dialing Delivery
begin

text \<open>
  The goroutine that \<open>DialWithConfig\<close> (\<open>client.go\<close>) starts for each connection of a dialed session:
  handle the connection, and when it ends try to replace it.
\<close>

section \<open>The goroutine\<close>

text \<open>
  One call of \<open>reconnect\<close>: what the other goroutines do to the client until then, and what the
  address query, the network and the random source give it.
\<close>

type_synonym 'c reconnect_try = "('c \<Rightarrow> 'c) \<times> attempt list \<times> go_error \<times> Conn outcome \<times> bytes outcome \<times> int"

definition retriesLeft :: "('w, 'a) client_scheme \<Rightarrow> int \<Rightarrow> bool" where
  "retriesLeft c j \<longleftrightarrow> ReconnectRetries (config c) < 0 \<or> j < ReconnectRetries (config c)"

fun retryLoop ::
  "'w ext \<Rightarrow> crypto \<Rightarrow> proto \<Rightarrow> (bytes \<Rightarrow> PubAddrs outcome) \<Rightarrow> string \<Rightarrow> bytes \<Rightarrow> nat \<Rightarrow> DialConfig \<Rightarrow>
   int \<Rightarrow> ('w, 'a) client_scheme \<Rightarrow> ('w, 'a) client_scheme reconnect_try list \<Rightarrow> (retry \<times> ('w, 'a) client_scheme) outcome" where
  "retryLoop E C P unjson remoteAddr sessionID i dcfg j c [] =
     Ok (if retriesLeft c j then Waiting else Exhausted, c)"
| "retryLoop E C P unjson remoteAddr sessionID i dcfg j c ((others, attempts, ctxErr, net, rnd, now) # ts) =
     (if \<not> retriesLeft c j then Ok (Exhausted, c)
      else (case reconnect E C P unjson (others c) remoteAddr sessionID i dcfg attempts ctxErr net rnd now of
              (Err e, c1) \<Rightarrow> Err e
            | (Panic p, c1) \<Rightarrow> Panic p
            | (Ok (conn, None), c1) \<Rightarrow> Ok (Proceed conn, c1)
            | (Ok (conn, Some e), c1) \<Rightarrow>
                if e = ErrClosed \<or> e = ErrSessionClosed then Ok (Leave, c1)
                else retryLoop E C P unjson remoteAddr sessionID i dcfg (j + 1) c1 ts))"

text \<open>
  The loop, over the tries of its successive rounds. The flag says whether the goroutine has
  returned; it then closes the connection it holds. A failed \<open>reconnect\<close> has left it with nil.
\<close>

fun dialConn ::
  "'w ext \<Rightarrow> crypto \<Rightarrow> proto \<Rightarrow> (bytes \<Rightarrow> PubAddrs outcome) \<Rightarrow> string \<Rightarrow> bytes \<Rightarrow> nat \<Rightarrow> DialConfig \<Rightarrow>
   ('w, 'a) client_scheme \<Rightarrow> nat \<Rightarrow> ('w, 'a) client_scheme reconnect_try list list \<Rightarrow>
   (bool \<times> ('w, 'a) client_scheme) outcome" where
  "dialConn E C P unjson remoteAddr sessionID i dcfg c conn [] = Ok (False, c)"
| "dialConn E C P unjson remoteAddr sessionID i dcfg c conn (ts # rounds) =
     obind (handleConn E C c (Some conn) remoteAddr sessionID (int i)) (\<lambda>c1.
       if ReconnectRetries (config c1) = 0 then Ok (True, closeConn c1 conn)
       else obind (retryLoop E C P unjson remoteAddr sessionID i dcfg 0 c1 ts) (\<lambda>(x, c2).
         case x of
           Proceed (Some p) \<Rightarrow> dialConn E C P unjson remoteAddr sessionID i dcfg c2 p rounds
         | Waiting \<Rightarrow> Ok (False, c2)
         | _ \<Rightarrow> Ok (True, c2)))"

section \<open>One round\<close>

lemma handleConn_ends:
  assumes "handleConn E C c (Some p) r sid i = Ok c1" "mget (sessions c) (sessionKey r sid) = Some sess"
  shows "mget (sessions c1) (sessionKey r sid) = (if mget0 (connCount c) (sessionKey r sid) = 0 then None else Some sess)"
    and "config c1 = config c"
proof -
  obtain h c2 where h: "handleConn_enter c (Some p) r sid i = Some (h, c2)" "hKey h = sessionKey r sid"
      "sessions c2 = sessions c" "config c2 = config c" "connCount c2 = mincr (connCount c) (sessionKey r sid)"
    using assms(2) by (auto simp: handleConn_enter_def hKey_def Let_def)
  obtain e c3 where c3: "handleConn_loop E C c2 (hConn h) (hSess h) i = (Ok e, c3)" "handleConn_exit E c3 h = Ok c1"
    using assms(1) h(1) by (auto simp: handleConn_def split: prod.splits outcome.splits)
  have k: "sessions c3 = sessions c2" "config c3 = config c2" "connCount c3 = connCount c2"
    by (subst handleConn_loop_keeps [OF c3(1)], simp)+
  show "mget (sessions c1) (sessionKey r sid) = (if mget0 (connCount c) (sessionKey r sid) = 0 then None else Some sess)"
    using exit_eqs(3) [OF c3(2), of "sessionKey r sid"] assms(2) h k by simp
  show "config c1 = config c" using exit_eqs(7) [OF c3(2)] h(4) k(2) by simp
qed

lemma reconnect_gone:
  assumes "mget (sessions c) (sessionKey r sid) = None"
  shows "\<exists>e. reconnect E C P unjson c r sid i dcfg att ce net rnd now = (Ok (None, Some e), c) \<and>
    (e = ErrClosed \<or> e = ErrSessionClosed)"
  using assms by (simp add: reconnect_def)

lemma reconnect_registers:
  assumes "reconnect E C P unjson c r sid i dcfg att ce net rnd now = (Ok (Some p, None), c')"
  shows "Option.bind (mget (sessionConns c') (sessionKey r sid)) (\<lambda>m. mget m (connID (int i))) = Some p"
  using assms
  by (auto simp: reconnect_def dialTcpConn_def dialTcpConn_register_def Let_def split: go_splits)

text \<open>
  A session's only connection is not replaced: its handler has dropped the session when it
  ends, and the goroutine returns at its first \<open>reconnect\<close>, without dialing, also when
  \<open>ReconnectRetries\<close> asks for unlimited retries.
\<close>

lemma sole_connection_not_replaced:
  assumes "handleConn E C c (Some p) r sid (int i) = Ok c1" "mget (sessions c) (sessionKey r sid) = Some sess"
    and "ReconnectRetries (config c) \<noteq> 0" "mget0 (connCount c) (sessionKey r sid) = 0"
    and "mget (sessions (others c1)) (sessionKey r sid) = mget (sessions c1) (sessionKey r sid)"
  shows "mget (sessions c1) (sessionKey r sid) = None \<and>
    dialConn E C P unjson r sid i dcfg c p (((others, att, ce, net, rnd, now) # ts) # rounds) = Ok (True, others c1)"
proof -
  note e = handleConn_ends [OF assms(1,2)]
  have left: "retriesLeft c1 0" "ReconnectRetries (config c1) \<noteq> 0" using assms(3) e(2) by (auto simp: retriesLeft_def)
  show ?thesis
    using reconnect_gone [of "others c1" r sid E C P unjson i dcfg att ce net rnd now] assms(4,5) e(1) left assms(1) by auto
qed

section \<open>Failed tries\<close>

text \<open>
  A sequence of \<open>reconnect\<close> calls that fail, none of them because the client or the session is
  closed, while nobody changes the configuration.
\<close>

inductive reconnects_fail ::
  "'w ext \<Rightarrow> crypto \<Rightarrow> proto \<Rightarrow> (bytes \<Rightarrow> PubAddrs outcome) \<Rightarrow> string \<Rightarrow> bytes \<Rightarrow> nat \<Rightarrow> DialConfig \<Rightarrow>
   ('w, 'a) client_scheme \<Rightarrow> ('w, 'a) client_scheme reconnect_try list \<Rightarrow> ('w, 'a) client_scheme \<Rightarrow> bool"
  for E C P unjson r sid i dcfg where
  no_try: "reconnects_fail E C P unjson r sid i dcfg c [] c"
| failed_try: "config (others c) = config c \<Longrightarrow>
    reconnect E C P unjson (others c) r sid i dcfg att ce net rnd now = (Ok (conn, Some e), c1) \<Longrightarrow>
    e \<noteq> ErrClosed \<Longrightarrow> e \<noteq> ErrSessionClosed \<Longrightarrow> reconnects_fail E C P unjson r sid i dcfg c1 ts c' \<Longrightarrow>
    reconnects_fail E C P unjson r sid i dcfg c ((others, att, ce, net, rnd, now) # ts) c'"

lemma retryLoop_failures:
  assumes "reconnects_fail E C P unjson r sid i dcfg c fs c'" "0 \<le> j"
    and "ReconnectRetries (config c) < 0 \<or> j + int (length fs) \<le> ReconnectRetries (config c)"
  shows "retryLoop E C P unjson r sid i dcfg j c (fs @ ts) =
      retryLoop E C P unjson r sid i dcfg (j + int (length fs)) c' ts \<and> config c' = config c"
  using assms
proof (induction arbitrary: j rule: reconnects_fail.induct)
  case (failed_try others c att ce net rnd now conn e c1 fs c')
  have cfg: "config c1 = config c" using reconnect_keeps [OF failed_try(2)] failed_try(1) by simp
  have "retriesLeft c j" using failed_try(8) by (auto simp: retriesLeft_def)
  moreover have "retryLoop E C P unjson r sid i dcfg (j + 1) c1 (fs @ ts) =
      retryLoop E C P unjson r sid i dcfg (j + 1 + int (length fs)) c' ts \<and> config c' = config c"
    using failed_try(6) [of "j + 1"] failed_try(7,8) cfg by (simp add: add.assoc)
  ultimately show ?case using failed_try(2-4) by (simp add: add.assoc)
qed simp

section \<open>Properties\<close>

text \<open>
  C11: a broken connection is replaced while the session lives. When a connection of a dialed
  session ends and another handler of the session is running, the session stays registered;
  after any number of failed tries, unlimited for a negative \<open>ReconnectRetries\<close> and fewer than the
  setting for a positive one, a \<open>reconnect\<close> that succeeds puts the new connection into the
  session's table under the old index, and the goroutine handles it next. After as many failures
  as a positive setting allows, the goroutine returns without a further try.
\<close>

theorem reconnects_while_session_lives:
  assumes "handleConn E C c (Some p) r sid (int i) = Ok c1" "mget (sessions c) (sessionKey r sid) = Some sess"
    and "mget0 (connCount c) (sessionKey r sid) \<noteq> 0" "R = ReconnectRetries (config c)" "R \<noteq> 0"
    and "reconnects_fail E C P unjson r sid i dcfg c1 fs c2"
    and "reconnect E C P unjson (others c2) r sid i dcfg att ce net rnd now = (Ok (Some p', None), c3)"
  shows "mget (sessions c1) (sessionKey r sid) = Some sess \<and>
    Option.bind (mget (sessionConns c3) (sessionKey r sid)) (\<lambda>m. mget m (connID (int i))) = Some p' \<and>
    (R < 0 \<or> int (length fs) < R \<longrightarrow>
      dialConn E C P unjson r sid i dcfg c p ((fs @ (others, att, ce, net, rnd, now) # ts) # rounds) =
      dialConn E C P unjson r sid i dcfg c3 p' rounds) \<and>
    (int (length fs) = R \<longrightarrow>
      dialConn E C P unjson r sid i dcfg c p ((fs @ (others, att, ce, net, rnd, now) # ts) # rounds) = Ok (True, c2))"
proof -
  note e = handleConn_ends [OF assms(1,2)]
  have "retryLoop E C P unjson r sid i dcfg 0 c1 (fs @ (others, att, ce, net, rnd, now) # ts) =
      (if R < 0 \<or> int (length fs) < R then Ok (Proceed (Some p'), c3) else Ok (Exhausted, c2))"
    if "R < 0 \<or> int (length fs) \<le> R"
    using retryLoop_failures [OF assms(6), of 0 "(others, att, ce, net, rnd, now) # ts"] that assms(4,7) e(2)
    by (simp add: retriesLeft_def)
  then show ?thesis
    using e assms(1,3-5) reconnect_registers [OF assms(7)] by simp
qed

text \<open>
  Bob's session with Alice has two connections; number 7 ends. Alice does not answer the first
  query, and is dialed again after the second.
\<close>

definition bobTwo :: "demo_world client" where
  "bobTwo = (cl demo2)\<lparr>config := (config (cl demo2))\<lparr>ReconnectRetries := - 1\<rparr>,
     connCount := [(''alice:01'', 1)], addrConnCount := [(''alice'', [(''5.6.7.8:81'', 1)])]\<rparr>"

lemma bobTwo_fields:
  "sessions bobTwo = [(''alice:01'', 0)]" "connCount bobTwo = [(''alice:01'', 1)]" "conns bobTwo = demoHeap"
  "addrConnCount bobTwo = [(''alice'', [(''5.6.7.8:81'', 1)])]" "ReconnectRetries (config bobTwo) = - 1"
  "pubAddrs bobTwo = []" "sessionConns bobTwo = [(''alice:01'', [(''0'', 7)])]"
  "SessionConfig (config bobTwo) = Some DefaultSessionConfig" "\<not> isClosed bobTwo"
  "world bobTwo = \<lparr>dwCache = [], dwClosed = [], dwRemote = [''alice'']\<rparr>" "privKey bobTwo = demoPub ''bob''"
  "sharedKeys bobTwo = []"
  by (simp_all add: bobTwo_def demo_defs DefaultConfig_def defaultConfig_def)

lemma bobTwo_handled:
  "\<exists>c1. handleConn demoExt demoCrypto bobTwo (Some 7) ''alice'' [1] (int 0) = Ok c1 \<and> pubAddrs c1 = [] \<and>
    \<not> isClosed c1 \<and> world c1 = world bobTwo \<and> privKey c1 = demoPub ''bob'' \<and> sharedKeys c1 = []"
proof -
  let ?n = "mincr (connCount bobTwo) ''alice:01''"
  let ?a = "addrConnIncr (addrConnCount bobTwo) ''alice'' ''1.2.3.4:80''"
  let ?c = "bobTwo\<lparr>connCount := ?n, addrConnCount := ?a\<rparr>"
  have k: "hKey demoH = ''alice:01''" by (simp add: hKey_def demoH_def demo_key)
  have n: "mget0 (mdecr ?n ''alice:01'') ''alice:01'' = 1"
    using mget0_mdecr [of ?n "''alice:01''"] mget0_mincr [of "connCount bobTwo" "''alice:01''"]
    by (simp add: bobTwo_fields mget0_def mget_def)
  have enter: "handleConn_enter bobTwo (Some 7) ''alice'' [1] 0 = Some (demoH, ?c)"
    by (simp add: handleConn_enter_def demo_key bobTwo_fields mget_def demoHeap_def newConn_def demoH_def Let_def)
  have m: "\<exists>cs. handleMsg demoExt demoCrypto ?c 7 0 0 = (Err ErrEOF, ?c\<lparr>conns := cs\<rparr>)"
    by (simp add: handleMsg_def bobTwo_fields readConn_def mget_def demoHeap_def newConn_def readMessage_def
        readFull.simps connRead_def) (rule exI, rule refl)
  then obtain cs where c2: "handleConn_loop demoExt demoCrypto ?c 7 0 0 = (Ok ErrEOF, ?c\<lparr>conns := cs\<rparr>)"
    using handleConn_loop.simps [of demoExt demoCrypto ?c 7 0 0] by auto
  have "0 < addrCnt ?a (hAddr demoH)"
    by (simp add: bobTwo_fields addrConnIncr_def addrCnt_def hAddr_def demoH_def gomap_eval mincr_def)
  then obtain a' ev where "addrConnDecr ?a (hRemote demoH) (hConnStr demoH) = Ok (a', ev)"
    using addrConnDecr_ok by (metis hAddr_def)
  then have x: "\<exists>c1. handleConn_exit demoExt (?c\<lparr>conns := cs\<rparr>) demoH = Ok c1 \<and> pubAddrs c1 = [] \<and>
      \<not> isClosed c1 \<and> world c1 = world bobTwo \<and> privKey c1 = demoPub ''bob'' \<and> sharedKeys c1 = []"
    using n by (simp add: handleConn_exit_def k bobTwo_fields mdel_def Let_def)
  show ?thesis using enter c2 x by (simp add: handleConn_def demoH_def)
qed

theorem reconnects_while_session_lives_witness:
  "\<exists>c' p'. \<forall>rounds. dialConn demoExt demoCrypto demoProto (\<lambda>_. Ok demoPubAddrs) ''alice'' [1] 0
      \<lparr>DialTimeout = 5000, dialSession = DefaultSessionConfig\<rparr> bobTwo 7
      ([(id, [Stopped], ErrContext 0, Err ErrEOF, Err ErrEOF, 0),
        (id, [Replied []], ErrEOF, Ok (newConn ''1.2.3.4:80'' [] ErrEOF), Ok (replicate 24 7), 0)] # rounds) =
    dialConn demoExt demoCrypto demoProto (\<lambda>_. Ok demoPubAddrs) ''alice'' [1] 0
      \<lparr>DialTimeout = 5000, dialSession = DefaultSessionConfig\<rparr> c' p' rounds"
proof -
  let ?dc = "\<lparr>DialTimeout = 5000, dialSession = DefaultSessionConfig\<rparr>"
  let ?rec = "\<lambda>c. reconnect demoExt demoCrypto demoProto (\<lambda>_. Ok demoPubAddrs) c ''alice'' [1] 0 ?dc"
  obtain c1 where c1: "handleConn demoExt demoCrypto bobTwo (Some 7) ''alice'' [1] (int 0) = Ok c1" "pubAddrs c1 = []"
    "\<not> isClosed c1" "world c1 = world bobTwo" "privKey c1 = demoPub ''bob''" "sharedKeys c1 = []"
    using bobTwo_handled by blast
  have s: "mget (sessions bobTwo) (sessionKey ''alice'' [1]) = Some 0"
    "mget0 (connCount bobTwo) (sessionKey ''alice'' [1]) \<noteq> 0" "- 1 = ReconnectRetries (config bobTwo)" "- 1 \<noteq> (0 :: int)"
    by (simp_all add: bobTwo_fields demo_key mget_def mget0_def)
  have live: "mget (sessions c1) (sessionKey ''alice'' [1]) = Some 0" "\<not> sessIsClosed demoExt (world c1) 0"
    using handleConn_ends(1) [OF c1(1) s(1)] s(2) c1(4) by (simp_all add: bobTwo_fields demoExt_def)
  have cache: "getCachedPubAddrs c1 ''alice'' = None" using c1(2) by (simp add: getCachedPubAddrs_def)
  have "?rec c1 [Stopped] (ErrContext 0) (Err ErrEOF) (Err ErrEOF) 0 = (Ok (None, Some (ErrContext 0)), c1)"
    using c1(3) live cache by (simp add: reconnect_def getPubAddrsFromRemote_def awaitReply_def)
  then have f: "reconnects_fail demoExt demoCrypto demoProto (\<lambda>_. Ok demoPubAddrs) ''alice'' [1] 0 ?dc c1
      [(id, [Stopped], ErrContext 0, Err ErrEOF, Err ErrEOF, 0)] c1"
    by (intro failed_try [of id]) (auto intro: no_try)
  let ?c2 = "c1\<lparr>pubAddrs := mput (pubAddrs c1) ''alice'' demoPubAddrs\<rparr>"
  have g: "getPubAddrsFromRemote (\<lambda>_. Ok demoPubAddrs) c1 ''alice'' [Replied []] ErrEOF = (Ok demoPubAddrs, ?c2)"
    "usableAddr demoAddr" "Addrs demoPubAddrs = [Some demoAddr]"
    using cache by (simp_all add: getPubAddrsFromRemote_def awaitReply_def takeReply_def demoPubAddrs_def demoAddr_def
        usableAddr_def)
  have t: "keyring_ok demoCrypto ?c2" "peerKey demoCrypto (privKey ?c2) ''alice'' = Ok (demoKey ''alice'' ''bob'')"
    "freshConn (newConn ''1.2.3.4:80'' [] ErrEOF)" "length (replicate 24 7 :: bytes) = nonceSize"
    "MarshalMeta demoProto (dialMeta [1] SessionType_TCP) = Ok [1, 1, 1, 0]"
    using c1(5,6) by (simp_all add: demo_peerKey freshConn_def newConn_def nonceSize_def demoProto_def demoMarshal_def
        putField_def bytes_of_string_def SessionType_TCP_def)
  obtain c3 where "?rec c1 [Replied []] ErrEOF (Ok (newConn ''1.2.3.4:80'' [] ErrEOF)) (Ok (replicate 24 7)) 0 =
      (Ok (Some (nextConn ?c2), None), c3)"
    using dialTcpConn_sends [OF demoCrypto_laws t(1,2) g(2) t(3-5), where i = 0 and dcfg = ?dc and now = 0] c1(3) live g
    by (fastforce simp: reconnect_def)
  then have "?rec (id c1) [Replied []] ErrEOF (Ok (newConn ''1.2.3.4:80'' [] ErrEOF)) (Ok (replicate 24 7)) 0 =
      (Ok (Some (nextConn ?c2), None), c3)" by simp
  note T = reconnects_while_session_lives [where others = id and ts = "[]", OF c1(1) s(1-4) f this]
  show ?thesis by (rule exI [of _ c3], rule exI [of _ "nextConn ?c2"]) (use T in auto)
qed

end
