(* ===== verification/Udp_Session.thy ===== *)
theory Udp_Session
  imports Dialer
begin

text \<open>
  \<open>udpsession.go\<close>: the UDP sessions of a client. A session's datagrams travel over an encrypted
  UDP connection (\<open>tuna.EncryptUDPConn\<close>, a parameter of the model), its life and death over a
  TCP connection of the client. A listener serves any number of dialers; a dialer has one
  peer.
\<close>

section \<open>Addresses and state\<close>

text \<open>A \<open>*net.UDPAddr\<close> is represented by its \<open>String()\<close>, the only thing the code uses of it.\<close>

record udpSessionAddr =
  usaID :: bytes
  remoteNknAddr :: string
  udpAddr :: string

definition newUdpSessionAddr :: "bytes \<Rightarrow> string \<Rightarrow> string \<Rightarrow> udpSessionAddr" where
  "newUdpSessionAddr sid remote u = \<lparr>usaID = sid, remoteNknAddr = remote, udpAddr = u\<rparr>"

definition usa_String :: "udpSessionAddr \<Rightarrow> string" where
  "usa_String a = sessionKey (remoteNknAddr a) (usaID a)"

text \<open>
  The \<open>net.Addr\<close> a caller hands in: nil, a session address (possibly a nil pointer in the
  interface), or an address of another type.
\<close>

datatype net_addr = NilAddr | SessAddr "udpSessionAddr option" | OtherAddr

text \<open>
  The operations of \<open>tuna.EncryptUDPConn\<close> on its state \<open>'u\<close>: \<open>IsClosed\<close>, \<open>Close\<close>,
  \<open>WriteMsgUDP\<close> (to an address, or to the connected peer), \<open>AddCodec\<close>, the setters of
  deadlines and buffer sizes. Time is a number, the zero time is \<open>None\<close>.
\<close>

datatype sock_opt = Deadline "int option" | ReadDeadline "int option" | WriteDeadline "int option"
  | WriteBuffer int | ReadBuffer int

record 'u udp_ops =
  ucIsClosed :: "'u \<Rightarrow> bool"
  ucClose :: "'u \<Rightarrow> 'u"
  ucWriteMsg :: "'u \<Rightarrow> bytes \<Rightarrow> string option \<Rightarrow> int outcome \<times> 'u"
  ucAddCodec :: "'u \<Rightarrow> string \<Rightarrow> bytes \<Rightarrow> unit outcome \<times> 'u"
  ucSet :: "'u \<Rightarrow> sock_opt \<Rightarrow> unit outcome \<times> 'u"
  ucLocalAddr :: "'u \<Rightarrow> string"

definition udp_laws :: "'u udp_ops \<Rightarrow> bool" where
  "udp_laws U \<longleftrightarrow>
     (\<forall>u. ucIsClosed U (ucClose U u)) \<and>
     (\<forall>u b a. ucIsClosed U (snd (ucWriteMsg U u b a)) = ucIsClosed U u) \<and>
     (\<forall>u b a. no_panic (fst (ucWriteMsg U u b a))) \<and>
     (\<forall>u a k. ucIsClosed U (snd (ucAddCodec U u a k)) = ucIsClosed U u) \<and>
     (\<forall>u a k. no_panic (fst (ucAddCodec U u a k)))"

lemma udp_lawsD:
  assumes "udp_laws U"
  shows "ucIsClosed U (ucClose U u)"
    and "ucIsClosed U (snd (ucWriteMsg U u b a)) = ucIsClosed U u"
    and "no_panic (fst (ucWriteMsg U u b a))"
    and "ucIsClosed U (snd (ucAddCodec U u a' k)) = ucIsClosed U u"
    and "no_panic (fst (ucAddCodec U u a' k))"
  using assms unfolding udp_laws_def by blast+

text \<open>
  The struct. \<open>recvChan\<close> is a channel of capacity \<open>recvCap\<close>; \<open>readContext\<close> is a context
  that is never cancelled and expires at \<open>readDeadline\<close>. The pointers \<open>tcpConn\<close> and
  \<open>tcpConns\<close> point into the heap of connections of the client.
\<close>

type_synonym recvData = "bytes \<times> udpSessionAddr option"

record 'u UdpSession =
  isListener :: bool
  udpConn :: "'u option"
  recvChan :: "recvData list"
  recvCap :: int
  recvSize :: int
  readDeadline :: "int option"
  tcpConn :: "nat option"
  peer :: "udpSessionAddr option"
  sessKeyToSessAddr :: "(string, udpSessionAddr) gomap"
  udpAddrToSessAddr :: "(string, udpSessionAddr) gomap"
  tcpConns :: "(string, nat) gomap"

definition newUdpSession :: "('w, 'a) client_scheme \<Rightarrow> bool \<Rightarrow> 'u UdpSession outcome" where
  "newUdpSession ts listener =
     (if MaxUdpDatagramBuffered (config ts) < 0
      then Panic (MakeChanSize (MaxUdpDatagramBuffered (config ts)))
      else Ok \<lparr>isListener = listener, udpConn = None, recvChan = [],
               recvCap = MaxUdpDatagramBuffered (config ts), recvSize = 0, readDeadline = None,
               tcpConn = None, peer = None, sessKeyToSessAddr = [], udpAddrToSessAddr = [], tcpConns = []\<rparr>)"

definition GetEstablishedUDPConn :: "'u udp_ops \<Rightarrow> ('w, 'a) client_scheme \<Rightarrow> 'u UdpSession \<Rightarrow> 'u outcome" where
  "GetEstablishedUDPConn U ts us =
     (if isClosed ts then Err ErrClosed
      else (case udpConn us of
              None \<Rightarrow> Err ErrNilConn
            | Some u \<Rightarrow> if ucIsClosed U u then Err ErrClosed else Ok u))"

definition IsClosed :: "'u udp_ops \<Rightarrow> ('w, 'a) client_scheme \<Rightarrow> 'u UdpSession \<Rightarrow> bool" where
  "IsClosed U ts us = (case GetEstablishedUDPConn U ts us of Ok u \<Rightarrow> False | _ \<Rightarrow> True)"

definition LocalAddr :: "'u udp_ops \<Rightarrow> ('w, 'a) client_scheme \<Rightarrow> 'u UdpSession \<Rightarrow> string option" where
  "LocalAddr U ts us = (case GetEstablishedUDPConn U ts us of Ok u \<Rightarrow> Some (ucLocalAddr U u) | _ \<Rightarrow> None)"

definition RemoteAddr :: "'u UdpSession \<Rightarrow> string option" where
  "RemoteAddr us = (if isListener us then None else map_option udpAddr (peer us))"

text \<open>\<open>SetDeadline\<close>, \<open>SetWriteDeadline\<close>, \<open>SetWriteBuffer\<close>, \<open>SetReadBuffer\<close>, and \<open>SetReadDeadline\<close>.\<close>

definition setOption ::
  "'u udp_ops \<Rightarrow> ('w, 'a) client_scheme \<Rightarrow> 'u UdpSession \<Rightarrow> sock_opt \<Rightarrow> unit outcome \<times> 'u UdpSession" where
  "setOption U ts us opt =
     (case GetEstablishedUDPConn U ts us of
        Ok u \<Rightarrow> (case ucSet U u opt of (r, u') \<Rightarrow> (r, us\<lparr>udpConn := Some u'\<rparr>))
      | Err e \<Rightarrow> (Err e, us)
      | Panic p \<Rightarrow> (Panic p, us))"

definition SetReadDeadline ::
  "'u udp_ops \<Rightarrow> ('w, 'a) client_scheme \<Rightarrow> 'u UdpSession \<Rightarrow> int option \<Rightarrow> unit outcome \<times> 'u UdpSession" where
  "SetReadDeadline U ts us t = setOption U ts (us\<lparr>readDeadline := t\<rparr>) (ReadDeadline t)"

section \<open>Reading and writing user data\<close>

text \<open>
  \<open>ReadFrom\<close> with a buffer of \<open>blen\<close> bytes at time \<open>now\<close>: taking a message off the channel
  and giving back its size (under the lock) are two steps of the goroutine. When a message
  is there and the deadline has passed, Go's \<open>select\<close> picks either; \<open>preferCtx\<close> is that
  choice. \<open>None\<close>: the call blocks. \<open>ErrContext 1\<close> is \<open>context.DeadlineExceeded\<close>.
\<close>

definition ctxDone :: "'u UdpSession \<Rightarrow> int \<Rightarrow> bool" where
  "ctxDone us now = (case readDeadline us of None \<Rightarrow> False | Some t \<Rightarrow> t \<le> now)"

definition ReadFrom_take ::
  "'u udp_ops \<Rightarrow> ('w, 'a) client_scheme \<Rightarrow> 'u UdpSession \<Rightarrow> bool \<Rightarrow> int \<Rightarrow> (recvData outcome \<times> 'u UdpSession) option" where
  "ReadFrom_take U ts us preferCtx now =
     (if IsClosed U ts us then Some (Err ErrClosed, us)
      else (case recvChan us of
              [] \<Rightarrow> (if ctxDone us now then Some (Err (ErrContext 1), us) else None)
            | msg # rest \<Rightarrow>
                (if ctxDone us now \<and> preferCtx then Some (Err (ErrContext 1), us)
                 else Some (Ok msg, us\<lparr>recvChan := rest\<rparr>))))"

definition ReadFrom_account :: "'u UdpSession \<Rightarrow> nat \<Rightarrow> 'u UdpSession" where
  "ReadFrom_account us len = us\<lparr>recvSize := recvSize us - int len\<rparr>"

definition ReadFrom ::
  "'u udp_ops \<Rightarrow> ('w, 'a) client_scheme \<Rightarrow> 'u UdpSession \<Rightarrow> nat \<Rightarrow> bool \<Rightarrow> int \<Rightarrow>
   ((bytes \<times> udpSessionAddr option) outcome \<times> 'u UdpSession) option" where
  "ReadFrom U ts us blen preferCtx now =
     (case ReadFrom_take U ts us preferCtx now of
        None \<Rightarrow> None
      | Some (Ok (data, usa), us1) \<Rightarrow> Some (Ok (take blen data, usa), ReadFrom_account us1 (length data))
      | Some (Err e, us1) \<Rightarrow> Some (Err e, us1)
      | Some (Panic p, us1) \<Rightarrow> Some (Panic p, us1))"

definition Read ::
  "'u udp_ops \<Rightarrow> ('w, 'a) client_scheme \<Rightarrow> 'u UdpSession \<Rightarrow> nat \<Rightarrow> bool \<Rightarrow> int \<Rightarrow>
   (bytes outcome \<times> 'u UdpSession) option" where
  "Read U ts us blen preferCtx now =
     map_option (\<lambda>(r, us'). (obind r (\<lambda>(b, _). Ok b), us')) (ReadFrom U ts us blen preferCtx now)"

text \<open>
  \<open>getUdpAddr\<close>: a listener looks the session up by its key, so the address a caller got from
  \<open>ReadFrom\<close> is only a name of the session. The dialer branch is never used by \<open>WriteTo\<close>.
\<close>

definition getUdpAddr :: "'u UdpSession \<Rightarrow> net_addr \<Rightarrow> string outcome" where
  "getUdpAddr us a =
     (if \<not> isListener us
      then (case peer us of None \<Rightarrow> Panic NilDereference | Some p \<Rightarrow> Ok (udpAddr p))
      else (case a of
              NilAddr \<Rightarrow> Err ErrWrongAddr
            | OtherAddr \<Rightarrow> Err ErrWrongAddr
            | SessAddr None \<Rightarrow> Panic NilDereference
            | SessAddr (Some usa) \<Rightarrow>
                (case mget (sessKeyToSessAddr us) (usa_String usa) of
                   Some usa' \<Rightarrow> Ok (udpAddr usa')
                 | None \<Rightarrow> Err ErrWrongAddr)))"

definition WriteTo ::
  "'u udp_ops \<Rightarrow> ('w, 'a) client_scheme \<Rightarrow> 'u UdpSession \<Rightarrow> bytes \<Rightarrow> net_addr \<Rightarrow> int outcome \<times> 'u UdpSession" where
  "WriteTo U ts us b a =
     (let buf = headerByte HeaderType_USER # b in
      case (if isListener us then map_outcome Some (getUdpAddr us a) else Ok None) of
        Err e \<Rightarrow> (Err e, us)
      | Panic p \<Rightarrow> (Panic p, us)
      | Ok dst \<Rightarrow>
          (case GetEstablishedUDPConn U ts us of
             Err e \<Rightarrow> (Err e, us)
           | Panic p \<Rightarrow> (Panic p, us)
           | Ok u \<Rightarrow>
               (case ucWriteMsg U u buf dst of
                  (r, u') \<Rightarrow> (map_outcome (\<lambda>n. n - 1) r, us\<lparr>udpConn := Some u'\<rparr>))))"

definition Write ::
  "'u udp_ops \<Rightarrow> ('w, 'a) client_scheme \<Rightarrow> 'u UdpSession \<Rightarrow> bytes \<Rightarrow> int outcome \<times> 'u UdpSession" where
  "Write U ts us b = (if isListener us then (Err ErrOnlyDailer, us) else WriteTo U ts us b (SessAddr (peer us)))"

section \<open>Session messages\<close>

definition newSessionData :: "proto \<Rightarrow> int \<Rightarrow> bytes \<Rightarrow> bytes outcome" where
  "newSessionData P msgType data =
     obind (MarshalData P \<lparr>MsgType = msgType, Data = data\<rparr>) (\<lambda>buf. Ok (headerByte HeaderType_SESSION # buf))"

definition parseSessionData :: "proto \<Rightarrow> bytes \<Rightarrow> SessionData outcome" where
  "parseSessionData P b = UnmarshalData P b"

text \<open>Raw bytes on a TCP connection of the client, without framing.\<close>

definition rawWrite :: "('w, 'a) client_scheme \<Rightarrow> nat \<Rightarrow> bytes \<Rightarrow> ('w, 'a) client_scheme" where
  "rawWrite c p b =
     (case mget (conns c) p of
        None \<Rightarrow> c
      | Some k \<Rightarrow> (case connWrite k b of (_, _, k') \<Rightarrow> c\<lparr>conns := mput (conns c) p k'\<rparr>))"

text \<open>
  \<open>sendCloseMsg\<close>: a dialer tells its listener; a listener tells the dialer behind one UDP
  address, or (with a nil address) every dialer that has a session and a TCP connection.
  Its error result is not used by any caller.
\<close>

definition sendCloseTo :: "('w, 'a) client_scheme \<Rightarrow> 'u UdpSession \<Rightarrow> bytes \<Rightarrow> udpSessionAddr \<Rightarrow> ('w, 'a) client_scheme" where
  "sendCloseTo c us b usa =
     (case mget (tcpConns us) (usa_String usa) of Some p \<Rightarrow> rawWrite c p b | None \<Rightarrow> c)"

definition sendCloseMsg ::
  "proto \<Rightarrow> ('w, 'a) client_scheme \<Rightarrow> 'u UdpSession \<Rightarrow> string option \<Rightarrow> ('w, 'a) client_scheme outcome" where
  "sendCloseMsg P c us ua =
     (case newSessionData P MsgType_CLOSE [] of
        Err e \<Rightarrow> Ok c
      | Panic p \<Rightarrow> Panic p
      | Ok b \<Rightarrow>
          (case (isListener us, tcpConn us, ua) of
             (False, Some p, _) \<Rightarrow> Ok (rawWrite c p b)
           | (_, _, Some a) \<Rightarrow>
               Ok (case mget (udpAddrToSessAddr us) a of Some usa \<Rightarrow> sendCloseTo c us b usa | None \<Rightarrow> c)
           | _ \<Rightarrow> Ok (foldl (\<lambda>c usa. sendCloseTo c us b usa) c (map snd (sessKeyToSessAddr us)))))"

text \<open>The connection was closed by the peer, or the peer said so.\<close>

definition handleConnClosed ::
  "'u udp_ops \<Rightarrow> ('w, 'a) client_scheme \<Rightarrow> 'u UdpSession \<Rightarrow> string \<Rightarrow> (('w, 'a) client_scheme \<times> 'u UdpSession) outcome" where
  "handleConnClosed U c us sessKey =
     (if isListener us
      then (case mget (sessKeyToSessAddr us) sessKey of
              None \<Rightarrow> Ok (c, us)
            | Some usa \<Rightarrow>
                (let us1 = us\<lparr>sessKeyToSessAddr := mdel (sessKeyToSessAddr us) sessKey,
                              udpAddrToSessAddr := mdel (udpAddrToSessAddr us) (udpAddr usa)\<rparr>
                 in case mget (tcpConns us1) sessKey of
                      None \<Rightarrow> Ok (c, us1)
                    | Some p \<Rightarrow> Ok (closeConn c p, us1\<lparr>tcpConns := mdel (tcpConns us1) sessKey\<rparr>)))
      else (case (udpConn us, tcpConn us) of
              (Some u, Some p) \<Rightarrow> Ok (closeConn c p, us\<lparr>peer := None, udpConn := Some (ucClose U u)\<rparr>)
            | _ \<Rightarrow> Panic NilDereference))"

text \<open>The endpoint closes: the result is \<open>Close\<close>'s error, that of closing the TCP connection twice.\<close>

definition Close ::
  "'u udp_ops \<Rightarrow> proto \<Rightarrow> ('w, 'a) client_scheme \<Rightarrow> 'u UdpSession \<Rightarrow>
   (go_error option \<times> ('w, 'a) client_scheme \<times> 'u UdpSession) outcome" where
  "Close U P c us =
     obind (sendCloseMsg P c us None) (\<lambda>c1.
       let us1 = (case GetEstablishedUDPConn U c1 us of
                    Ok u \<Rightarrow> us\<lparr>udpConn := Some (ucClose U u)\<rparr> | _ \<Rightarrow> us)
       in if isListener us
          then Ok (None, closeConns c1 (map snd (tcpConns us1)),
                   us1\<lparr>sessKeyToSessAddr := [], udpAddrToSessAddr := [], tcpConns := []\<rparr>)
          else (case tcpConn us1 of
                  None \<Rightarrow> Ok (None, c1, us1\<lparr>peer := None\<rparr>)
                | Some p \<Rightarrow> Ok (if connIsClosed c1 p then Some ErrNetClosed else None,
                                closeConn c1 p, us1\<lparr>peer := None\<rparr>)))"

section \<open>Setting up a session\<close>

definition addCodec ::
  "'u udp_ops \<Rightarrow> crypto \<Rightarrow> ('w, 'a) client_scheme \<Rightarrow> 'u UdpSession \<Rightarrow> string \<Rightarrow> string \<Rightarrow>
   unit outcome \<times> ('w, 'a) client_scheme \<times> 'u UdpSession" where
  "addCodec U C c us ua remoteAddr =
     (case ClientAddrToPubKey C remoteAddr of
        Err e \<Rightarrow> (Err e, c, us)
      | Panic p \<Rightarrow> (Panic p, c, us)
      | Ok remotePublicKey \<Rightarrow>
          (case getOrComputeSharedKey C c remotePublicKey of
             (Err e, c1) \<Rightarrow> (Err e, c1, us)
           | (Panic p, c1) \<Rightarrow> (Panic p, c1, us)
           | (Ok sharedKey, c1) \<Rightarrow>
               (case GetEstablishedUDPConn U c1 us of
                  Err e \<Rightarrow> (Err e, c1, us)
                | Panic p \<Rightarrow> (Panic p, c1, us)
                | Ok u \<Rightarrow> (case ucAddCodec U u ua sharedKey of (r, u') \<Rightarrow> (r, c1, us\<lparr>udpConn := Some u'\<rparr>)))))"

text \<open>
  A listener's handling of a session datagram; \<open>addCodec\<close>'s error is dropped. A session key
  that is already registered is left alone. The two message types first, then the dispatch. The
  lookups in the two tables are made without the lock.
\<close>

definition registerSession ::
  "'u udp_ops \<Rightarrow> crypto \<Rightarrow> ('w, 'a) client_scheme \<Rightarrow> 'u UdpSession \<Rightarrow> string \<Rightarrow> SessionMetadata \<Rightarrow>
   unit outcome \<times> ('w, 'a) client_scheme \<times> 'u UdpSession" where
  "registerSession U C c us ua metadata =
     (let usa = newUdpSessionAddr (Id metadata) (DialerNknAddr metadata) ua in
      if mget (sessKeyToSessAddr us) (usa_String usa) \<noteq> None then (Ok (), c, us)
      else let us1 = us\<lparr>sessKeyToSessAddr := mput (sessKeyToSessAddr us) (usa_String usa) usa,
                        udpAddrToSessAddr := mput (udpAddrToSessAddr us) ua usa\<rparr>
           in case addCodec U C c us1 ua (DialerNknAddr metadata) of
                (r, c2, us2) \<Rightarrow> ((case r of Panic p \<Rightarrow> Panic p | _ \<Rightarrow> Ok ()), c2, us2))"

definition closeSessionAt ::
  "'u udp_ops \<Rightarrow> ('w, 'a) client_scheme \<Rightarrow> 'u UdpSession \<Rightarrow> string \<Rightarrow>
   unit outcome \<times> ('w, 'a) client_scheme \<times> 'u UdpSession" where
  "closeSessionAt U c us ua =
     (case mget (udpAddrToSessAddr us) ua of
        None \<Rightarrow> (Ok (), c, us)
      | Some usa \<Rightarrow>
          (case handleConnClosed U c us (usa_String usa) of
             Ok (c1, us1) \<Rightarrow> (Ok (), c1, us1)
           | Err e \<Rightarrow> (Err e, c, us)
           | Panic p \<Rightarrow> (Panic p, c, us)))"

definition handleMetaData ::
  "'u udp_ops \<Rightarrow> crypto \<Rightarrow> proto \<Rightarrow> ('w, 'a) client_scheme \<Rightarrow> 'u UdpSession \<Rightarrow> bytes \<Rightarrow> string \<Rightarrow>
   unit outcome \<times> ('w, 'a) client_scheme \<times> 'u UdpSession" where
  "handleMetaData U C P c us b ua =
     (if \<not> isListener us then (Ok (), c, us)
      else (case parseSessionData P b of
        Err e \<Rightarrow> (Err e, c, us)
      | Panic p \<Rightarrow> (Panic p, c, us)
      | Ok sd \<Rightarrow>
          if MsgType sd = MsgType_SESSIONID
          then (case UnmarshalMeta P (Data sd) of
                  Err e \<Rightarrow> (Err e, c, us)
                | Panic p \<Rightarrow> (Panic p, c, us)
                | Ok metadata \<Rightarrow> registerSession U C c us ua metadata)
          else if MsgType sd = MsgType_CLOSE then closeSessionAt U c us ua
          else (Err ErrWrongMsgFormat, c, us)))"

definition sendMetaData ::
  "'u udp_ops \<Rightarrow> proto \<Rightarrow> ('w, 'a) client_scheme \<Rightarrow> 'u UdpSession \<Rightarrow> bytes \<Rightarrow> unit outcome \<times> 'u UdpSession" where
  "sendMetaData U P ts us sid =
     (case obind (MarshalMeta P \<lparr>Id = sid, SessionType = SessionType_UDP, DialerNknAddr = addr ts\<rparr>)
             (newSessionData P MsgType_SESSIONID) of
        Err e \<Rightarrow> (Err e, us)
      | Panic p \<Rightarrow> (Panic p, us)
      | Ok b \<Rightarrow>
          (case GetEstablishedUDPConn U ts us of
             Err e \<Rightarrow> (Err e, us)
           | Panic p \<Rightarrow> (Panic p, us)
           | Ok u \<Rightarrow> (case ucWriteMsg U u b None of (r, u') \<Rightarrow> (map_outcome (\<lambda>_. ()) r, us\<lparr>udpConn := Some u'\<rparr>))))"

section \<open>Receiving\<close>

text \<open>
  The receive buffer is one array used for every datagram: reading \<open>n\<close> bytes overwrites its
  first \<open>n\<close> bytes and leaves the rest. \<open>b[1:n]\<close> panics for \<open>n = 0\<close>.
\<close>

definition fillBuf :: "bytes \<Rightarrow> bytes \<Rightarrow> bytes" where
  "fillBuf buf payload = payload @ drop (length payload) buf"

definition sliceFrom1 :: "bytes \<Rightarrow> int \<Rightarrow> bytes outcome" where
  "sliceFrom1 buf n = (if n < 1 then Panic (SliceBounds 1 n) else Ok (drop 1 (take (nat n) buf)))"

text \<open>The locked section for user data: both limits are checked, and a full channel drops it.\<close>

definition enqueue ::
  "('w, 'a) client_scheme \<Rightarrow> 'u UdpSession \<Rightarrow> bytes \<Rightarrow> int \<Rightarrow> udpSessionAddr option \<Rightarrow> 'u UdpSession outcome" where
  "enqueue ts us buf n usa =
     (if recvSize us + n - 1 < UDPRecvBufferSize (config ts)
      then (if n - 1 < 0 then Panic (MakeSliceLen (n - 1))
            else obind (sliceFrom1 buf n) (\<lambda>b.
              Ok (if int (length (recvChan us)) < recvCap us
                  then us\<lparr>recvChan := recvChan us @ [(b, usa)], recvSize := recvSize us + n - 1\<rparr>
                  else us)))
      else Ok us)"

text \<open>
  One iteration of \<open>recvMsg\<close> after a datagram has been read: \<open>buf\<close> is the buffer before it,
  \<open>payload\<close> the bytes delivered, \<open>ua\<close> their source. Errors of \<open>handleMetaData\<close> are logged.
\<close>

definition recvMsg_handle ::
  "'u udp_ops \<Rightarrow> crypto \<Rightarrow> proto \<Rightarrow> ('w, 'a) client_scheme \<Rightarrow> 'u UdpSession \<Rightarrow> bytes \<Rightarrow> bytes \<Rightarrow> string \<Rightarrow> bool \<Rightarrow>
   (('w, 'a) client_scheme \<times> 'u UdpSession) outcome" where
  "recvMsg_handle U C P c us buf payload ua encrypted =
     (let buf1 = fillBuf buf payload; n = int (length payload) in
      case buf1 of
        [] \<Rightarrow> Panic (IndexOutOfRange 0)
      | header # _ \<Rightarrow>
          if header = headerByte HeaderType_USER
          then (if \<not> encrypted then Ok (c, us)
                else if isListener us
                then (case mget (udpAddrToSessAddr us) ua of
                        None \<Rightarrow> Ok (c, us)
                      | Some usa \<Rightarrow> obind (enqueue c us buf1 n (Some usa)) (\<lambda>us1. Ok (c, us1)))
                else (case peer us of
                        None \<Rightarrow> Panic NilDereference
                      | Some p \<Rightarrow>
                          if ua = udpAddr p then obind (enqueue c us buf1 n None) (\<lambda>us1. Ok (c, us1))
                          else Ok (c, us)))
          else if header = headerByte HeaderType_SESSION
          then obind (sliceFrom1 buf1 n) (\<lambda>b.
                 case handleMetaData U C P c us b ua of
                   (Panic p, _) \<Rightarrow> Panic p
                 | (_, c1, us1) \<Rightarrow> Ok (c1, us1))
          else Ok (c, us))"

text \<open>
  The loop over what the connection delivers: read errors are skipped, and the loop ends
  when the client or the connection is closed (\<open>Err\<close>); with events left over it would go on.
\<close>

type_synonym datagram = "(bytes \<times> string \<times> bool) outcome"

fun recvMsg ::
  "'u udp_ops \<Rightarrow> crypto \<Rightarrow> proto \<Rightarrow> ('w, 'a) client_scheme \<Rightarrow> 'u UdpSession \<Rightarrow> bytes \<Rightarrow> datagram list \<Rightarrow>
   go_error option outcome \<times> ('w, 'a) client_scheme \<times> 'u UdpSession" where
  "recvMsg U C P c us buf ds =
     (case GetEstablishedUDPConn U c us of
        Err e \<Rightarrow> (Ok (Some e), c, us)
      | Panic p \<Rightarrow> (Panic p, c, us)
      | Ok u \<Rightarrow>
          (case ds of
             [] \<Rightarrow> (Ok None, c, us)
           | Err e # rest \<Rightarrow> recvMsg U C P c us buf rest
           | Panic p # rest \<Rightarrow> (Panic p, c, us)
           | Ok (payload, ua, enc) # rest \<Rightarrow>
               (case recvMsg_handle U C P c us buf payload ua enc of
                  Ok (c1, us1) \<Rightarrow> recvMsg U C P c1 us1 (fillBuf buf payload) rest
                | Err e \<Rightarrow> (Err e, c, us)
                | Panic p \<Rightarrow> (Panic p, c, us))))"

declare recvMsg.simps [simp del]

section \<open>The TCP side of a session\<close>

text \<open>
  \<open>handleTcpMsg\<close>: unframed reads of up to 1024 bytes into one buffer. It returns the error
  that ends the monitoring. The connection is one that a TCP dial or a TCP listener gave, so the
  type assertion \<open>conn.Conn.(*net.TCPConn)\<close> holds; \<open>SetKeepAlive\<close>, whose error is only logged,
  changes nothing that the code sees again, and the reads go past the \<open>Conn\<close> and its lock.
\<close>

definition rawRead :: "('w, 'a) client_scheme \<Rightarrow> nat \<Rightarrow> nat \<Rightarrow> bytes outcome \<times> ('w, 'a) client_scheme" where
  "rawRead c p m =
     (case mget (conns c) p of
        None \<Rightarrow> (Err ErrNetClosed, c)
      | Some k \<Rightarrow>
          (case connRead k m of
             (b, None, k') \<Rightarrow> (Ok b, c\<lparr>conns := mput (conns c) p k'\<rparr>)
           | (b, Some e, k') \<Rightarrow> (Err e, c\<lparr>conns := mput (conns c) p k'\<rparr>)))"

definition connWeight :: "('w, 'a) client_scheme \<Rightarrow> nat \<Rightarrow> nat" where
  "connWeight c p = (case mget (conns c) p of None \<Rightarrow> 0 | Some k \<Rightarrow> segWeight k)"

lemma rawRead_decreases: "rawRead c p m = (Ok b, c') \<Longrightarrow> 0 < m \<Longrightarrow> connWeight c' p < connWeight c p"
  by (auto simp: rawRead_def connWeight_def split: option.splits prod.splits dest: connRead_decreases)

function handleTcpMsg ::
  "'u udp_ops \<Rightarrow> proto \<Rightarrow> ('w, 'a) client_scheme \<Rightarrow> 'u UdpSession \<Rightarrow> nat \<Rightarrow> string \<Rightarrow> bytes \<Rightarrow>
   go_error outcome \<times> ('w, 'a) client_scheme \<times> 'u UdpSession" where
  "handleTcpMsg U P c us conn sessKey b =
     (case GetEstablishedUDPConn U c us of
        Err e \<Rightarrow> (Ok e, c, us)
      | Panic p \<Rightarrow> (Panic p, c, us)
      | Ok u \<Rightarrow>
          (case rawRead c conn 1024 of
             (Err e, c1) \<Rightarrow> (Ok e, c1, us)
           | (Panic p, c1) \<Rightarrow> (Panic p, c1, us)
           | (Ok payload, c1) \<Rightarrow>
               (let b1 = fillBuf b payload in
                if b1 = [] then (Panic (IndexOutOfRange 0), c1, us)
                else if hd b1 \<noteq> headerByte HeaderType_SESSION then handleTcpMsg U P c1 us conn sessKey b1
                else (case sliceFrom1 b1 (int (length payload)) of
                        Panic p \<Rightarrow> (Panic p, c1, us)
                      | Err e \<Rightarrow> (Err e, c1, us)
                      | Ok body \<Rightarrow>
                          (case parseSessionData P body of
                             Panic p \<Rightarrow> (Panic p, c1, us)
                           | Err e \<Rightarrow> handleTcpMsg U P c1 us conn sessKey b1
                           | Ok sd \<Rightarrow>
                               if MsgType sd = MsgType_CLOSE
                               then (case handleConnClosed U c1 us sessKey of
                                       Ok (c2, us2) \<Rightarrow> (Ok ErrClosed, c2, us2)
                                     | Err e \<Rightarrow> (Err e, c1, us)
                                     | Panic p \<Rightarrow> (Panic p, c1, us))
                               else handleTcpMsg U P c1 us conn sessKey b1)))))"
  by pat_completeness auto
termination
  by (relation "measure (\<lambda>(U, P, c, us, conn, k, b). connWeight c conn)")
     (auto intro: rawRead_decreases [OF sym])

declare handleTcpMsg.simps [simp del]

section \<open>Dialing\<close>

text \<open>
  \<open>dialUdpConn\<close>: the first usable address for which \<open>net.DialUDP\<close> (\<open>dial\<close>) succeeds. Entries
  are dereferenced without a nil check. The result pairs the connection and its address with
  the error, which is nil when no entry was usable at all.
\<close>

fun dialUdpConn ::
  "(PubAddr \<Rightarrow> 'u outcome) \<Rightarrow> go_error option \<Rightarrow> PubAddr option list \<Rightarrow>
   (('u \<times> PubAddr) option \<times> go_error option) outcome" where
  "dialUdpConn dial err [] = Ok (None, err)"
| "dialUdpConn dial err (None # as) = Panic NilDereference"
| "dialUdpConn dial err (Some a # as) =
     (if usableAddr a
      then (case dial a of
              Ok u \<Rightarrow> Ok (Some (u, a), None)
            | Err e \<Rightarrow> dialUdpConn dial (Some e) as
            | Panic p \<Rightarrow> Panic p)
      else dialUdpConn dial err as)"

text \<open>\<open>us.Close()\<close> on the error paths, whose own result is dropped.\<close>

definition closeAfter ::
  "'u udp_ops \<Rightarrow> proto \<Rightarrow> ('w, 'a) client_scheme \<Rightarrow> 'u UdpSession \<Rightarrow> go_error \<Rightarrow>
   unit outcome \<times> ('w, 'a) client_scheme \<times> 'u UdpSession" where
  "closeAfter U P c us e =
     (case Close U P c us of
        Ok (_, c1, us1) \<Rightarrow> (Err e, c1, us1)
      | Err e' \<Rightarrow> (Err e', c, us)
      | Panic p \<Rightarrow> (Panic p, c, us))"

text \<open>
  \<open>DialUpSession\<close>: \<open>uaOf\<close> renders a public address as a UDP address; \<open>net\<close> and \<open>rnd\<close> are what
  the network and the random source give to \<open>dialTcpConn\<close>. Without any usable address the
  TCP dial fails and the nil UDP connection is closed.
\<close>

definition DialUpSession ::
  "'u udp_ops \<Rightarrow> crypto \<Rightarrow> proto \<Rightarrow> (bytes \<Rightarrow> PubAddrs outcome) \<Rightarrow> (PubAddr \<Rightarrow> 'u outcome) \<Rightarrow> (PubAddr \<Rightarrow> string) \<Rightarrow>
   ('w, 'a) client_scheme \<Rightarrow> 'u UdpSession \<Rightarrow> string \<Rightarrow> bytes \<Rightarrow> DialConfig \<Rightarrow> attempt list \<Rightarrow> go_error \<Rightarrow>
   Conn outcome \<Rightarrow> bytes outcome \<Rightarrow> int \<Rightarrow> unit outcome \<times> ('w, 'a) client_scheme \<times> 'u UdpSession" where
  "DialUpSession U C P unjson dial uaOf c us listenerNknAddr sid dcfg att ctxErr net rnd now =
     (if isClosed c then (Err ErrClosed, c, us)
      else (case getPubAddrsFromRemote unjson c listenerNknAddr att ctxErr of
        (Err e, c1) \<Rightarrow> (Err e, c1, us)
      | (Panic p, c1) \<Rightarrow> (Panic p, c1, us)
      | (Ok pas, c1) \<Rightarrow>
        (case dialUdpConn dial None (Addrs pas) of
           Err e \<Rightarrow> (Err e, c1, us)
         | Panic p \<Rightarrow> (Panic p, c1, us)
         | Ok (None, Some e) \<Rightarrow> (Err e, c1, us)
         | Ok (None, None) \<Rightarrow> (Panic NilDereference, c1, us)
         | Ok (Some (u, pubaddr), _) \<Rightarrow>
           (case dialTcpConn C P c1 listenerNknAddr sid SessionType_UDP (- 1) (Some pubaddr) dcfg net rnd now of
              (Err e, c2) \<Rightarrow> (Err e, c2, us)
            | (Panic p, c2) \<Rightarrow> (Panic p, c2, us)
            | (Ok conn, c2) \<Rightarrow>
              (let ua = uaOf pubaddr;
                   us1 = us\<lparr>udpConn := Some u, tcpConn := Some conn,
                            peer := Some (newUdpSessionAddr sid listenerNknAddr ua)\<rparr>
               in case sendMetaData U P c2 us1 sid of
                    (Panic p, us2) \<Rightarrow> (Panic p, c2, us2)
                  | (Err e, us2) \<Rightarrow> closeAfter U P c2 us2 e
                  | (Ok x, us2) \<Rightarrow>
                      (case addCodec U C c2 us2 ua listenerNknAddr of
                         (Panic p, c3, us3) \<Rightarrow> (Panic p, c3, us3)
                       | (Err e, c3, us3) \<Rightarrow> closeAfter U P c3 us3 e
                       | (Ok y, c3, us3) \<Rightarrow> (Ok (), c3, us3)))))))"

text \<open>\<open>DialUDPWithConfig\<close> up to the start of its two goroutines.\<close>

definition DialUDPWithConfig ::
  "'u udp_ops \<Rightarrow> crypto \<Rightarrow> proto \<Rightarrow> (bytes \<Rightarrow> PubAddrs outcome) \<Rightarrow> (PubAddr \<Rightarrow> 'u outcome) \<Rightarrow> (PubAddr \<Rightarrow> string) \<Rightarrow>
   ('w, 'a) client_scheme \<Rightarrow> DialConfig outcome \<Rightarrow> string outcome \<Rightarrow> bytes outcome \<Rightarrow> attempt list \<Rightarrow> go_error \<Rightarrow>
   Conn outcome \<Rightarrow> bytes outcome \<Rightarrow> int \<Rightarrow> 'u UdpSession outcome \<times> ('w, 'a) client_scheme" where
  "DialUDPWithConfig U C P unjson dial uaOf c merged resolved rndID att ctxErr net rnd now =
     (case obind merged (\<lambda>dcfg. obind resolved (\<lambda>r. obind rndID (\<lambda>sid.
              obind (newUdpSession c False) (\<lambda>us. Ok (dcfg, r, sid, us))))) of
        Err e \<Rightarrow> (Err e, c)
      | Panic p \<Rightarrow> (Panic p, c)
      | Ok (dcfg, r, sid, us) \<Rightarrow>
          (case DialUpSession U C P unjson dial uaOf c us r sid dcfg att ctxErr net rnd now of
             (Ok x, c1, us1) \<Rightarrow> (Ok us1, c1)
           | (Err e, c1, us1) \<Rightarrow> (Err e, c1)
           | (Panic p, c1, us1) \<Rightarrow> (Panic p, c1)))"

text \<open>
  The monitoring goroutine after \<open>handleTcpMsg\<close> has returned, over the results of its
  successive \<open>DialUpSession\<close> calls: \<open>Redialed\<close> monitors the new connection, \<open>Ended\<close> leaves the
  goroutine, \<open>StillDialing\<close> means that more calls follow. The check behind the loop,
  \<open>j >= c.config.ReconnectRetries\<close>, also sees a loop that was left by a success.
\<close>

datatype redial = Redialed | Ended | StillDialing

fun udpRedial :: "int \<Rightarrow> int \<Rightarrow> go_error option list \<Rightarrow> redial" where
  "udpRedial R j [] = (if R < 0 \<or> j < R then StillDialing else Ended)"
| "udpRedial R j (err # rs) =
     (if R < 0 \<or> j < R
      then (case err of
              None \<Rightarrow> (if j \<ge> R then Ended else Redialed)
            | Some e \<Rightarrow> if e = ErrClosed then Ended else udpRedial R (j + 1) rs)
      else Ended)"

definition afterTcpMsg ::
  "'u udp_ops \<Rightarrow> ('w, 'a) client_scheme \<Rightarrow> 'u UdpSession \<Rightarrow> go_error option list \<Rightarrow> redial outcome" where
  "afterTcpMsg U c us rs =
     (if isClosed c then Ok Ended
      else (case udpConn us of
              None \<Rightarrow> Panic NilDereference
            | Some u \<Rightarrow>
                if ucIsClosed U u then Ok Ended
                else if ReconnectRetries (config c) = 0 then Ok Ended
                else Ok (udpRedial (ReconnectRetries (config c)) 0 rs)))"

section \<open>The listener's TCP connections\<close>

text \<open>
  \<open>handleUdpListenerTcp\<close>: the part under the lock, then its goroutine, when no other goroutine
  runs in between. \<open>lus\<close> is \<open>c.listenerUdpSess\<close>.
\<close>

definition handleUdpListenerTcp_register :: "'u UdpSession \<Rightarrow> nat \<Rightarrow> string \<Rightarrow> bytes \<Rightarrow> 'u UdpSession" where
  "handleUdpListenerTcp_register us conn remoteAddr sid =
     us\<lparr>tcpConns := mput (tcpConns us) (sessionKey remoteAddr sid) conn\<rparr>"

definition handleUdpListenerTcp ::
  "'u udp_ops \<Rightarrow> proto \<Rightarrow> ('w, 'a) client_scheme \<Rightarrow> 'u UdpSession option \<Rightarrow> nat \<Rightarrow> string \<Rightarrow> bytes \<Rightarrow>
   (('w, 'a) client_scheme \<times> 'u UdpSession option) outcome" where
  "handleUdpListenerTcp U P c lus conn remoteAddr sid =
     (case lus of
        None \<Rightarrow> Ok (closeConn c conn, None)
      | Some us \<Rightarrow>
          (let sessKey = sessionKey remoteAddr sid;
               us1 = handleUdpListenerTcp_register us conn remoteAddr sid
           in case handleTcpMsg U P c us1 conn sessKey (replicate 1024 0) of
                (Ok e, c2, us2) \<Rightarrow> Ok (c2, Some (us2\<lparr>tcpConns := mdel (tcpConns us2) sessKey\<rparr>))
              | (Err e, c2, us2) \<Rightarrow> Err e
              | (Panic p, c2, us2) \<Rightarrow> Panic p))"

end
