(* ===== verification/Udp_Machine.thy ===== *)
theory Udp_Machine
  imports Udp_Session
begin

text \<open>
  The goroutines around one UDP session as a machine: \<open>recvMsg\<close> handling datagrams, callers
  of \<open>ReadFrom\<close> (whose two steps interleave with everything else), TCP monitors registering,
  ending and closing sessions, \<open>Close\<close>, redials, and an environment that may change the
  connections and the rest of the client arbitrarily but not its configuration.
\<close>

record ('w, 'u) usys =
  uc :: "'w client"
  us :: "'u UdpSession"
  reading :: "nat list"

definition usys_init :: "('w, 'u) usys \<Rightarrow> bool" where
  "usys_init s \<longleftrightarrow> reading s = [] \<and> (\<exists>listener. newUdpSession (uc s) listener = Ok (us s))"

text \<open>
  \<open>reading\<close> holds the sizes of the messages that callers of \<open>ReadFrom\<close> have taken but not yet
  given back. \<open>deliver\<close> is for datagrams with at least one byte, and is one step: in the code
  \<open>recvMsg\<close>, of which there is one per session, looks the source up, without the lock in
  \<open>handleMetaData\<close> and under the read lock for user data, and then works in a critical section
  of its own. Nobody else registers sessions, so what can happen in between is that the session
  ends; what was looked up is then handled as if it had come just before. That Go's runtime stops
  a program whose unlocked lookup meets a concurrent deletion is outside of the machine.
\<close>

inductive usys_step :: "'u udp_ops \<Rightarrow> crypto \<Rightarrow> proto \<Rightarrow> ('w, 'u) usys \<Rightarrow> ('w, 'u) usys outcome \<Rightarrow> bool"
  for U C P where
  deliver: "payload \<noteq> [] \<Longrightarrow> recvMsg_handle U C P (uc s) (us s) buf payload ua enc = Ok (c', us') \<Longrightarrow>
    usys_step U C P s (Ok (s\<lparr>uc := c', us := us'\<rparr>))"
| deliver_panic: "payload \<noteq> [] \<Longrightarrow> recvMsg_handle U C P (uc s) (us s) buf payload ua enc = Panic p \<Longrightarrow>
    usys_step U C P s (Panic p)"
| take: "ReadFrom_take U (uc s) (us s) pref now = Some (Ok (d, usa), us') \<Longrightarrow>
    usys_step U C P s (Ok (s\<lparr>us := us', reading := length d # reading s\<rparr>))"
| account: "n \<in> set (reading s) \<Longrightarrow>
    usys_step U C P s (Ok (s\<lparr>us := ReadFrom_account (us s) n, reading := remove1 n (reading s)\<rparr>))"
| register: "usys_step U C P s (Ok (s\<lparr>us := handleUdpListenerTcp_register (us s) conn r sid\<rparr>))"
| unregister: "usys_step U C P s (Ok (s\<lparr>us := (us s)\<lparr>tcpConns := mdel (tcpConns (us s)) k\<rparr>\<rparr>))"
| conn_closed: "handleConnClosed U (uc s) (us s) k = Ok (c', us') \<Longrightarrow>
    usys_step U C P s (Ok (s\<lparr>uc := c', us := us'\<rparr>))"
| conn_closed_panic: "handleConnClosed U (uc s) (us s) k = Panic p \<Longrightarrow> usys_step U C P s (Panic p)"
| close: "Close U P (uc s) (us s) = Ok (e, c', us') \<Longrightarrow> usys_step U C P s (Ok (s\<lparr>uc := c', us := us'\<rparr>))"
| close_panic: "Close U P (uc s) (us s) = Panic p \<Longrightarrow> usys_step U C P s (Panic p)"
| dialed: "\<not> isListener (us s) \<Longrightarrow>
    usys_step U C P s (Ok (s\<lparr>us := (us s)\<lparr>udpConn := Some u, tcpConn := Some t, peer := Some a\<rparr>\<rparr>))"
| env: "config c' = config (uc s) \<Longrightarrow>
    usys_step U C P s (Ok (s\<lparr>uc := c', us := (us s)\<lparr>udpConn := u, readDeadline := t\<rparr>\<rparr>))"

text \<open>
  The invariant. The buffer: \<open>recvSize\<close> is the number of buffered bytes, including those
  taken but not yet given back, and both configured limits hold. The tables: a UDP address
  leads to a registered session at that address, and a session is registered under its key.
\<close>

definition buf_ok :: "int \<Rightarrow> 'u UdpSession \<Rightarrow> nat list \<Rightarrow> bool" where
  "buf_ok limit x rs \<longleftrightarrow>
     recvSize x = int (sum_list (map (length \<circ> fst) (recvChan x))) + int (sum_list rs) \<and>
     recvSize x \<le> max 0 (limit - 1) \<and> int (length (recvChan x)) \<le> recvCap x"

definition sess_ok :: "'u UdpSession \<Rightarrow> bool" where
  "sess_ok x \<longleftrightarrow>
     (\<forall>a usa. mget (udpAddrToSessAddr x) a = Some usa \<longrightarrow>
        udpAddr usa = a \<and> mget (sessKeyToSessAddr x) (usa_String usa) = Some usa) \<and>
     (\<forall>k usa. mget (sessKeyToSessAddr x) k = Some usa \<longrightarrow> usa_String usa = k)"

definition usys_inv :: "('w, 'u) usys \<Rightarrow> bool" where
  "usys_inv s \<longleftrightarrow> buf_ok (UDPRecvBufferSize (config (uc s))) (us s) (reading s) \<and> sess_ok (us s)"

text \<open>What an operation leaves alone: the receive buffer and the role.\<close>

definition same_buf :: "'u UdpSession \<Rightarrow> 'u UdpSession \<Rightarrow> bool" where
  "same_buf x y \<longleftrightarrow> recvChan y = recvChan x \<and> recvSize y = recvSize x \<and> recvCap y = recvCap x \<and>
     isListener y = isListener x"

lemma same_buf_refl [simp]: "same_buf x x"
  by (simp add: same_buf_def)

lemma buf_ok_same: "same_buf x y \<Longrightarrow> buf_ok l x rs \<Longrightarrow> buf_ok l y rs"
  by (simp add: buf_ok_def same_buf_def)

lemma handleConnClosed_same:
  "handleConnClosed U c x k = Ok (c', x') \<Longrightarrow> same_buf x x' \<and> config c' = config c"
  by (auto simp: handleConnClosed_def same_buf_def Let_def split: if_splits option.splits prod.splits)

lemma addCodec_frame:
  assumes "addCodec U C c x ua r = (y, c', x')"
  shows "tcpConns x' = tcpConns x \<and> conns c' = conns c"
proof -
  have "conns (snd (getOrComputeSharedKey C c pk)) = conns c" for pk
    using getOrComputeSharedKey_frame [of C c pk] by auto
  then show ?thesis
    using assms by (auto simp: addCodec_def split: outcome.splits prod.splits) (metis snd_conv)+
qed

lemma addCodec_same:
  assumes "addCodec U C c x ua r = (y, c', x')"
  shows "same_buf x x' \<and> sessKeyToSessAddr x' = sessKeyToSessAddr x \<and>
    udpAddrToSessAddr x' = udpAddrToSessAddr x \<and> config c' = config c"
proof -
  have "config (snd (getOrComputeSharedKey C c pk)) = config c" for pk
    using getOrComputeSharedKey_frame [of C c pk] by auto
  then show ?thesis
    using assms by (auto simp: addCodec_def same_buf_def split: outcome.splits prod.splits) (metis snd_conv)+
qed

lemma handleMetaData_cases:
  assumes "handleMetaData U C P c x b ua = (y, c', x')"
  shows "c' = c \<and> x' = x \<or> (\<exists>md. registerSession U C c x ua md = (y, c', x')) \<or> closeSessionAt U c x ua = (y, c', x')"
  using assms by (auto simp: handleMetaData_def split: if_splits outcome.splits)

lemma registerSession_cases:
  assumes "registerSession U C c x ua md = (y, c', x')"
  shows "c' = c \<and> x' = x \<or>
    (\<exists>usa r. mget (sessKeyToSessAddr x) (usa_String usa) = None \<and> udpAddr usa = ua \<and>
       usa = newUdpSessionAddr (Id md) (DialerNknAddr md) ua \<and>
       addCodec U C c (x\<lparr>sessKeyToSessAddr := mput (sessKeyToSessAddr x) (usa_String usa) usa,
         udpAddrToSessAddr := mput (udpAddrToSessAddr x) ua usa\<rparr>) ua (DialerNknAddr md) = (r, c', x'))"
  using assms by (auto simp: registerSession_def Let_def newUdpSessionAddr_def split: if_splits prod.splits)

lemma closeSessionAt_cases:
  assumes "closeSessionAt U c x ua = (y, c', x')"
  shows "c' = c \<and> x' = x \<or> (\<exists>k. handleConnClosed U c x k = Ok (c', x'))"
  using assms by (auto simp: closeSessionAt_def split: option.splits outcome.splits prod.splits)

lemma handleMetaData_same:
  assumes "handleMetaData U C P c x b ua = (y, c', x')"
  shows "same_buf x x' \<and> config c' = config c"
  using handleMetaData_cases [OF assms]
  by (auto simp: same_buf_def dest!: registerSession_cases closeSessionAt_cases addCodec_same handleConnClosed_same)

lemma enqueue_ok:
  assumes "enqueue c x (fillBuf buf payload) (int (length payload)) usa = Ok x'" "payload \<noteq> []"
  shows "x' = x \<or> recvSize x + int (length payload) - 1 < UDPRecvBufferSize (config c) \<and>
    int (length (recvChan x)) < recvCap x \<and>
    x' = x\<lparr>recvChan := recvChan x @ [(tl payload, usa)], recvSize := recvSize x + int (length payload) - 1\<rparr>"
  using assms
  by (auto simp: enqueue_def sliceFrom1_def fillBuf_def drop_Suc split: if_splits)

lemma enqueue_total: "payload \<noteq> [] \<Longrightarrow> \<exists>x'. enqueue c x buf (int (length payload)) usa = Ok x'"
  by (cases payload) (auto simp: enqueue_def sliceFrom1_def)

lemma enqueue_buf_ok:
  assumes "enqueue c x (fillBuf buf payload) (int (length payload)) usa = Ok x'" "payload \<noteq> []"
    and "buf_ok (UDPRecvBufferSize (config c)) x rs"
  shows "buf_ok (UDPRecvBufferSize (config c)) x' rs"
proof -
  have "int (length (tl payload)) = int (length payload) - 1" using assms(2) by (cases payload) auto
  then show ?thesis using enqueue_ok [OF assms(1,2)] assms(3) by (auto simp: buf_ok_def)
qed

section \<open>Every step keeps the invariant\<close>

lemma recv_cases:
  assumes "recvMsg_handle U C P c x buf payload ua enc = Ok (c', x')"
  obtains (kept) "c' = c" "x' = x"
  | (meta) b y where "handleMetaData U C P c x b ua = (y, c', x')"
  | (data) usa where "enqueue c x (fillBuf buf payload) (int (length payload)) usa = Ok x'" "c' = c"
proof (cases "\<exists>b. sliceFrom1 (fillBuf buf payload) (int (length payload)) = Ok b \<and>
    (\<exists>r. fillBuf buf payload = headerByte HeaderType_SESSION # r)")
  case True
  then obtain b r where b: "sliceFrom1 (fillBuf buf payload) (int (length payload)) = Ok b"
    "fillBuf buf payload = headerByte HeaderType_SESSION # r" by blast
  obtain y c1 x1 where h: "handleMetaData U C P c x b ua = (y, c1, x1)" by (metis prod_cases3)
  then have "c1 = c' \<and> x1 = x'"
    using assms b headerByte_distinct by (auto simp: recvMsg_handle_def split: outcome.splits)
  then show ?thesis using h meta by blast
next
  case False
  then have "c' = c \<and> (x' = x \<or> (\<exists>usa. enqueue c x (fillBuf buf payload) (int (length payload)) usa = Ok x'))"
    using assms by (auto simp: recvMsg_handle_def Let_def split: list.splits if_splits option.splits)
  then show ?thesis using kept data by blast
qed

lemma recv_inv:
  assumes "recvMsg_handle U C P c x buf payload ua enc = Ok (c', x')" "payload \<noteq> []"
    and "buf_ok (UDPRecvBufferSize (config c)) x rs"
  shows "buf_ok (UDPRecvBufferSize (config c')) x' rs \<and> config c' = config c \<and> isListener x' = isListener x"
  using assms(1)
proof (cases rule: recv_cases)
  case (meta b y)
  then show ?thesis using handleMetaData_same [OF meta] assms(3) buf_ok_same by (auto simp: same_buf_def)
next
  case (data usa)
  then show ?thesis using enqueue_buf_ok [OF data(1) assms(2,3)] enqueue_ok [OF data(1) assms(2)] by auto
qed (use assms in auto)

lemma sess_ok_cong:
  "sessKeyToSessAddr x' = sessKeyToSessAddr x \<Longrightarrow> udpAddrToSessAddr x' = udpAddrToSessAddr x \<Longrightarrow>
   sess_ok x' = sess_ok x"
  by (simp add: sess_ok_def)

lemma sess_ok_add:
  assumes "sess_ok x" "mget (sessKeyToSessAddr x) (usa_String usa) = None" "udpAddr usa = ua"
  shows "sess_ok (x\<lparr>sessKeyToSessAddr := mput (sessKeyToSessAddr x) (usa_String usa) usa,
    udpAddrToSessAddr := mput (udpAddrToSessAddr x) ua usa\<rparr>)"
  using assms unfolding sess_ok_def by simp (metis option.distinct(1))

lemma handleConnClosed_sess:
  assumes "handleConnClosed U c x k = Ok (c', x')" "sess_ok x"
  shows "sess_ok x'"
proof (cases "isListener x \<and> mget (sessKeyToSessAddr x) k \<noteq> None")
  case True
  then obtain usa where u: "mget (sessKeyToSessAddr x) k = Some usa" by blast
  then have "sessKeyToSessAddr x' = mdel (sessKeyToSessAddr x) k"
    "udpAddrToSessAddr x' = mdel (udpAddrToSessAddr x) (udpAddr usa)"
    using assms(1) True by (auto simp: handleConnClosed_def Let_def split: option.splits)
  moreover have "udpAddr b = a \<and> usa_String b \<noteq> k"
    if "a \<noteq> udpAddr usa" "mget (udpAddrToSessAddr x) a = Some b" for a b
    using that assms(2) u unfolding sess_ok_def by (metis option.inject)
  ultimately show ?thesis using assms(2) unfolding sess_ok_def by (simp split: if_splits)
next
  case False
  then show ?thesis
    using assms by (auto simp: handleConnClosed_def sess_ok_def split: if_splits option.splits)
qed

lemma handleMetaData_sess:
  assumes "handleMetaData U C P c x b ua = (y, c', x')" "sess_ok x"
  shows "sess_ok x'"
  using handleMetaData_cases [OF assms(1)]
proof (elim disjE exE)
  fix md
  assume "registerSession U C c x ua md = (y, c', x')"
  from registerSession_cases [OF this] show ?thesis
  proof (elim disjE exE conjE)
    fix usa r
    let ?x1 = "x\<lparr>sessKeyToSessAddr := mput (sessKeyToSessAddr x) (usa_String usa) usa,
         udpAddrToSessAddr := mput (udpAddrToSessAddr x) ua usa\<rparr>"
    assume "mget (sessKeyToSessAddr x) (usa_String usa) = None" "udpAddr usa = ua"
    then have "sess_ok ?x1" by (rule sess_ok_add [OF assms(2)])
    moreover assume "addCodec U C c ?x1 ua (DialerNknAddr md) = (r, c', x')"
    ultimately show ?thesis using addCodec_same sess_ok_cong by metis
  qed (use assms(2) in simp)
next
  assume "closeSessionAt U c x ua = (y, c', x')"
  from closeSessionAt_cases [OF this] show ?thesis using assms(2) handleConnClosed_sess by blast
qed (use assms(2) in simp)

lemma recv_sess:
  assumes "recvMsg_handle U C P c x buf payload ua enc = Ok (c', x')" "payload \<noteq> []" "sess_ok x"
  shows "sess_ok x'"
  using assms(1)
proof (cases rule: recv_cases)
  case (meta b y)
  then show ?thesis using handleMetaData_sess assms(3) by blast
next
  case (data usa)
  then show ?thesis using enqueue_ok [OF data(1) assms(2)] assms(3) by (auto simp: sess_ok_def)
qed (use assms in auto)

lemma take_inv:
  assumes "ReadFrom_take U c x pref now = Some (Ok (d, usa), x')" "buf_ok l x rs"
  shows "buf_ok l x' (length d # rs) \<and> sess_ok x' = sess_ok x \<and> isListener x' = isListener x"
  using assms by (auto simp: ReadFrom_take_def buf_ok_def sess_ok_def split: if_splits list.splits)

lemma sum_list_remove1: "(n::nat) \<in> set ns \<Longrightarrow> sum_list ns = n + sum_list (remove1 n ns)"
  by (induction ns) auto

lemma account_inv:
  "n \<in> set rs \<Longrightarrow> buf_ok l x rs \<Longrightarrow> buf_ok l (ReadFrom_account x n) (remove1 n rs)"
  using sum_list_remove1 [of n rs] by (simp add: buf_ok_def ReadFrom_account_def)

lemma rawWrite_config [simp]: "config (rawWrite c p b) = config c" "isClosed (rawWrite c p b) = isClosed c"
  by (simp_all add: rawWrite_def split: option.split prod.split)

lemma sendCloseTo_config [simp]:
  "config (sendCloseTo c x b usa) = config c" "isClosed (sendCloseTo c x b usa) = isClosed c"
  by (simp_all add: sendCloseTo_def split: option.split)

lemma sendClose_fold [simp]:
  "config (foldl (\<lambda>c usa. sendCloseTo c x b usa) c as) = config c"
  "isClosed (foldl (\<lambda>c usa. sendCloseTo c x b usa) c as) = isClosed c"
  by (induction as arbitrary: c) simp_all

lemma sendCloseMsg_config: "sendCloseMsg P c x a = Ok c' \<Longrightarrow> config c' = config c \<and> isClosed c' = isClosed c"
  by (auto simp: sendCloseMsg_def split: outcome.splits bool.splits option.splits)

lemma close_inv:
  assumes "Close U P c x = Ok (e, c', x')"
  shows "same_buf x x' \<and> config c' = config c \<and> (sess_ok x \<longrightarrow> sess_ok x')"
proof -
  obtain c1 where c1: "sendCloseMsg P c x None = Ok c1" using assms by (auto simp: Close_def)
  let ?x1 = "case GetEstablishedUDPConn U c1 x of Ok u \<Rightarrow> x\<lparr>udpConn := Some (ucClose U u)\<rparr> | _ \<Rightarrow> x"
  have x1: "same_buf x ?x1" "sessKeyToSessAddr ?x1 = sessKeyToSessAddr x" "udpAddrToSessAddr ?x1 = udpAddrToSessAddr x"
    by (auto simp: same_buf_def split: outcome.split)
  have "config c' = config c1 \<and> same_buf ?x1 x' \<and>
      (sessKeyToSessAddr x' = [] \<and> udpAddrToSessAddr x' = [] \<or>
       sessKeyToSessAddr x' = sessKeyToSessAddr ?x1 \<and> udpAddrToSessAddr x' = udpAddrToSessAddr ?x1)"
    using assms c1 unfolding Close_def Let_def by (auto simp: same_buf_def split: if_splits option.splits)
  then show ?thesis using x1 sendCloseMsg_config [OF c1] by (auto simp: same_buf_def sess_ok_def)
qed

lemma newUdpSession_inv: "newUdpSession c l = Ok x \<Longrightarrow> buf_ok b x [] \<and> sess_ok x \<and> isListener x = l"
  by (auto simp: newUdpSession_def buf_ok_def sess_ok_def split: if_splits)

lemma usys_inv_init: "usys_init s \<Longrightarrow> usys_inv s"
  by (auto simp: usys_init_def usys_inv_def dest: newUdpSession_inv)

lemma usys_inv_same:
  assumes "usys_inv s" "same_buf (us s) x'" "config c' = config (uc s)" "sess_ok (us s) \<longrightarrow> sess_ok x'"
  shows "usys_inv (s\<lparr>uc := c', us := x'\<rparr>) \<and> isListener x' = isListener (us s)"
proof -
  have "buf_ok (UDPRecvBufferSize (config (uc s))) x' (reading s)"
    using assms(1) buf_ok_same [OF assms(2)] by (simp add: usys_inv_def)
  then show ?thesis using assms by (simp add: usys_inv_def same_buf_def)
qed

lemma usys_inv_step: "usys_step U C P s (Ok t) \<Longrightarrow> usys_inv s \<Longrightarrow> usys_inv t \<and> isListener (us t) = isListener (us s)"
proof (induction "Ok t :: ('b, 'a) usys outcome" rule: usys_step.induct)
  case (deliver payload s buf ua enc c' us')
  have "buf_ok (UDPRecvBufferSize (config (uc s))) (us s) (reading s)" "sess_ok (us s)"
    using deliver(4) by (auto simp: usys_inv_def)
  then show ?case
    using recv_inv [OF deliver(2,1), of "reading s"] recv_sess [OF deliver(2,1)] deliver(3)
    by (auto simp: usys_inv_def)
next
  case (take s pref now d usa us')
  then show ?case using take_inv [OF take(1)] by (auto simp: usys_inv_def)
next
  case (account n s)
  then show ?case using account_inv by (auto simp: usys_inv_def ReadFrom_account_def sess_ok_def)
next
  case (conn_closed s k c' us')
  then show ?case
    using usys_inv_same [OF conn_closed(3), of us' c'] handleConnClosed_same [OF conn_closed(1)]
      handleConnClosed_sess [OF conn_closed(1)] by auto
next
  case (close s e c' us')
  then show ?case using usys_inv_same [OF close(3), of us' c'] close_inv [OF close(1)] by auto
qed (auto simp: usys_inv_def buf_ok_def sess_ok_def handleUdpListenerTcp_register_def)

interpretation um: invariant_machine usys_init "usys_step U C P" usys_inv for U C P
  by unfold_locales (auto intro: usys_inv_init dest: usys_inv_step)

section \<open>A listener does not panic\<close>

lemma newSessionData_no_panic: "proto_laws P \<Longrightarrow> newSessionData P t d \<noteq> Panic p"
  using proto_lawsD(5) [of P "\<lparr>MsgType = t, Data = d\<rparr>"]
  by (cases "MarshalData P \<lparr>MsgType = t, Data = d\<rparr>") (auto simp: newSessionData_def)

lemma computeSharedKey_not_panic [simp]: "computeSharedKey C k pk \<noteq> Panic p"
  by (simp add: computeSharedKey_def split: option.split)

lemma getShared_no_panic [simp]: "getOrComputeSharedKey C c pk \<noteq> (Panic p, c')"
  by (auto simp: getOrComputeSharedKey_def Let_def split: option.splits outcome.splits)

lemma established_no_panic [simp]: "GetEstablishedUDPConn U c x \<noteq> Panic p"
  by (simp add: GetEstablishedUDPConn_def split: option.split)

lemma addCodec_no_panic:
  assumes "crypto_laws C" "udp_laws U"
  shows "addCodec U C c x ua r \<noteq> (Panic p, c', x')"
proof -
  have "ClientAddrToPubKey C r \<noteq> Panic p" using crypto_lawsD(4) [OF assms(1), of r] by auto
  moreover have "ucAddCodec U u ua k \<noteq> (Panic p, u')" for u u' k using udp_lawsD(5) [OF assms(2), of u ua k] by auto
  ultimately show ?thesis by (auto simp: addCodec_def split: outcome.splits prod.splits)
qed

lemma listener_closed_no_panic [simp]: "isListener x \<Longrightarrow> handleConnClosed U c x k \<noteq> Panic p"
  by (simp add: handleConnClosed_def Let_def split: option.split)

lemma handleMetaData_no_panic:
  assumes "proto_laws P" "crypto_laws C" "udp_laws U" "isListener x"
  shows "handleMetaData U C P c x b ua \<noteq> (Panic p, c', x')"
proof -
  have "closeSessionAt U c x ua \<noteq> (Panic p, c', x')"
    using assms(4) by (auto simp: closeSessionAt_def split: option.splits outcome.splits)
  moreover have "registerSession U C c x ua md \<noteq> (Panic p, c', x')" for md
    by (auto simp: registerSession_def Let_def addCodec_no_panic [OF assms(2,3)] split: prod.splits outcome.splits)
  moreover have "parseSessionData P b \<noteq> Panic p" "UnmarshalMeta P d \<noteq> Panic p" for d
    using proto_lawsD(4) [OF assms(1), of d] proto_lawsD(6) [OF assms(1), of b] by (auto simp: parseSessionData_def)
  ultimately show ?thesis by (auto simp: handleMetaData_def split: outcome.splits if_splits)
qed

lemma recv_no_panic:
  assumes "proto_laws P" "crypto_laws C" "udp_laws U" "isListener x" "payload \<noteq> []"
  shows "recvMsg_handle U C P c x buf payload ua enc \<noteq> Panic p"
proof -
  obtain h rest where buf1: "fillBuf buf payload = h # rest" using assms(5) by (cases payload) (auto simp: fillBuf_def)
  obtain b where b: "sliceFrom1 (h # rest) (int (length payload)) = Ok b"
    using assms(5) by (cases payload) (auto simp: sliceFrom1_def)
  obtain y c1 x1 where m: "handleMetaData U C P c x b ua = (y, c1, x1)" by (metis prod_cases3)
  have meta: "(case y of Panic p \<Rightarrow> Panic p | _ \<Rightarrow> Ok (c1, x1)) \<noteq> Panic p"
    using handleMetaData_no_panic [OF assms(1-4), of c b ua p c1 x1] m by (cases y) auto
  have "\<exists>x'. enqueue c x (h # rest) (int (length payload)) usa = Ok x'" for usa
    by (rule enqueue_total [OF assms(5)])
  then have data: "obind (enqueue c x (h # rest) (int (length payload)) usa) (\<lambda>us1. Ok (c, us1)) \<noteq> Panic p" for usa
    by (metis obind.simps(1) outcome.distinct(3))
  show ?thesis
    using assms(4) buf1 b m meta data headerByte_distinct
    by (cases "h = headerByte HeaderType_USER"; cases "h = headerByte HeaderType_SESSION"; cases y)
       (auto simp: recvMsg_handle_def Let_def split: option.split)
qed

lemma close_no_panic: "proto_laws P \<Longrightarrow> isListener x \<Longrightarrow> Close U P c x \<noteq> Panic p"
  by (cases "newSessionData P MsgType_CLOSE []")
     (auto simp: Close_def sendCloseMsg_def newSessionData_no_panic Let_def)

text \<open>The machine of a listener, with what it relies on of the libraries below it.\<close>

definition listener_inv :: "'u udp_ops \<Rightarrow> crypto \<Rightarrow> proto \<Rightarrow> ('w, 'u) usys \<Rightarrow> bool" where
  "listener_inv U C P s \<longleftrightarrow> usys_inv s \<and> isListener (us s) \<and> proto_laws P \<and> crypto_laws C \<and> udp_laws U"

lemma listener_safe: "usys_step U C P s (Panic p) \<Longrightarrow> \<not> listener_inv U C P s"
proof (induction "Panic p :: ('b, 'a) usys outcome" rule: usys_step.induct)
  case (deliver_panic payload s buf ua enc)
  then show ?case unfolding listener_inv_def by (metis recv_no_panic)
next
  case (conn_closed_panic s k)
  then show ?case by (auto simp: listener_inv_def)
next
  case (close_panic s)
  then show ?case unfolding listener_inv_def by (metis close_no_panic)
qed

interpretation ul: safe_machine
  "\<lambda>s. usys_init s \<and> isListener (us s) \<and> proto_laws P \<and> crypto_laws C \<and> udp_laws U"
  "usys_step U C P" "listener_inv U C P" for U C P
  by unfold_locales (auto simp: listener_inv_def usys_inv_init dest: usys_inv_step listener_safe)

end
