(* ===== verification/Udp_Props.thy ===== *)
theory Udp_Props
  imports Udp_Machine
begin

text \<open>
  What UDP sessions guarantee: bounded buffering, no panicking step at a listener,
  data only from established sessions, the round trips of user data and of the session
  messages, and the ways in which the code falls short of its documentation.
\<close>

section \<open>A concrete connection\<close>

record demo_udp =
  duClosed :: bool
  duSent :: "(bytes \<times> string option) list"

definition demoUdp :: "demo_udp udp_ops" where
  "demoUdp =
     \<lparr>ucIsClosed = duClosed, ucClose = (\<lambda>u. u\<lparr>duClosed := True\<rparr>),
      ucWriteMsg = (\<lambda>u b a. (Ok (int (length b)), u\<lparr>duSent := duSent u @ [(b, a)]\<rparr>)),
      ucAddCodec = (\<lambda>u a k. (Ok (), u)), ucSet = (\<lambda>u opt. (Ok (), u)), ucLocalAddr = (\<lambda>u. ''local'')\<rparr>"

lemma demoUdp_laws: "udp_laws demoUdp"
  by (simp add: udp_laws_def demoUdp_def)

definition demoOpen :: demo_udp where
  "demoOpen = \<lparr>duClosed = False, duSent = []\<rparr>"

text \<open>A listener before and after Alice's session \<open>01\<close> is registered at \<open>a:1\<close>.\<close>

definition demoUs0 :: "bool \<Rightarrow> demo_udp UdpSession" where
  "demoUs0 l = \<lparr>isListener = l, udpConn = None, recvChan = [], recvCap = 1024, recvSize = 0, readDeadline = None,
     tcpConn = None, peer = None, sessKeyToSessAddr = [], udpAddrToSessAddr = [], tcpConns = []\<rparr>"

definition demoUsa :: udpSessionAddr where
  "demoUsa = \<lparr>usaID = [1], remoteNknAddr = ''alice'', udpAddr = ''a:1''\<rparr>"

definition demoUs1 :: "demo_udp UdpSession" where
  "demoUs1 = (demoUs0 True)\<lparr>udpConn := Some demoOpen,
     sessKeyToSessAddr := [(usa_String demoUsa, demoUsa)], udpAddrToSessAddr := [(''a:1'', demoUsa)]\<rparr>"

definition demoUsys0 :: "bool \<Rightarrow> (demo_world, demo_udp) usys" where
  "demoUsys0 l = \<lparr>uc = demoClient ''bob'', us = demoUs0 l, reading = []\<rparr>"

lemma demoUsys0_init: "usys_init (demoUsys0 l)"
  by (simp add: usys_init_def demoUsys0_def newUdpSession_def demoUs0_def demoClient_def DefaultConfig_def defaultConfig_def)

lemma demoUsys0_reachable: "reachable usys_init (usys_step U C P) (demoUsys0 l)"
  by (rule reach_start [of usys_init, OF demoUsys0_init])

section \<open>Datagrams one by one\<close>

lemma enqueue_full: "recvSize x + n - 1 \<ge> UDPRecvBufferSize (config c) \<Longrightarrow> enqueue c x buf n usa = Ok x"
  by (simp add: enqueue_def)

lemma fillBuf_Cons [simp]: "fillBuf buf (h # b) = h # b @ drop (Suc (length b)) buf"
  by (simp add: fillBuf_def)

lemma sliceFrom1_Cons [simp]: "sliceFrom1 (h # b @ rest) (1 + int (length b)) = Ok b"
  by (simp add: sliceFrom1_def nat_add_distrib)

lemma enqueue_Cons:
  "enqueue c x (h # b @ rest) (1 + int (length b)) usa =
    Ok (if recvSize x + int (length b) < UDPRecvBufferSize (config c) \<and> int (length (recvChan x)) < recvCap x
        then x\<lparr>recvChan := recvChan x @ [(b, usa)], recvSize := recvSize x + int (length b)\<rparr> else x)"
  by (auto simp: enqueue_def)

lemma recv_user:
  assumes "isListener x"
  shows "recvMsg_handle U C P c x buf (headerByte HeaderType_USER # b) ua enc =
    Ok (c, case mget (udpAddrToSessAddr x) ua of
        Some usa \<Rightarrow>
          (if enc \<and> recvSize x + int (length b) < UDPRecvBufferSize (config c) \<and> int (length (recvChan x)) < recvCap x
           then x\<lparr>recvChan := recvChan x @ [(b, Some usa)], recvSize := recvSize x + int (length b)\<rparr> else x)
      | None \<Rightarrow> x)"
  using assms by (auto simp: recvMsg_handle_def Let_def enqueue_Cons split: option.split)

lemma recv_session:
  "recvMsg_handle U C P c x buf (headerByte HeaderType_SESSION # b) ua enc =
    (case handleMetaData U C P c x b ua of (Panic p, _) \<Rightarrow> Panic p | (_, c1, us1) \<Rightarrow> Ok (c1, us1))"
  using headerByte_distinct by (simp add: recvMsg_handle_def)

lemma recv_other:
  "h \<noteq> headerByte HeaderType_USER \<Longrightarrow> h \<noteq> headerByte HeaderType_SESSION \<Longrightarrow>
   recvMsg_handle U C P c x buf (h # b) ua enc = Ok (c, x)"
  by (simp add: recvMsg_handle_def)

section \<open>Properties\<close>

text \<open>
  C23: the receive buffer is bounded and its size counter is exact. Whatever datagrams
  arrive and however calls of \<open>ReadFrom\<close> interleave with them, \<open>recvSize\<close> is the number of
  bytes in the channel plus those of messages whose reader has not given them back yet, it
  is never negative and stays below \<open>UDPRecvBufferSize\<close> (or 0 when nothing fits), and the
  channel never holds more than its capacity.
\<close>

theorem receive_buffer_bounded:
  assumes "reachable usys_init (usys_step U C P) s"
  shows "recvSize (us s) = int (sum_list (map (length \<circ> fst) (recvChan (us s))) + sum_list (reading s)) \<and>
    0 \<le> recvSize (us s) \<and> recvSize (us s) \<le> max 0 (UDPRecvBufferSize (config (uc s)) - 1) \<and>
    int (length (recvChan (us s))) \<le> recvCap (us s)"
  using um.reachable_inv [OF assms] by (simp add: usys_inv_def buf_ok_def)

theorem receive_buffer_bounded_witness:
  "recvSize (us (demoUsys0 True)) \<le> max 0 (UDPRecvBufferSize (config (uc (demoUsys0 True))) - 1)"
  using receive_buffer_bounded [OF demoUsys0_reachable [of demoUdp demoCrypto demoProto True]] by blast

text \<open>
  No step of the machine panics at a listener, whatever non-empty datagrams it is sent. This is
  about the steps as such: the lookups that \<open>handleMetaData\<close> makes without the lock can meet the
  deletions of \<open>handleConnClosed\<close>, which Go's runtime reports as concurrent map access.
\<close>

lemma udp_listener_steps_ok:
  assumes "reachable (\<lambda>s. usys_init s \<and> isListener (us s) \<and> proto_laws P \<and> crypto_laws C \<and> udp_laws U)
      (usys_step U C P) s"
    and "usys_step U C P s r"
  shows "no_panic r"
  using ul.reachable_no_panic [OF assms] .



text \<open>
  C24: a listener hands only session data to the application, and one can answer it. When
  handling a datagram adds something to the receive buffer, the datagram was encrypted user
  data, what was added is its payload without the header, tagged with the session that is
  registered at exactly its source address, and \<open>WriteTo\<close> with that tag resolves to this
  source address.
\<close>

theorem only_session_data_received:
  assumes "reachable usys_init (usys_step U C P) s" "isListener (us s)" "payload \<noteq> []"
    and "recvMsg_handle U C P (uc s) (us s) buf payload ua enc = Ok (c', x')"
    and "recvChan x' \<noteq> recvChan (us s)"
  shows "enc \<and> (\<exists>b usa. payload = headerByte HeaderType_USER # b \<and>
    recvChan x' = recvChan (us s) @ [(b, Some usa)] \<and>
    mget (sessKeyToSessAddr x') (usa_String usa) = Some usa \<and> udpAddr usa = ua \<and>
    getUdpAddr x' (SessAddr (Some usa)) = Ok ua)"
proof -
  obtain h b where pl: "payload = h # b" using assms(3) by (cases payload) auto
  have ok: "sess_ok (us s)" using um.reachable_inv [OF assms(1)] by (simp add: usys_inv_def)
  have "h \<noteq> headerByte HeaderType_SESSION"
  proof
    assume "h = headerByte HeaderType_SESSION"
    with assms(4) pl obtain y where "handleMetaData U C P (uc s) (us s) b ua = (y, c', x')"
      by (auto simp: recv_session split: prod.splits outcome.splits)
    from handleMetaData_same [OF this] assms(5) show False by (auto simp: same_buf_def)
  qed
  with assms(4,5) pl have h: "h = headerByte HeaderType_USER"
    using recv_other [of h U C P "uc s" "us s" buf b ua enc] by auto
  obtain usa where "mget (udpAddrToSessAddr (us s)) ua = Some usa" "enc"
      "x' = (us s)\<lparr>recvChan := recvChan (us s) @ [(b, Some usa)], recvSize := recvSize (us s) + int (length b)\<rparr>"
  proof (cases "mget (udpAddrToSessAddr (us s)) ua")
    case None
    then show ?thesis using assms(4,5) unfolding pl h recv_user [OF assms(2)] by simp
  next
    case (Some usa)
    then show ?thesis
      using assms(4,5) that [of usa] unfolding pl h recv_user [OF assms(2)] by (simp split: if_splits)
  qed
  moreover from this ok have "udpAddr usa = ua \<and> mget (sessKeyToSessAddr (us s)) (usa_String usa) = Some usa"
    unfolding sess_ok_def by blast
  ultimately show ?thesis using pl h assms(2) by (simp add: getUdpAddr_def)
qed

text \<open>Bob's listener opens its connection, registers Alice's session, and receives.\<close>

lemma demo_session_reachable:
  "\<exists>s :: (demo_world, demo_udp) usys. reachable usys_init (usys_step demoUdp demoCrypto demoProto) s \<and> isListener (us s) \<and>
     mget (udpAddrToSessAddr (us s)) ''a:1'' = Some demoUsa \<and> recvChan (us s) = [] \<and> recvCap (us s) = 1024 \<and>
     recvSize (us s) = 0 \<and> UDPRecvBufferSize (config (uc s)) = 2 ^ 20"
proof -
  let ?md = "\<lparr>Id = [1], SessionType = SessionType_UDP, DialerNknAddr = ''alice''\<rparr>"
  obtain raw where raw: "MarshalMeta demoProto ?md = Ok raw" "length raw < 256"
    by (simp add: demoProto_def demoMarshal_def session_type_defs putField_def)
  then obtain m where m: "MarshalData demoProto \<lparr>MsgType = MsgType_SESSIONID, Data = raw\<rparr> = Ok m"
    by (simp add: demoProto_def demoMarshal_def msg_type_defs)
  let ?s = "demoUsys0 True"
  obtain y c' x' where r: "registerSession demoUdp demoCrypto (uc ?s) (us ?s) ''a:1'' ?md = (y, c', x')" by (metis prod_cases3)
  have h: "handleMetaData demoUdp demoCrypto demoProto (uc ?s) (us ?s) m ''a:1'' = (y, c', x')"
    using r proto_lawsD(1) [OF demoProto_laws raw(1)] proto_lawsD(2) [OF demoProto_laws m]
    by (simp add: handleMetaData_def parseSessionData_def demoUsys0_def demoUs0_def)
  have "y \<noteq> Panic p" for p
    using handleMetaData_no_panic [OF demoProto_laws demoCrypto_laws demoUdp_laws, of "us ?s" "uc ?s" m "''a:1''" p c' x'] h
    by (auto simp: demoUsys0_def demoUs0_def)
  then have "recvMsg_handle demoUdp demoCrypto demoProto (uc ?s) (us ?s) [] (headerByte HeaderType_SESSION # m) ''a:1'' False = Ok (c', x')"
    using h by (cases y) (auto simp: recv_session)
  then have "reachable usys_init (usys_step demoUdp demoCrypto demoProto) (?s\<lparr>uc := c', us := x'\<rparr>)"
    by (intro reach_step [OF demoUsys0_reachable [of demoUdp demoCrypto demoProto True]] usys_step.deliver) auto
  moreover have "mget (udpAddrToSessAddr x') ''a:1'' = Some demoUsa"
    using r by (auto simp: registerSession_def demoUsys0_def demoUs0_def newUdpSessionAddr_def demoUsa_def Let_def
        split: prod.splits dest!: addCodec_same)
  moreover have "same_buf (us ?s) x' \<and> config c' = config (uc ?s)" by (rule handleMetaData_same [OF h])
  ultimately show ?thesis
    by (intro exI [of _ "?s\<lparr>uc := c', us := x'\<rparr>"])
       (simp add: same_buf_def demoUsys0_def demoUs0_def demoClient_def DefaultConfig_def defaultConfig_def)
qed

theorem only_session_data_received_witness:
  "\<exists>(s :: (demo_world, demo_udp) usys) c' x'. recvMsg_handle demoUdp demoCrypto demoProto (uc s) (us s) [] (headerByte HeaderType_USER # [7, 8]) ''a:1'' True = Ok (c', x') \<and>
    recvChan x' = [([7, 8], Some demoUsa)] \<and> getUdpAddr x' (SessAddr (Some demoUsa)) = Ok ''a:1''"
proof -
  obtain s :: "(demo_world, demo_udp) usys" where s:
     "reachable usys_init (usys_step demoUdp demoCrypto demoProto) s" "isListener (us s)"
     "mget (udpAddrToSessAddr (us s)) ''a:1'' = Some demoUsa" "recvChan (us s) = []" "recvCap (us s) = 1024"
     "recvSize (us s) = 0" "UDPRecvBufferSize (config (uc s)) = 2 ^ 20"
    using demo_session_reachable by blast
  let ?x = "(us s)\<lparr>recvChan := [([7, 8], Some demoUsa)], recvSize := 2\<rparr>"
  have r: "recvMsg_handle demoUdp demoCrypto demoProto (uc s) (us s) [] (headerByte HeaderType_USER # [7, 8]) ''a:1'' True = Ok (uc s, ?x)"
    using s by (simp add: recv_user)
  have "True \<and> (\<exists>b usa. headerByte HeaderType_USER # [7, 8] = headerByte HeaderType_USER # b \<and>
      recvChan ?x = recvChan (us s) @ [(b, Some usa)] \<and> mget (sessKeyToSessAddr ?x) (usa_String usa) = Some usa \<and>
      udpAddr usa = ''a:1'' \<and> getUdpAddr ?x (SessAddr (Some usa)) = Ok ''a:1'')"
    using s(4) by (intro only_session_data_received [OF s(1,2) _ r]) auto
  then show ?thesis using r by (intro exI [of _ s] exI [of _ "uc s"] exI [of _ ?x]) (auto simp: s(4))
qed

text \<open>
  C25: user data makes the round trip. What a dialer's \<open>Write\<close> puts on the wire, the listener
  that has the session receives, and \<open>ReadFrom\<close> returns the same bytes (cut to the caller's
  buffer) with the session's address; afterwards the listener is exactly in its previous
  state, so the buffer accounting is balanced.
\<close>

theorem udp_data_round_trip:
  assumes "\<not> isListener d" "GetEstablishedUDPConn U cd d = Ok u"
    and "isListener x" "\<not> IsClosed U c x" "mget (udpAddrToSessAddr x) ua = Some usa"
    and "recvChan x = []" "0 < recvCap x" "recvSize x + int (length b) < UDPRecvBufferSize (config c)" "\<not> ctxDone x now"
  shows "\<exists>w x'. Write U cd d b =
      (map_outcome (\<lambda>n. n - 1) (fst (ucWriteMsg U u w None)), d\<lparr>udpConn := Some (snd (ucWriteMsg U u w None))\<rparr>) \<and>
    recvMsg_handle U C P c x buf w ua True = Ok (c, x') \<and>
    ReadFrom U c x' blen pref now = Some (Ok (take blen b, Some usa), x)"
proof -
  let ?w = "headerByte HeaderType_USER # b"
  let ?x = "x\<lparr>recvChan := [(b, Some usa)], recvSize := recvSize x + int (length b)\<rparr>"
  have "recvMsg_handle U C P c x buf ?w ua True = Ok (c, ?x)"
    using assms by (simp add: recv_user)
  moreover have "GetEstablishedUDPConn U c ?x = GetEstablishedUDPConn U c x" by (simp add: GetEstablishedUDPConn_def)
  then have "\<not> IsClosed U c ?x" "ctxDone ?x now = ctxDone x now"
    using assms(4) by (simp_all add: IsClosed_def ctxDone_def)
  then have "ReadFrom U c ?x blen pref now = Some (Ok (take blen b, Some usa), x)"
    using assms(6,9) by (simp add: ReadFrom_def ReadFrom_take_def ReadFrom_account_def)
  moreover have "Write U cd d b =
      (map_outcome (\<lambda>n. n - 1) (fst (ucWriteMsg U u ?w None)), d\<lparr>udpConn := Some (snd (ucWriteMsg U u ?w None))\<rparr>)"
    using assms(1,2) by (simp add: Write_def WriteTo_def split: prod.split)
  ultimately show ?thesis by blast
qed

theorem udp_data_round_trip_witness:
  "\<exists>x'. recvMsg_handle demoUdp demoCrypto demoProto (demoClient ''bob'') demoUs1 (replicate 2048 0)
      (headerByte HeaderType_USER # [7, 8, 9]) ''a:1'' True = Ok (demoClient ''bob'', x') \<and>
    ReadFrom demoUdp (demoClient ''bob'') x' 2 False 0 = Some (Ok ([7, 8], Some demoUsa), demoUs1)"
proof -
  let ?d = "(demoUs0 False)\<lparr>udpConn := Some demoOpen\<rparr>"
  have h: "\<not> isListener ?d" "GetEstablishedUDPConn demoUdp (demoClient ''alice'') ?d = Ok demoOpen"
    "isListener demoUs1" "\<not> IsClosed demoUdp (demoClient ''bob'') demoUs1"
    "mget (udpAddrToSessAddr demoUs1) ''a:1'' = Some demoUsa" "recvChan demoUs1 = []" "0 < recvCap demoUs1"
    "recvSize demoUs1 + int (length [7, 8, 9 :: byte]) < UDPRecvBufferSize (config (demoClient ''bob''))"
    "\<not> ctxDone demoUs1 0"
    by (simp_all add: demoUs0_def demoUs1_def demoOpen_def demoUdp_def GetEstablishedUDPConn_def IsClosed_def
        demoClient_def DefaultConfig_def defaultConfig_def mget_def ctxDone_def)
  obtain w x' where w: "Write demoUdp (demoClient ''alice'') ?d [7, 8, 9] =
      (map_outcome (\<lambda>n. n - 1) (fst (ucWriteMsg demoUdp demoOpen w None)),
       ?d\<lparr>udpConn := Some (snd (ucWriteMsg demoUdp demoOpen w None))\<rparr>)"
    and r: "recvMsg_handle demoUdp demoCrypto demoProto (demoClient ''bob'') demoUs1 (replicate 2048 0) w ''a:1'' True =
      Ok (demoClient ''bob'', x')"
      "ReadFrom demoUdp (demoClient ''bob'') x' 2 False 0 = Some (Ok (take 2 [7, 8, 9], Some demoUsa), demoUs1)"
    using udp_data_round_trip [OF h, of demoCrypto demoProto "replicate 2048 0" 2 False] by blast
  have "w = headerByte HeaderType_USER # [7, 8, 9]"
    using w h(2) by (simp add: Write_def WriteTo_def demoUs0_def demoUdp_def demoOpen_def)
  then show ?thesis using r by auto
qed

text \<open>
  C26: setting up a session. The metadata that a dialer's \<open>sendMetaData\<close> puts on the wire makes
  the listener register the session at the datagram's source address, under the same key
  under which the dialer's TCP connection is registered, and install the codec of the dialer's
  key for that address. Of the session tables this changes the one entry of the key and the one
  entry of the source address: another session that was registered at that very address keeps its
  key but loses the address to the new one, every other entry stays. Buffered data and TCP
  connections are untouched; the TCP connection's registration changes its own entry only.
\<close>

theorem udp_session_setup:
  assumes "proto_laws P" "crypto_laws C" "udp_laws U"
    and "MarshalMeta P \<lparr>Id = sid, SessionType = SessionType_UDP, DialerNknAddr = addr cd\<rparr> = Ok raw"
    and "newSessionData P MsgType_SESSIONID raw = Ok w" "GetEstablishedUDPConn U cd d = Ok u"
    and "isListener x" "mget (sessKeyToSessAddr x) (sessionKey (addr cd) sid) = None"
  shows "sendMetaData U P cd d sid =
      (map_outcome (\<lambda>_. ()) (fst (ucWriteMsg U u w None)), d\<lparr>udpConn := Some (snd (ucWriteMsg U u w None))\<rparr>) \<and>
    (\<exists>c' x'. recvMsg_handle U C P c x buf w ua enc = Ok (c', x') \<and>
      (\<forall>a. mget (udpAddrToSessAddr x') a =
        (if a = ua then Some (newUdpSessionAddr sid (addr cd) ua) else mget (udpAddrToSessAddr x) a)) \<and>
      (\<forall>k. mget (sessKeyToSessAddr x') k =
        (if k = sessionKey (addr cd) sid then Some (newUdpSessionAddr sid (addr cd) ua)
         else mget (sessKeyToSessAddr x) k)) \<and>
      tcpConns x' = tcpConns x \<and> recvChan x' = recvChan x \<and> recvSize x' = recvSize x \<and> conns c' = conns c \<and>
      (\<forall>k. mget (tcpConns (handleUdpListenerTcp_register x' conn (addr cd) sid)) k =
        (if k = usa_String (newUdpSessionAddr sid (addr cd) ua) then Some conn else mget (tcpConns x) k)) \<and>
      (\<forall>pk key c1 v. ClientAddrToPubKey C (addr cd) = Ok pk \<and> getOrComputeSharedKey C c pk = (Ok key, c1) \<and>
        GetEstablishedUDPConn U c x = Ok v \<longrightarrow> udpConn x' = Some (snd (ucAddCodec U v ua key))))"
proof -
  let ?md = "\<lparr>Id = sid, SessionType = SessionType_UDP, DialerNknAddr = addr cd\<rparr>"
  let ?usa = "newUdpSessionAddr sid (addr cd) ua"
  let ?x1 = "x\<lparr>sessKeyToSessAddr := mput (sessKeyToSessAddr x) (usa_String ?usa) ?usa,
     udpAddrToSessAddr := mput (udpAddrToSessAddr x) ua ?usa\<rparr>"
  have key: "usa_String ?usa = sessionKey (addr cd) sid" by (simp add: usa_String_def newUdpSessionAddr_def)
  obtain m where m: "MarshalData P \<lparr>MsgType = MsgType_SESSIONID, Data = raw\<rparr> = Ok m" "w = headerByte HeaderType_SESSION # m"
    using assms(5) by (auto simp: newSessionData_def)
  obtain r c' x' where a: "addCodec U C c ?x1 ua (addr cd) = (r, c', x')" by (metis prod_cases3)
  have "handleMetaData U C P c x m ua = registerSession U C c x ua ?md"
    using assms(7) proto_lawsD(1) [OF assms(1,4)] proto_lawsD(2) [OF assms(1) m(1)]
    by (simp add: handleMetaData_def parseSessionData_def)
  moreover have "registerSession U C c x ua ?md = (Ok (), c', x')"
    using a assms(8) key addCodec_no_panic [OF assms(2,3), of c ?x1 ua "addr cd" _ c' x']
    by (cases r) (auto simp: registerSession_def)
  ultimately have "recvMsg_handle U C P c x buf w ua enc = Ok (c', x')" by (simp add: m(2) recv_session)
  moreover have "sendMetaData U P cd d sid =
      (map_outcome (\<lambda>_. ()) (fst (ucWriteMsg U u w None)), d\<lparr>udpConn := Some (snd (ucWriteMsg U u w None))\<rparr>)"
    using assms(4-6) by (simp add: sendMetaData_def split: prod.split)
  moreover have "udpConn x' = Some (snd (ucAddCodec U v ua key))"
    if "ClientAddrToPubKey C (addr cd) = Ok pk" "getOrComputeSharedKey C c pk = (Ok key, c1)"
      "GetEstablishedUDPConn U c x = Ok v" for pk key c1 v
  proof -
    have "isClosed c1 = isClosed c" using getOrComputeSharedKey_frame [of C c pk] that(2) by auto
    then have "GetEstablishedUDPConn U c1 ?x1 = Ok v"
      using that(3) by (simp add: GetEstablishedUDPConn_def split: if_splits)
    then show ?thesis using a that(1,2) by (auto simp: addCodec_def split: prod.splits)
  qed
  ultimately show ?thesis
    using addCodec_same [OF a] addCodec_frame [OF a] key by (auto simp: handleUdpListenerTcp_register_def same_buf_def)
qed

text \<open>Alice's session reaches a listener that has another session at another address.\<close>

theorem udp_session_setup_witness:
  "\<exists>w c' x'. newSessionData demoProto MsgType_SESSIONID [2, 1, 1, 5, 97, 108, 105, 99, 101] = Ok w \<and>
    recvMsg_handle demoUdp demoCrypto demoProto (demoClient ''bob'')
      ((demoUs0 True)\<lparr>udpAddrToSessAddr := [(''b:2'', demoUsa\<lparr>usaID := [9], udpAddr := ''b:2''\<rparr>)]\<rparr>) [] w ''a:1'' False = Ok (c', x') \<and>
    mget (udpAddrToSessAddr x') ''a:1'' = Some demoUsa \<and>
    mget (udpAddrToSessAddr x') ''b:2'' = Some (demoUsa\<lparr>usaID := [9], udpAddr := ''b:2''\<rparr>)"
proof -
  let ?x = "(demoUs0 True)\<lparr>udpAddrToSessAddr := [(''b:2'', demoUsa\<lparr>usaID := [9], udpAddr := ''b:2''\<rparr>)]\<rparr>"
  let ?d = "(demoUs0 False)\<lparr>udpConn := Some demoOpen\<rparr>"
  let ?raw = "[2, 1, 1, 5, 97, 108, 105, 99, 101] :: bytes"
  have raw: "MarshalMeta demoProto \<lparr>Id = [1], SessionType = SessionType_UDP, DialerNknAddr = addr (demoClient ''alice'')\<rparr> = Ok ?raw"
    by (simp add: demoProto_def demoMarshal_def session_type_defs putField_def demoClient_def bytes_of_string_def
        byte_of_char_def of_char_def)
  obtain w where w: "newSessionData demoProto MsgType_SESSIONID ?raw = Ok w"
    by (simp add: newSessionData_def demoProto_def demoMarshal_def msg_type_defs)
  have h: "GetEstablishedUDPConn demoUdp (demoClient ''alice'') ?d = Ok demoOpen" "isListener ?x"
    "mget (sessKeyToSessAddr ?x) (sessionKey (addr (demoClient ''alice'')) [1]) = None"
    by (simp_all add: demoUs0_def demoOpen_def demoUdp_def GetEstablishedUDPConn_def demoClient_def)
  have n: "newUdpSessionAddr [1] (addr (demoClient ''alice'')) ''a:1'' = demoUsa"
    by (simp add: newUdpSessionAddr_def demoUsa_def demoClient_def)
  obtain c' x' where x': "recvMsg_handle demoUdp demoCrypto demoProto (demoClient ''bob'') ?x [] w ''a:1'' False = Ok (c', x')"
    "\<And>a. mget (udpAddrToSessAddr x') a = (if a = ''a:1'' then Some demoUsa else mget (udpAddrToSessAddr ?x) a)"
    using udp_session_setup [OF demoProto_laws demoCrypto_laws demoUdp_laws raw w h, of "demoClient ''bob''" "[]" "''a:1''" False 0] n
    by metis
  have "mget (udpAddrToSessAddr ?x) ''b:2'' = Some (demoUsa\<lparr>usaID := [9], udpAddr := ''b:2''\<rparr>)" by (simp add: mget_def)
  then show ?thesis using w x' by fastforce
qed

text \<open>
  C27: closing a session. What a closing dialer writes on the TCP connection, received by one
  read, makes the listener's monitor of that connection return \<open>ErrClosed\<close> after removing the
  session from its tables and closing its TCP connection. The session is the one at its UDP
  address; then nothing else ends with it: every other session key, UDP address and TCP
  connection stays, no other connection is closed, and buffered data remains.
\<close>

theorem udp_close_ends_session:
  assumes "proto_laws P" "newSessionData P MsgType_CLOSE [] = Ok w" "length w \<le> 1024"
    and "\<not> isListener d" "tcpConn d = Some t"
    and "isListener x" "GetEstablishedUDPConn U c x = Ok u" "mget (sessKeyToSessAddr x) k = Some usa"
    and "mget (tcpConns x) k = Some q" "mget (conns c) conn = Some kk" "\<not> connClosed kk" "rdSegs kk = w # rest"
    and "mget (udpAddrToSessAddr x) (udpAddr usa) = Some usa"
  shows "sendCloseMsg P cd d None = Ok (rawWrite cd t w) \<and>
    (\<exists>c' x'. handleTcpMsg U P c x conn k b = (Ok ErrClosed, c', x') \<and>
      (\<forall>k'. mget (sessKeyToSessAddr x') k' = (if k' = k then None else mget (sessKeyToSessAddr x) k')) \<and>
      (\<forall>a. mget (udpAddrToSessAddr x') a =
        (if a = udpAddr usa then None else mget (udpAddrToSessAddr x) a)) \<and>
      (\<forall>k'. mget (tcpConns x') k' = (if k' = k then None else mget (tcpConns x) k')) \<and>
      (\<forall>p. connIsClosed c' p \<longleftrightarrow> p = q \<or> connIsClosed c p) \<and>
      recvChan x' = recvChan x \<and> recvSize x' = recvSize x)"
proof -
  obtain m where m: "MarshalData P \<lparr>MsgType = MsgType_CLOSE, Data = []\<rparr> = Ok m" "w = headerByte HeaderType_SESSION # m"
    using assms(2) by (auto simp: newSessionData_def)
  have p: "parseSessionData P m = Ok \<lparr>MsgType = MsgType_CLOSE, Data = []\<rparr>"
    using proto_lawsD(2) [OF assms(1) m(1)] by (simp add: parseSessionData_def)
  obtain c1 where c1: "rawRead c conn 1024 = (Ok w, c1)"
    using assms(3,10-12) by (simp add: rawRead_def connRead_def)
  let ?x = "x\<lparr>sessKeyToSessAddr := mdel (sessKeyToSessAddr x) k, udpAddrToSessAddr := mdel (udpAddrToSessAddr x) (udpAddr usa),
    tcpConns := mdel (tcpConns x) k\<rparr>"
  have h: "handleConnClosed U c1 x k = Ok (closeConn c1 q, ?x)"
    using assms(6,8,9) by (simp add: handleConnClosed_def)
  have "handleTcpMsg U P c x conn k b = (Ok ErrClosed, closeConn c1 q, ?x)"
    by (subst handleTcpMsg.simps) (use assms(7) c1 m(2) p h in \<open>simp add: Let_def\<close>)
  moreover have "connIsClosed c1 p = connIsClosed c p" for p
    using c1 by (auto simp: rawRead_def connRead_def connIsClosed_def split: option.splits if_splits list.splits)
  ultimately show ?thesis using assms(2,4,5,13) by (auto simp: sendCloseMsg_def)
qed

theorem udp_close_ends_session_witness:
  "\<exists>c' x'. handleTcpMsg demoUdp demoProto
      ((demoClient ''bob'')\<lparr>conns := [(3, newConn ''peer'' [headerByte HeaderType_SESSION # [255, 0, 0]] ErrEOF)]\<rparr>)
      (demoUs1\<lparr>tcpConns := [(usa_String demoUsa, 3)]\<rparr>) 3 (usa_String demoUsa) (replicate 1024 0) = (Ok ErrClosed, c', x') \<and>
    mget (sessKeyToSessAddr x') (usa_String demoUsa) = None \<and> connIsClosed c' 3"
proof -
  let ?c = "(demoClient ''bob'')\<lparr>conns := [(3, newConn ''peer'' [headerByte HeaderType_SESSION # [255, 0, 0]] ErrEOF)]\<rparr>"
  let ?x = "demoUs1\<lparr>tcpConns := [(usa_String demoUsa, 3)]\<rparr>"
  let ?kk = "newConn ''peer'' [headerByte HeaderType_SESSION # [255, 0, 0]] ErrEOF"
  have w: "newSessionData demoProto MsgType_CLOSE [] = Ok (headerByte HeaderType_SESSION # [255, 0, 0])"
    by (simp add: newSessionData_def demoProto_def demoMarshal_def putField_def msg_type_defs)
  have h: "length (headerByte HeaderType_SESSION # [255, 0, 0]) \<le> 1024"
    "\<not> isListener ((demoUs0 False)\<lparr>tcpConn := Some 0\<rparr>)" "tcpConn ((demoUs0 False)\<lparr>tcpConn := Some 0\<rparr>) = Some 0"
    "isListener ?x" "GetEstablishedUDPConn demoUdp ?c ?x = Ok demoOpen"
    "mget (sessKeyToSessAddr ?x) (usa_String demoUsa) = Some demoUsa" "mget (tcpConns ?x) (usa_String demoUsa) = Some 3"
    "mget (conns ?c) 3 = Some ?kk" "\<not> connClosed ?kk" "rdSegs ?kk = (headerByte HeaderType_SESSION # [255, 0, 0]) # []"
    "mget (udpAddrToSessAddr ?x) (udpAddr demoUsa) = Some demoUsa"
    by (simp_all add: demoUs0_def demoUs1_def demoOpen_def demoUdp_def GetEstablishedUDPConn_def demoClient_def
        mget_def newConn_def demoUsa_def)
  show ?thesis
    using udp_close_ends_session [OF demoProto_laws w h, of "demoClient ''alice''" "replicate 1024 0"] by auto
qed

section \<open>Where the code falls short\<close>

text \<open>
  A dialer that closes while a datagram is on its way panics. \<open>Close\<close> (and
  \<open>handleConnClosed\<close>) set \<open>us.peer\<close> to nil; \<open>recvMsg\<close>, having read an encrypted user datagram
  before, then compares its source with \<open>us.peer.udpAddr\<close>.
\<close>

lemma datagram_after_dialer_close_panics:
  assumes "\<not> isListener d" "Close U P c d = Ok (e, c', d')"
  shows "recvMsg_handle U C P c' d' buf (headerByte HeaderType_USER # b) ua True = Panic NilDereference"
proof -
  have "\<not> isListener d' \<and> peer d' = None"
    using assms close_inv [OF assms(2)] by (auto simp: Close_def Let_def same_buf_def split: option.splits)
  then show ?thesis by (simp add: recvMsg_handle_def)
qed

lemma datagram_after_dialer_close_panics_witness:
  "\<exists>c' d'. Close demoUdp demoProto (demoClient ''alice'') ((demoUs0 False)\<lparr>udpConn := Some demoOpen, peer := Some demoUsa\<rparr>)
      = Ok (None, c', d') \<and>
    recvMsg_handle demoUdp demoCrypto demoProto c' d' [] (headerByte HeaderType_USER # [7]) ''a:1'' True = Panic NilDereference"
proof -
  let ?d = "(demoUs0 False)\<lparr>udpConn := Some demoOpen, peer := Some demoUsa\<rparr>"
  obtain c' d' where "Close demoUdp demoProto (demoClient ''alice'') ?d = Ok (None, c', d')"
    by (simp add: Close_def sendCloseMsg_def newSessionData_def demoProto_def demoMarshal_def msg_type_defs demoUs0_def
        Let_def GetEstablishedUDPConn_def demoUdp_def demoOpen_def demoClient_def)
  moreover have "\<not> isListener ?d" by (simp add: demoUs0_def)
  ultimately show ?thesis using datagram_after_dialer_close_panics by blast
qed

text \<open>
  An empty datagram makes the receiver panic when the previous datagram was a session
  message (or user data of a session that is still registered at the source): the header is
  read from the reused buffer without looking at \<open>n\<close>.
\<close>

lemma empty_datagram_panics:
  assumes "buf = headerByte HeaderType_SESSION # rest"
  shows "recvMsg_handle U C P c x buf [] ua enc = Panic (SliceBounds 1 0)"
  using assms headerByte_distinct by (simp add: recvMsg_handle_def fillBuf_def sliceFrom1_def)

lemma empty_datagram_panics_witness:
  "recvMsg_handle demoUdp demoCrypto demoProto (demoClient ''bob'') demoUs1
     (headerByte HeaderType_SESSION # replicate 2047 0) [] ''x:9'' False = Panic (SliceBounds 1 0)"
  by (rule empty_datagram_panics) simp

text \<open>
  A negative \<open>ReconnectRetries\<close>, documented as unlimited, ends the monitoring of a UDP
  session after its first successful redial: the check behind the loop compares the loop
  counter with the negative bound.
\<close>

lemma udp_unlimited_retries_end:
  assumes "R < 0" "\<forall>e\<in>set es. e \<noteq> ErrClosed"
  shows "udpRedial R 0 (map Some es @ None # rs) = Ended"
proof -
  have "udpRedial R j (map Some es @ None # rs) = Ended" if "0 \<le> j" for j
    using assms that by (induction es arbitrary: j) auto
  then show ?thesis by simp
qed

lemma udp_unlimited_retries_end_witness:
  "udpRedial (- 1) 0 [Some ErrNoPubAddr, None, None] = Ended \<and> udpRedial 2 0 [Some ErrNoPubAddr, None, None] = Redialed"
  using udp_unlimited_retries_end [of "- 1" "[ErrNoPubAddr]" "[None]"] by simp

text \<open>
  A dialer that reconnects from a new UDP address is not served. The listener leaves a
  session that is already registered at its old address, so the metadata sent from the new
  one changes nothing and the user data that follows is dropped.
\<close>

lemma udp_reconnect_from_new_address_dropped:
  assumes "isListener x" "mget (udpAddrToSessAddr x) ua = None"
    and "mget (sessKeyToSessAddr x) (sessionKey (DialerNknAddr md) (Id md)) \<noteq> None"
    and "parseSessionData P m = Ok \<lparr>MsgType = MsgType_SESSIONID, Data = raw\<rparr>" "UnmarshalMeta P raw = Ok md"
  shows "recvMsg_handle U C P c x buf (headerByte HeaderType_SESSION # m) ua enc = Ok (c, x) \<and>
    recvMsg_handle U C P c x buf' (headerByte HeaderType_USER # b) ua True = Ok (c, x)"
proof -
  have "handleMetaData U C P c x m ua = (Ok (), c, x)"
    using assms by (auto simp: handleMetaData_def registerSession_def usa_String_def newUdpSessionAddr_def)
  then show ?thesis using assms(1,2) by (simp add: recv_session recv_user)
qed

lemma udp_reconnect_from_new_address_dropped_witness:
  "recvMsg_handle demoUdp demoCrypto demoProto (demoClient ''bob'') demoUs1 [] (headerByte HeaderType_USER # [7]) ''a:2'' True =
     Ok (demoClient ''bob'', demoUs1)"
proof -
  let ?md = "\<lparr>Id = [1], SessionType = SessionType_UDP, DialerNknAddr = ''alice''\<rparr>"
  obtain raw where raw: "MarshalMeta demoProto ?md = Ok raw" "length raw < 256"
    by (simp add: demoProto_def demoMarshal_def session_type_defs putField_def)
  then obtain m where m: "MarshalData demoProto \<lparr>MsgType = MsgType_SESSIONID, Data = raw\<rparr> = Ok m"
    by (simp add: demoProto_def demoMarshal_def msg_type_defs)
  have h: "isListener demoUs1" "mget (udpAddrToSessAddr demoUs1) ''a:2'' = None"
    "mget (sessKeyToSessAddr demoUs1) (sessionKey (DialerNknAddr ?md) (Id ?md)) \<noteq> None"
    by (simp_all add: demoUs1_def demoUs0_def mget_def demoUsa_def usa_String_def)
  have p: "parseSessionData demoProto m = Ok \<lparr>MsgType = MsgType_SESSIONID, Data = raw\<rparr>"
    using proto_lawsD(2) [OF demoProto_laws m] by (simp add: parseSessionData_def)
  show ?thesis
    by (rule udp_reconnect_from_new_address_dropped [OF h p proto_lawsD(1) [OF demoProto_laws raw(1)], THEN conjunct2])
qed

text \<open>
  Two sessions that share a UDP address (two dialers behind one address, or a dialer
  with two sessions on a reused port): ending the older one also removes the address of the
  newer, whose data is dropped from then on although it is still registered.
\<close>

lemma udp_shared_address_lost:
  assumes "isListener x" "mget (sessKeyToSessAddr x) k1 = Some usa1" "mget (sessKeyToSessAddr x) k2 = Some usa2"
    and "k1 \<noteq> k2" "udpAddr usa1 = ua" "mget (udpAddrToSessAddr x) ua = Some usa2"
  shows "\<exists>c' x'. handleConnClosed U c x k1 = Ok (c', x') \<and> mget (sessKeyToSessAddr x') k2 = Some usa2 \<and>
    recvMsg_handle U C P c' x' buf (headerByte HeaderType_USER # b) ua True = Ok (c', x')"
  using assms by (simp add: handleConnClosed_def Let_def recv_user split: option.split)

lemma udp_shared_address_lost_witness:
  "\<exists>c' x'. handleConnClosed demoUdp (demoClient ''bob'')
      (demoUs1\<lparr>sessKeyToSessAddr := [(''k1'', demoUsa), (''k2'', demoUsa\<lparr>usaID := [2]\<rparr>)],
               udpAddrToSessAddr := [(''a:1'', demoUsa\<lparr>usaID := [2]\<rparr>)]\<rparr>) ''k1'' = Ok (c', x') \<and>
    recvMsg_handle demoUdp demoCrypto demoProto c' x' [] (headerByte HeaderType_USER # [7]) ''a:1'' True = Ok (c', x')"
  using udp_shared_address_lost [of "demoUs1\<lparr>sessKeyToSessAddr := [(''k1'', demoUsa), (''k2'', demoUsa\<lparr>usaID := [2]\<rparr>)],
               udpAddrToSessAddr := [(''a:1'', demoUsa\<lparr>usaID := [2]\<rparr>)]\<rparr>" "''k1''" demoUsa "''k2''" "demoUsa\<lparr>usaID := [2]\<rparr>" "''a:1''"]
  by (simp add: demoUs1_def demoUs0_def mget_def demoUsa_def) blast

end
