(* ===== verification/Udp_Queue.thy ===== *)
theory Udp_Queue
  imports Udp_Props
begin

text \<open>
  The receive channel of a UDP session as a queue. The machine of \<open>Udp_Machine\<close> is extended by
  a log of the datagrams that \<open>recvMsg\<close> accepted and of the messages that \<open>ReadFrom\<close> returned;
  seen through the log it implements a bounded first-in first-out queue.
\<close>

section \<open>The specification\<close>

text \<open>A bounded queue as its history: capacity, what was put in, what was taken out.\<close>

type_synonym 'm queue_history = "int \<times> 'm list \<times> 'm list"

inductive queue_step :: "'m queue_history \<Rightarrow> 'm queue_history \<Rightarrow> bool" where
  queue_put: "int (length puts) - int (length takes) < cap \<Longrightarrow>
    queue_step (cap, puts, takes) (cap, puts @ [m], takes)"
| queue_take: "length takes < length puts \<Longrightarrow>
    queue_step (cap, puts, takes) (cap, puts, takes @ [puts ! length takes])"

definition queue_start :: "'m queue_history \<Rightarrow> bool" where
  "queue_start h \<longleftrightarrow> snd h = ([], [])"

text \<open>What is taken out is what was put in, in that order, and no more than fits is inside.\<close>

lemma queue_history_fifo:
  "queue_step\<^sup>*\<^sup>* h0 (cap, puts, takes) \<Longrightarrow> queue_start h0 \<Longrightarrow>
   \<exists>rest. puts = takes @ rest \<and> int (length rest) \<le> max 0 cap"
proof (induction "(cap, puts, takes)" arbitrary: cap puts takes rule: rtranclp_induct)
  case base
  then show ?case by (simp add: queue_start_def)
next
  case (step h)
  obtain cap' puts' takes' where h: "h = (cap', puts', takes')" by (metis prod_cases3)
  obtain rest where r: "puts' = takes' @ rest" "int (length rest) \<le> max 0 cap'" using step.hyps(3) [OF h] step.prems by blast
  from step.hyps(2) [unfolded h] show ?case
  proof (cases rule: queue_step.cases)
    case (queue_put m)
    then show ?thesis using r by auto
  next
    case queue_take
    then obtain x xs where "rest = x # xs" using r(1) by (cases rest) auto
    then show ?thesis using r queue_take by auto
  qed
qed

section \<open>The session with a log\<close>

record ('w, 'u) qsys =
  qs :: "('w, 'u) usys"
  accepted :: "recvData list"
  returned :: "recvData list"

text \<open>The sender that a datagram's data is filed under: the session at a listener, none at a dialer.\<close>

definition senderOf :: "'u UdpSession \<Rightarrow> string \<Rightarrow> udpSessionAddr option" where
  "senderOf x ua = (if isListener x then mget (udpAddrToSessAddr x) ua else None)"

definition acceptedNow :: "'u UdpSession \<Rightarrow> 'u UdpSession \<Rightarrow> bytes \<Rightarrow> string \<Rightarrow> recvData list" where
  "acceptedNow x x' payload ua = (if recvChan x' = recvChan x then [] else [(tl payload, senderOf x ua)])"

inductive qsys_step :: "'u udp_ops \<Rightarrow> crypto \<Rightarrow> proto \<Rightarrow> ('w, 'u) qsys \<Rightarrow> ('w, 'u) qsys outcome \<Rightarrow> bool"
  for U C P where
  q_deliver: "payload \<noteq> [] \<Longrightarrow> recvMsg_handle U C P (uc (qs q)) (us (qs q)) buf payload ua enc = Ok (c', x') \<Longrightarrow>
    qsys_step U C P q (Ok (q\<lparr>qs := (qs q)\<lparr>uc := c', us := x'\<rparr>,
      accepted := accepted q @ acceptedNow (us (qs q)) x' payload ua\<rparr>))"
| q_take: "ReadFrom_take U (uc (qs q)) (us (qs q)) pref now = Some (Ok m, x') \<Longrightarrow>
    qsys_step U C P q (Ok (q\<lparr>qs := (qs q)\<lparr>us := x', reading := length (fst m) # reading (qs q)\<rparr>,
      returned := returned q @ [m]\<rparr>))"
| q_other: "usys_step U C P (qs q) (Ok t) \<Longrightarrow> recvChan (us t) = recvChan (us (qs q)) \<Longrightarrow>
    qsys_step U C P q (Ok (q\<lparr>qs := t\<rparr>))"

definition qsys_init :: "('w, 'u) qsys \<Rightarrow> bool" where
  "qsys_init q \<longleftrightarrow> usys_init (qs q) \<and> accepted q = [] \<and> returned q = []"

text \<open>The log neither adds steps to the machine nor takes any away.\<close>

lemma qsys_sound: "qsys_step U C P q (Ok q') \<Longrightarrow> usys_step U C P (qs q) (Ok (qs q'))"
proof (induction "Ok q' :: ('b, 'a) qsys outcome" rule: qsys_step.induct)
  case (q_take q pref now m x')
  then show ?case using usys_step.take [of U "qs q" pref now "fst m" "snd m" x'] by auto
qed (auto intro: usys_step.deliver)

lemma deliver_log:
  assumes "recvMsg_handle U C P c x buf payload ua enc = Ok (c', x')" "payload \<noteq> []"
  shows "recvChan x' = recvChan x @ acceptedNow x x' payload ua" "recvCap x' = recvCap x"
    "recvChan x' \<noteq> recvChan x \<Longrightarrow> int (length (recvChan x)) < recvCap x"
proof -
  obtain h b where pl: "payload = h # b" using assms(2) by (cases payload) auto
  have "(x' = x \<or> int (length (recvChan x)) < recvCap x \<and> recvChan x' = recvChan x @ [(b, senderOf x ua)] \<and> recvCap x' = recvCap x)"
    if "h = headerByte HeaderType_USER"
    using assms(1) unfolding pl that
    by (auto simp: recvMsg_handle_def senderOf_def enqueue_Cons Let_def split: if_splits option.splits)
  moreover have "same_buf x x'" if h: "h = headerByte HeaderType_SESSION"
  proof -
    obtain y c1 x1 where m: "handleMetaData U C P c x b ua = (y, c1, x1)" by (metis prod_cases3)
    with assms(1) have "x1 = x'" unfolding pl h recv_session by (auto split: outcome.splits)
    with handleMetaData_same [OF m] show ?thesis by simp
  qed
  moreover have "x' = x" if "h \<noteq> headerByte HeaderType_USER" "h \<noteq> headerByte HeaderType_SESSION"
    using assms(1) recv_other [OF that, of U C P c x buf b ua enc] by (simp add: pl)
  ultimately have "same_buf x x' \<or> int (length (recvChan x)) < recvCap x \<and> recvCap x' = recvCap x \<and>
      recvChan x' = recvChan x @ [(b, senderOf x ua)]" using same_buf_refl by metis
  then show "recvChan x' = recvChan x @ acceptedNow x x' payload ua" "recvCap x' = recvCap x"
    "recvChan x' \<noteq> recvChan x \<Longrightarrow> int (length (recvChan x)) < recvCap x"
    by (auto simp: same_buf_def acceptedNow_def pl)
qed

lemma take_log:
  assumes "ReadFrom_take U c x pref now = Some (Ok m, x')"
  shows "recvChan x = m # recvChan x'" "recvCap x' = recvCap x"
  using assms by (auto simp: ReadFrom_take_def split: if_splits list.splits)

text \<open>Every step that is neither a delivery nor a read leaves the channel alone.\<close>

lemma qsys_complete:
  assumes "usys_step U C P (qs q) (Ok t)"
  shows "\<exists>q'. qsys_step U C P q (Ok q') \<and> qs q' = t"
proof -
  have other: "\<exists>q'. qsys_step U C P q (Ok q') \<and> qs q' = t" if "recvChan (us t) = recvChan (us (qs q))"
    using qsys_step.q_other [OF assms that] by fastforce
  from assms show ?thesis
  proof (cases rule: usys_step.cases)
    case (deliver payload buf ua enc c' us')
    then show ?thesis using qsys_step.q_deliver [OF deliver(2,3)] by fastforce
  next
    case (take pref now d usa us')
    then show ?thesis using qsys_step.q_take [OF take(2)] by fastforce
  next
    case (conn_closed k c' us')
    then show ?thesis using handleConnClosed_same [OF conn_closed(2)] by (intro other) (simp add: same_buf_def)
  next
    case (close e c' us')
    then show ?thesis using close_inv [OF close(2)] by (intro other) (simp add: same_buf_def)
  qed (rule other; simp add: ReadFrom_account_def handleUdpListenerTcp_register_def)+
qed

lemma usys_step_cap: "usys_step U C P s (Ok t) \<Longrightarrow> recvCap (us t) = recvCap (us s)"
proof (induction "Ok t :: ('b, 'a) usys outcome" rule: usys_step.induct)
  case (deliver payload s buf ua enc c' us')
  then show ?case using deliver_log(2) [OF deliver(2,1)] by auto
next
  case (take s pref now d usa us')
  then show ?case using take_log(2) [OF take(1)] by auto
next
  case (conn_closed s k c' us')
  then show ?case using handleConnClosed_same [OF conn_closed(1)] by (auto simp: same_buf_def)
next
  case (close s e c' us')
  then show ?case using close_inv [OF close(1)] by (auto simp: same_buf_def)
qed (auto simp: ReadFrom_account_def handleUdpListenerTcp_register_def)

section \<open>The refinement\<close>

definition qsys_inv :: "('w, 'u) qsys \<Rightarrow> bool" where
  "qsys_inv q \<longleftrightarrow> usys_inv (qs q) \<and> accepted q = returned q @ recvChan (us (qs q))"

definition historyOf :: "('w, 'u) qsys \<Rightarrow> recvData queue_history" where
  "historyOf q = (recvCap (us (qs q)), accepted q, returned q)"

lemma qsys_log_step:
  "qsys_step U C P q (Ok q') \<Longrightarrow> accepted q = returned q @ recvChan (us (qs q)) \<Longrightarrow>
   accepted q' = returned q' @ recvChan (us (qs q')) \<and>
   (queue_step (historyOf q) (historyOf q') \<or> historyOf q' = historyOf q)"
proof (induction "Ok q' :: ('b, 'a) qsys outcome" rule: qsys_step.induct)
  case (q_deliver payload q buf ua enc c' x')
  note d = deliver_log [OF q_deliver(2,1)]
  show ?case
  proof (cases "recvChan x' = recvChan (us (qs q))")
    case True
    then show ?thesis using q_deliver(4) d(2) unfolding q_deliver(3) [symmetric] by (simp add: acceptedNow_def historyOf_def)
  next
    case False
    note chan = d(1) [unfolded acceptedNow_def if_not_P [OF False]]
    from False have "int (length (accepted q)) - int (length (returned q)) < recvCap (us (qs q))"
      using d(3) q_deliver(4) by simp
    then show ?thesis
      using q_deliver(4) d(2) queue_put [of "accepted q" "returned q" _ "(tl payload, senderOf (us (qs q)) ua)"]
      unfolding q_deliver(3) [symmetric] by (simp add: acceptedNow_def chan historyOf_def)
  qed
next
  case (q_take q pref now m x')
  note t = take_log [OF q_take(1)]
  have "queue_step (recvCap (us (qs q)), accepted q, returned q)
      (recvCap (us (qs q)), accepted q, returned q @ [accepted q ! length (returned q)])"
    using q_take(3) t(1) by (intro queue_take) simp
  then show ?case using q_take(3) t unfolding q_take(2) [symmetric] by (simp add: historyOf_def)
next
  case (q_other q t)
  then show ?case using usys_step_cap [OF q_other(1)] unfolding q_other(3) [symmetric] by (simp add: historyOf_def)
qed

lemma newUdpSession_empty: "newUdpSession c l = Ok x \<Longrightarrow> recvChan x = []"
  by (auto simp: newUdpSession_def split: if_splits)

lemma qsys_inv_init: "qsys_init q \<Longrightarrow> qsys_inv q"
  by (auto dest: newUdpSession_empty simp: qsys_init_def qsys_inv_def usys_inv_init usys_init_def)

lemma qsys_inv_step: "qsys_step U C P q (Ok q') \<Longrightarrow> qsys_inv q \<Longrightarrow> qsys_inv q'"
  using qsys_log_step usys_inv_step [OF qsys_sound] unfolding qsys_inv_def by blast

lemma historyOf_init: "qsys_init q \<Longrightarrow> queue_start (historyOf q)"
  by (simp add: qsys_init_def queue_start_def historyOf_def)

lemma historyOf_step:
  "qsys_inv q \<Longrightarrow> qsys_step U C P q (Ok q') \<Longrightarrow> queue_step (historyOf q) (historyOf q') \<or> historyOf q' = historyOf q"
  using qsys_log_step [of U C P q q'] unfolding qsys_inv_def by blast

interpretation uq: simulation qsys_init "qsys_step U C P" qsys_inv historyOf queue_start queue_step for U C P
  by unfold_locales (fact qsys_inv_init, rule qsys_inv_step, assumption+, fact historyOf_init, rule historyOf_step, assumption+)

section \<open>Properties\<close>

text \<open>
  C15: the receive channel refines a bounded queue. Whatever datagrams arrive and however the
  two halves of \<open>ReadFrom\<close> interleave with deliveries, sessions that end, and \<open>Close\<close>, the
  datagrams accepted and the messages returned are a history of a first-in first-out queue of
  the configured capacity: \<open>ReadFrom\<close> returns the accepted datagrams without their header byte,
  each once, in the order of arrival, under the session that sent it; what it has not returned
  yet is the channel's content. The log restricts nothing: the session itself makes exactly
  the steps of the logged one.
\<close>

theorem udp_queue_is_fifo:
  assumes "reachable qsys_init (qsys_step U C P) q"
  shows "(\<exists>h0. queue_start h0 \<and> queue_step\<^sup>*\<^sup>* h0 (historyOf q)) \<and>
    accepted q = returned q @ recvChan (us (qs q)) \<and> int (length (recvChan (us (qs q)))) \<le> recvCap (us (qs q)) \<and>
    (\<forall>t. usys_step U C P (qs q) (Ok t) \<longleftrightarrow> (\<exists>q'. qsys_step U C P q (Ok q') \<and> qs q' = t))"
proof -
  have "qsys_inv q" by (rule uq.reachable_inv [OF assms])
  then have "accepted q = returned q @ recvChan (us (qs q))" "int (length (recvChan (us (qs q)))) \<le> recvCap (us (qs q))"
    by (simp_all add: qsys_inv_def usys_inv_def buf_ok_def)
  moreover have "usys_step U C P (qs q) (Ok t) \<longleftrightarrow> (\<exists>q'. qsys_step U C P q (Ok q') \<and> qs q' = t)" for t
    using qsys_sound qsys_complete by blast
  ultimately show ?thesis using uq.reachable_abs [OF assms] by blast
qed

lemma logged_reachable:
  "reachable usys_init (usys_step U C P) s \<Longrightarrow> \<exists>q. reachable qsys_init (qsys_step U C P) q \<and> qs q = s"
proof (induction rule: reachable.induct)
  case (reach_start s)
  then show ?case
    by (intro exI [of _ "\<lparr>qs = s, accepted = [], returned = []\<rparr>"] conjI reachable.reach_start) (simp_all add: qsys_init_def)
next
  case (reach_step s t)
  then show ?case by (metis qsys_complete reachable.reach_step)
qed

text \<open>Bob's listener receives a datagram of Alice's session and reads it.\<close>

theorem udp_queue_is_fifo_witness:
  "\<exists>q :: (demo_world, demo_udp) qsys. reachable qsys_init (qsys_step demoUdp demoCrypto demoProto) q \<and>
     accepted q = returned q \<and> last (accepted q) = ([7, 8], Some demoUsa)"
proof -
  let ?step = "qsys_step demoUdp demoCrypto demoProto" and ?b = "headerByte HeaderType_USER # [7, 8]"
  obtain q :: "(demo_world, demo_udp) qsys" where q: "reachable qsys_init ?step q" "isListener (us (qs q))"
     "mget (udpAddrToSessAddr (us (qs q))) ''a:1'' = Some demoUsa" "recvChan (us (qs q)) = []" "recvCap (us (qs q)) = 1024"
     "recvSize (us (qs q)) = 0" "UDPRecvBufferSize (config (uc (qs q))) = 2 ^ 20"
    using demo_session_reachable logged_reachable by blast
  define x1 where "x1 = (us (qs q))\<lparr>udpConn := Some demoOpen, readDeadline := None\<rparr>"
  define c1 where "c1 = (uc (qs q))\<lparr>isClosed := False\<rparr>"
  let ?q1 = "q\<lparr>qs := (qs q)\<lparr>uc := c1, us := x1\<rparr>\<rparr>"
  have 1: "reachable qsys_init ?step ?q1"
    unfolding x1_def by (intro reach_step [OF q(1)] qsys_step.q_other usys_step.env) (simp_all add: c1_def)
  define x2 where "x2 = x1\<lparr>recvChan := [([7, 8], Some demoUsa)], recvSize := 2\<rparr>"
  let ?q2 = "?q1\<lparr>qs := (qs ?q1)\<lparr>uc := c1, us := x2\<rparr>, accepted := accepted ?q1 @ acceptedNow (us (qs ?q1)) x2 ?b ''a:1''\<rparr>"
  have "recvMsg_handle demoUdp demoCrypto demoProto (uc (qs ?q1)) (us (qs ?q1)) [] ?b ''a:1'' True = Ok (c1, x2)"
    using q(2-7) by (simp add: recv_user x1_def x2_def c1_def)
  then have 2: "reachable qsys_init ?step ?q2"
    by (intro reach_step [OF 1] qsys_step.q_deliver [where buf = "[]" and enc = True]) simp_all
  let ?q3 = "?q2\<lparr>qs := (qs ?q2)\<lparr>us := x2\<lparr>recvChan := []\<rparr>, reading := length (fst ([7, 8] :: bytes, Some demoUsa)) # reading (qs ?q2)\<rparr>,
      returned := returned ?q2 @ [([7, 8], Some demoUsa)]\<rparr>"
  have "ReadFrom_take demoUdp (uc (qs ?q2)) (us (qs ?q2)) False 0 = Some (Ok ([7, 8], Some demoUsa), x2\<lparr>recvChan := []\<rparr>)"
    by (simp add: ReadFrom_take_def IsClosed_def GetEstablishedUDPConn_def x2_def x1_def c1_def demoUdp_def demoOpen_def)
  then have 3: "reachable qsys_init ?step ?q3"
    by (intro reach_step [OF 2] qsys_step.q_take [where pref = False and now = 0]) simp_all
  have "accepted ?q3 = returned ?q3 @ recvChan (us (qs ?q3))" using udp_queue_is_fifo [OF 3] by blast
  then have "accepted ?q3 = returned ?q3" by simp
  moreover have "last (returned ?q3) = ([7, 8], Some demoUsa)" by simp
  ultimately show ?thesis using 3 by metis
qed

end
