(* ===== verification/Udp_Monitor.thy ===== *)
theory Udp_Monitor
  imports Reconnecting Udp_Props
begin

text \<open>
  The goroutine with which \<open>DialUDPWithConfig\<close> (\<open>udp.go\<close>) watches the TCP connection of a dialed UDP
  session: it reads until the connection ends and then dials the session up again.
\<close>

section \<open>The goroutine\<close>

text \<open>
  One call of \<open>DialUpSession\<close>: what other goroutines do to the client and the session until then
  (the sleep after a failed call included), and what the address query, the network and the
  random source give it.
\<close>

type_synonym ('c, 'u) redial_try =
  "('c \<times> 'u UdpSession \<Rightarrow> 'c \<times> 'u UdpSession) \<times> attempt list \<times> go_error \<times> Conn outcome \<times> bytes outcome \<times> int"

fun redialLoop ::
  "'u udp_ops \<Rightarrow> crypto \<Rightarrow> proto \<Rightarrow> (bytes \<Rightarrow> PubAddrs outcome) \<Rightarrow> (PubAddr \<Rightarrow> 'u outcome) \<Rightarrow> (PubAddr \<Rightarrow> string) \<Rightarrow>
   string \<Rightarrow> bytes \<Rightarrow> DialConfig \<Rightarrow> int \<Rightarrow> ('w, 'a) client_scheme \<Rightarrow> 'u UdpSession \<Rightarrow>
   (('w, 'a) client_scheme, 'u) redial_try list \<Rightarrow> (redial \<times> ('w, 'a) client_scheme \<times> 'u UdpSession) outcome" where
  "redialLoop U C P unjson dial uaOf remoteAddr sid dcfg j c x [] =
     Ok (if retriesLeft c j then StillDialing else Ended, c, x)"
| "redialLoop U C P unjson dial uaOf remoteAddr sid dcfg j c x ((meanwhile, att, ctxErr, net, rnd, now) # ts) =
     (case meanwhile (c, x) of (c1, x1) \<Rightarrow>
      if \<not> retriesLeft c1 j then Ok (Ended, c1, x1)
      else (case DialUpSession U C P unjson dial uaOf c1 x1 remoteAddr sid dcfg att ctxErr net rnd now of
              (Ok _, c2, x2) \<Rightarrow> Ok (if j \<ge> ReconnectRetries (config c2) then Ended else Redialed, c2, x2)
            | (Err e, c2, x2) \<Rightarrow>
                if e = ErrClosed then Ok (Ended, c2, x2)
                else redialLoop U C P unjson dial uaOf remoteAddr sid dcfg (j + 1) c2 x2 ts
            | (Panic p, c2, x2) \<Rightarrow> Panic p))"

text \<open>\<open>handleTcpMsg(udpSess.tcpConn, ...)\<close>, where the pointer may be nil: \<open>conn.Conn\<close> dereferences it at once.\<close>

definition monitorTcp ::
  "'u udp_ops \<Rightarrow> proto \<Rightarrow> ('w, 'a) client_scheme \<Rightarrow> 'u UdpSession \<Rightarrow> string \<Rightarrow>
   go_error outcome \<times> ('w, 'a) client_scheme \<times> 'u UdpSession" where
  "monitorTcp U P c x sessKey =
     (case tcpConn x of
        Some conn \<Rightarrow> handleTcpMsg U P c x conn sessKey (replicate 1024 0)
      | None \<Rightarrow> (Panic NilDereference, c, x))"

text \<open>The loop, over the tries of its rounds. The flag says whether the goroutine has returned.\<close>

fun udpMonitor ::
  "'u udp_ops \<Rightarrow> crypto \<Rightarrow> proto \<Rightarrow> (bytes \<Rightarrow> PubAddrs outcome) \<Rightarrow> (PubAddr \<Rightarrow> 'u outcome) \<Rightarrow> (PubAddr \<Rightarrow> string) \<Rightarrow>
   string \<Rightarrow> bytes \<Rightarrow> DialConfig \<Rightarrow> ('w, 'a) client_scheme \<Rightarrow> 'u UdpSession \<Rightarrow>
   (('w, 'a) client_scheme, 'u) redial_try list list \<Rightarrow> (bool \<times> ('w, 'a) client_scheme \<times> 'u UdpSession) outcome" where
  "udpMonitor U C P unjson dial uaOf remoteAddr sid dcfg c x [] = Ok (False, c, x)"
| "udpMonitor U C P unjson dial uaOf remoteAddr sid dcfg c x (ts # rounds) =
     (case monitorTcp U P c x (sessionKey remoteAddr sid) of
        (Panic p, c1, x1) \<Rightarrow> Panic p
      | (Err e, c1, x1) \<Rightarrow> Err e
      | (Ok e, c1, x1) \<Rightarrow>
          if isClosed c1 then Ok (True, c1, x1)
          else (case udpConn x1 of
                  None \<Rightarrow> Panic NilDereference
                | Some u \<Rightarrow>
                    if ucIsClosed U u \<or> ReconnectRetries (config c1) = 0 then Ok (True, c1, x1)
                    else obind (redialLoop U C P unjson dial uaOf remoteAddr sid dcfg 0 c1 x1 ts) (\<lambda>(d, c2, x2).
                      case d of
                        Redialed \<Rightarrow> udpMonitor U C P unjson dial uaOf remoteAddr sid dcfg c2 x2 rounds
                      | Ended \<Rightarrow> Ok (True, c2, x2)
                      | StillDialing \<Rightarrow> Ok (False, c2, x2))))"

section \<open>What a dial leaves alone\<close>

lemma sendMetaData_keeps:
  assumes "sendMetaData U P c x sid = (y, x')"
  shows "\<exists>v. x' = x\<lparr>udpConn := v\<rparr>"
proof -
  have "x' = x \<or> (\<exists>v. x' = x\<lparr>udpConn := v\<rparr>)"
    using assms by (auto simp: sendMetaData_def split: outcome.splits prod.splits)
  then show ?thesis by (metis UdpSession.surjective UdpSession.update_convs(2))
qed

lemma addCodec_ok:
  assumes "addCodec U C c x ua r = (Ok y, c', x')" "udp_laws U"
  shows "(\<exists>u. x' = x\<lparr>udpConn := Some u\<rparr> \<and> \<not> ucIsClosed U u) \<and> isClosed c' = isClosed c \<and> \<not> isClosed c"
proof -
  obtain pk k c1 u where a: "getOrComputeSharedKey C c pk = (Ok k, c1)" "GetEstablishedUDPConn U c1 x = Ok u"
    "x' = x\<lparr>udpConn := Some (snd (ucAddCodec U u ua k))\<rparr>" "c' = c1"
    using assms(1) by (auto simp: addCodec_def split: outcome.splits prod.splits)
  moreover have "isClosed c1 = isClosed c" using getOrComputeSharedKey_frame [of C c pk] a(1) by auto
  moreover have "\<not> isClosed c1 \<and> \<not> ucIsClosed U u"
    using a(2) by (auto simp: GetEstablishedUDPConn_def split: if_splits option.splits)
  ultimately show ?thesis using udp_lawsD(4) [OF assms(2)] by auto
qed

lemma closeAfter_keeps:
  "closeAfter U P c x e = (y, c', x') \<Longrightarrow> config c' = config c \<and> same_buf x x' \<and> y \<noteq> Ok z"
  by (auto simp: closeAfter_def split: outcome.splits dest!: close_inv)

text \<open>
  A dial either fails before it touches the session, or sets the session up and goes on to the
  metadata.
\<close>

definition setUp :: "'u UdpSession \<Rightarrow> 'u \<Rightarrow> nat \<Rightarrow> udpSessionAddr \<Rightarrow> 'u UdpSession" where
  "setUp x u conn p = x\<lparr>udpConn := Some u, tcpConn := Some conn, peer := Some p\<rparr>"

definition announce ::
  "'u udp_ops \<Rightarrow> crypto \<Rightarrow> proto \<Rightarrow> ('w, 'a) client_scheme \<Rightarrow> 'u UdpSession \<Rightarrow> string \<Rightarrow> bytes \<Rightarrow> string \<Rightarrow>
   unit outcome \<times> ('w, 'a) client_scheme \<times> 'u UdpSession" where
  "announce U C P c x r sid ua =
     (case sendMetaData U P c x sid of
        (Panic p, x2) \<Rightarrow> (Panic p, c, x2)
      | (Err e, x2) \<Rightarrow> closeAfter U P c x2 e
      | (Ok z, x2) \<Rightarrow>
          (case addCodec U C c x2 ua r of
             (Panic p, c3, x3) \<Rightarrow> (Panic p, c3, x3)
           | (Err e, c3, x3) \<Rightarrow> closeAfter U P c3 x3 e
           | (Ok z, c3, x3) \<Rightarrow> (Ok (), c3, x3)))"

lemma dialUdpConn_usable: "dialUdpConn dial err as = Ok (Some (u, a), e) \<Longrightarrow> usableAddr a \<and> Some a \<in> set as"
  by (induction dial err as rule: dialUdpConn.induct) (auto split: if_splits outcome.splits)

lemma dialUp_cases:
  assumes "DialUpSession U C P unjson dial uaOf c x r sid dcfg att ce net rnd now = (y, c', x')"
  shows "(\<forall>z. y \<noteq> Ok z) \<and> x' = x \<and> config c' = config c \<or>
    (\<exists>c2 u conn a. config c2 = config c \<and> usableAddr a \<and>
       announce U C P c2 (setUp x u conn (newUdpSessionAddr sid r (uaOf a))) r sid (uaOf a) = (y, c', x'))"
proof -
  obtain g c1 where g: "getPubAddrsFromRemote unjson c r att ce = (g, c1)" by (cases "getPubAddrsFromRemote unjson c r att ce")
  have c1: "config c1 = config c" using getPubAddrs_keeps [OF g] by auto
  show ?thesis
  proof (cases "\<exists>pas u a e. g = Ok pas \<and> dialUdpConn dial None (Addrs pas) = Ok (Some (u, a), e) \<and> \<not> isClosed c")
    case False
    then show ?thesis using assms g c1 by (auto simp: DialUpSession_def split: outcome.splits option.splits prod.splits if_splits)
  next
    case True
    then obtain pas u a e where d: "g = Ok pas" "dialUdpConn dial None (Addrs pas) = Ok (Some (u, a), e)" "\<not> isClosed c" by blast
    obtain t c2 where t: "dialTcpConn C P c1 r sid SessionType_UDP (- 1) (Some a) dcfg net rnd now = (t, c2)"
      by (cases "dialTcpConn C P c1 r sid SessionType_UDP (- 1) (Some a) dcfg net rnd now")
    have c2: "config c2 = config c" using dialTcpConn_keeps [OF t] c1 by simp
    show ?thesis
    proof (cases t)
      case (Ok conn)
      then have "announce U C P c2 (setUp x u conn (newUdpSessionAddr sid r (uaOf a))) r sid (uaOf a) = (y, c', x')"
        using assms g d t by (simp add: DialUpSession_def announce_def setUp_def Let_def)
      then show ?thesis using c2 dialUdpConn_usable [OF d(2)] by blast
    qed (use assms g d t c2 in \<open>auto simp: DialUpSession_def\<close>)
  qed
qed

lemma announce_keeps:
  assumes "announce U C P c x r sid ua = (y, c', x')"
  shows "config c' = config c \<and> same_buf x x'"
proof -
  obtain m x2 where m: "sendMetaData U P c x sid = (m, x2)" by (cases "sendMetaData U P c x sid")
  have x2: "same_buf x x2" using sendMetaData_keeps [OF m] by (auto simp: same_buf_def)
  obtain k c3 x3 where k: "addCodec U C c x2 ua r = (k, c3, x3)" by (metis prod_cases3)
  note s = addCodec_same [OF k]
  show ?thesis
    using assms m k x2 s by (auto simp: announce_def same_buf_def split: outcome.splits dest!: closeAfter_keeps)
qed

lemma announce_ok:
  assumes "announce U C P c x r sid ua = (Ok y, c', x')" "udp_laws U"
  shows "(\<exists>u. x' = x\<lparr>udpConn := Some u\<rparr> \<and> \<not> ucIsClosed U u) \<and> \<not> isClosed c'"
proof -
  obtain m x2 where m: "sendMetaData U P c x sid = (m, x2)" by (cases "sendMetaData U P c x sid")
  obtain z k where k: "m = Ok z" "addCodec U C c x2 ua r = (Ok k, c', x')"
    using assms(1) m by (auto simp: announce_def split: outcome.splits prod.splits dest!: closeAfter_keeps)
  obtain v where "x2 = x\<lparr>udpConn := v\<rparr>" using sendMetaData_keeps [OF m] by blast
  then show ?thesis using addCodec_ok [OF k(2) assms(2)] by auto
qed

lemma dialUp_keeps:
  assumes "DialUpSession U C P unjson dial uaOf c x r sid dcfg att ce net rnd now = (y, c', x')"
  shows "config c' = config c \<and> same_buf x x'"
  using dialUp_cases [OF assms] announce_keeps by (fastforce simp: setUp_def same_buf_def)

lemma dialUp_ok:
  assumes "DialUpSession U C P unjson dial uaOf c x r sid dcfg att ce net rnd now = (Ok y, c', x')" "udp_laws U"
  shows "\<exists>conn a u. tcpConn x' = Some conn \<and> udpConn x' = Some u \<and> \<not> ucIsClosed U u \<and> usableAddr a \<and>
    peer x' = Some (newUdpSessionAddr sid r (uaOf a)) \<and> \<not> isClosed c'"
  using dialUp_cases [OF assms(1)] announce_ok [OF _ assms(2)] by (fastforce simp: setUp_def)

section \<open>Failed dials\<close>

text \<open>
  A sequence of dials that fail, none of them because the client or the session is closed,
  while nobody changes the configuration.
\<close>

inductive redials_fail ::
  "'u udp_ops \<Rightarrow> crypto \<Rightarrow> proto \<Rightarrow> (bytes \<Rightarrow> PubAddrs outcome) \<Rightarrow> (PubAddr \<Rightarrow> 'u outcome) \<Rightarrow> (PubAddr \<Rightarrow> string) \<Rightarrow>
   string \<Rightarrow> bytes \<Rightarrow> DialConfig \<Rightarrow> ('w, 'a) client_scheme \<times> 'u UdpSession \<Rightarrow>
   (('w, 'a) client_scheme, 'u) redial_try list \<Rightarrow> ('w, 'a) client_scheme \<times> 'u UdpSession \<Rightarrow> bool"
  for U C P unjson dial uaOf r sid dcfg where
  no_dial: "redials_fail U C P unjson dial uaOf r sid dcfg s [] s"
| failed_dial: "meanwhile (c, x) = (c1, x1) \<Longrightarrow> config c1 = config c \<Longrightarrow>
    DialUpSession U C P unjson dial uaOf c1 x1 r sid dcfg att ce net rnd now = (Err e, c2, x2) \<Longrightarrow> e \<noteq> ErrClosed \<Longrightarrow>
    redials_fail U C P unjson dial uaOf r sid dcfg (c2, x2) ts s \<Longrightarrow>
    redials_fail U C P unjson dial uaOf r sid dcfg (c, x) ((meanwhile, att, ce, net, rnd, now) # ts) s"

text \<open>The loop gets past them as long as it has retries left.\<close>

lemma redialLoop_failures:
  assumes "redials_fail U C P unjson dial uaOf r sid dcfg s fs s'" "0 \<le> j"
    and "ReconnectRetries (config (fst s)) < 0 \<or> j + int (length fs) \<le> ReconnectRetries (config (fst s))"
  shows "redialLoop U C P unjson dial uaOf r sid dcfg j (fst s) (snd s) (fs @ ts) =
      redialLoop U C P unjson dial uaOf r sid dcfg (j + int (length fs)) (fst s') (snd s') ts \<and>
    config (fst s') = config (fst s)"
  using assms
proof (induction arbitrary: j rule: redials_fail.induct)
  case (failed_dial meanwhile c x c1 x1 att ce net rnd now e c2 x2 fs s)
  have cfg: "config c2 = config c" using dialUp_keeps [OF failed_dial(3)] failed_dial(2) by simp
  have "retriesLeft c1 j" using failed_dial(2,8) by (auto simp: retriesLeft_def)
  moreover have "redialLoop U C P unjson dial uaOf r sid dcfg (j + 1) c2 x2 (fs @ ts) =
      redialLoop U C P unjson dial uaOf r sid dcfg (j + 1 + int (length fs)) (fst s) (snd s) ts \<and>
      config (fst s) = config c"
    using failed_dial(6) [of "j + 1"] failed_dial(7,8) cfg by (simp add: add.assoc)
  ultimately show ?case using failed_dial(1,3,4) by (simp add: add.assoc)
qed simp

section \<open>Properties\<close>

text \<open>
  C28: the connection of a UDP session is replaced when it ends. With a positive
  \<open>ReconnectRetries\<close>, when the first dial that succeeds comes after fewer failures than that, the
  session has a new open UDP connection, a TCP connection and its peer again, what it has
  received is still there, and the goroutine watches the new connection; after as many
  failures it returns without a further dial. (A negative setting is the subject of
  \<open>udp_unlimited_retries_end\<close>.)
\<close>

theorem udp_session_redials:
  assumes "udp_laws U" "monitorTcp U P c x (sessionKey r sid) = (Ok e, c1, x1)" "\<not> isClosed c1"
    and "udpConn x1 = Some u" "\<not> ucIsClosed U u" "ReconnectRetries (config c1) = R" "0 < R"
    and "redials_fail U C P unjson dial uaOf r sid dcfg (c1, x1) fs (c2, x2)"
    and "meanwhile (c2, x2) = (c3, x3)" "config c3 = config c2"
    and "DialUpSession U C P unjson dial uaOf c3 x3 r sid dcfg att ce net rnd now = (Ok y, c4, x4)"
  shows "(let run = udpMonitor U C P unjson dial uaOf r sid dcfg c x ((fs @ (meanwhile, att, ce, net, rnd, now) # ts) # rounds) in
      (int (length fs) < R \<longrightarrow> run = udpMonitor U C P unjson dial uaOf r sid dcfg c4 x4 rounds) \<and>
      (int (length fs) = R \<longrightarrow> run = Ok (True, c3, x3))) \<and>
    same_buf x3 x4 \<and> \<not> isClosed c4 \<and>
    (\<exists>conn a u'. tcpConn x4 = Some conn \<and> udpConn x4 = Some u' \<and> \<not> ucIsClosed U u' \<and> usableAddr a \<and>
       peer x4 = Some (newUdpSessionAddr sid r (uaOf a)))"
proof -
  note k = dialUp_keeps [OF assms(11)]
  have F: "redialLoop U C P unjson dial uaOf r sid dcfg 0 c1 x1 (fs @ (meanwhile, att, ce, net, rnd, now) # ts) =
        redialLoop U C P unjson dial uaOf r sid dcfg (int (length fs)) c2 x2 ((meanwhile, att, ce, net, rnd, now) # ts) \<and>
      config c2 = config c1" if "int (length fs) \<le> R"
    using redialLoop_failures [OF assms(8), of 0] that assms(6) by simp
  have L: "redialLoop U C P unjson dial uaOf r sid dcfg (int (length fs)) c2 x2 ((meanwhile, att, ce, net, rnd, now) # ts) =
      (if int (length fs) < R then Ok (Redialed, c4, x4) else Ok (Ended, c3, x3))"
    if "config c2 = config c1"
    using assms(6,7,9,10,11) that k by (auto simp: retriesLeft_def)
  have "udpMonitor U C P unjson dial uaOf r sid dcfg c x ((fs @ (meanwhile, att, ce, net, rnd, now) # ts) # rounds) =
      (if int (length fs) < R then udpMonitor U C P unjson dial uaOf r sid dcfg c4 x4 rounds
       else Ok (True, c3, x3))" if "int (length fs) \<le> R"
    using F [OF that] L assms(2-7) by simp
  then show ?thesis using k dialUp_ok [OF assms(11,1)] unfolding Let_def by auto
qed

text \<open>
  Alice's session with Bob, whose TCP connection is gone: the first query is not answered, the
  second one gives an address.
\<close>

definition redialClient :: "demo_world client" where
  "redialClient = (demoClient ''alice'')\<lparr>config := (DefaultConfig demoNames)\<lparr>ReconnectRetries := 2\<rparr>\<rparr>"

definition redialSess :: "demo_udp UdpSession" where
  "redialSess = (demoUs0 False)\<lparr>udpConn := Some demoOpen, tcpConn := Some 3\<rparr>"

definition bobReply :: "bytes \<Rightarrow> PubAddrs outcome" where
  "bobReply b = Ok \<lparr>Addrs = [Some demoAddr], SessionClosed = False\<rparr>"

definition redialConfig :: DialConfig where
  "redialConfig = \<lparr>DialTimeout = 5000, dialSession = DefaultSessionConfig\<rparr>"

lemma redial_fields:
  "addr redialClient = ''alice''" "\<not> isClosed redialClient" "pubAddrs redialClient = []" "conns redialClient = []"
  "privKey redialClient = demoPub ''alice''" "keyring_ok demoCrypto (redialClient\<lparr>pubAddrs := pa\<rparr>)"
  "ReconnectRetries (config redialClient) = 2"
  by (simp_all add: redialClient_def demoClient_def)

lemma demo_sharedKey:
  assumes "privKey c = demoPub a"
  shows "\<exists>k c'. getOrComputeSharedKey demoCrypto c (demoPub b) = (Ok k, c')"
proof -
  have "computeSharedKey demoCrypto (demoPub a) (demoPub b) = Ok (demoKey b a)"
    using demo_peerKey [of a b] by (simp add: peerKey_def demoCrypto_def)
  then show ?thesis using assms by (simp add: getOrComputeSharedKey_def Let_def split: option.split)
qed

lemma demo_announces:
  assumes "addr c = ''alice''" "\<not> isClosed c" "privKey c = demoPub ''alice''" "udpConn x = Some demoOpen"
  shows "\<exists>c' x'. announce demoUdp demoCrypto demoProto c x ''bob'' [1] ua = (Ok (), c', x')"
proof -
  obtain b where "obind (MarshalMeta demoProto \<lparr>Id = [1], SessionType = SessionType_UDP, DialerNknAddr = addr c\<rparr>)
      (newSessionData demoProto MsgType_SESSIONID) = Ok b"
    using assms(1) by (simp add: demoProto_def demoMarshal_def newSessionData_def putField_def bytes_of_string_def
        SessionType_UDP_def MsgType_SESSIONID_def)
  then obtain u where m: "sendMetaData demoUdp demoProto c x [1] = (Ok (), x\<lparr>udpConn := Some u\<rparr>)" "\<not> duClosed u"
    using assms(2,4) by (simp add: sendMetaData_def GetEstablishedUDPConn_def demoUdp_def demoOpen_def)
  obtain k c' where k: "getOrComputeSharedKey demoCrypto c (demoPub ''bob'') = (Ok k, c')"
    using demo_sharedKey [OF assms(3)] by blast
  then have "\<not> isClosed c'" using getOrComputeSharedKey_frame [of demoCrypto c "demoPub ''bob''"] assms(2) by auto
  then have "GetEstablishedUDPConn demoUdp c' (x\<lparr>udpConn := Some u\<rparr>) = Ok u"
    using m(2) by (simp add: GetEstablishedUDPConn_def demoUdp_def)
  moreover have "ClientAddrToPubKey demoCrypto ''bob'' = Ok (demoPub ''bob'')" "ucAddCodec demoUdp u ua k = (Ok (), u)"
    by (simp_all add: demoCrypto_def demoUdp_def)
  ultimately show ?thesis using m k by (simp add: announce_def addCodec_def)
qed

lemma demo_dialUp:
  assumes "\<exists>pa. c = redialClient\<lparr>pubAddrs := pa\<rparr>" "getCachedPubAddrs c ''bob'' = None"
  shows "\<exists>c' x'. DialUpSession demoUdp demoCrypto demoProto bobReply (\<lambda>_. Ok demoOpen) PubAddr_String c x ''bob'' [1] redialConfig
      [Replied []] ErrEOF (Ok (newConn ''1.2.3.4:80'' [] ErrEOF)) (Ok (replicate 24 7)) 0 = (Ok (), c', x')"
proof -
  let ?pa = "\<lparr>Addrs = [Some demoAddr], SessionClosed = False\<rparr>"
  obtain pa where c: "c = redialClient\<lparr>pubAddrs := pa\<rparr>" using assms(1) by blast
  have a: "usableAddr demoAddr" by (simp add: usableAddr_def demoAddr_def)
  obtain c1 where g: "getPubAddrsFromRemote bobReply c ''bob'' [Replied []] ErrEOF = (Ok ?pa, c1)"
      "\<exists>pa. c1 = redialClient\<lparr>pubAddrs := pa\<rparr>"
    using assms(2) a c by (simp add: getPubAddrsFromRemote_def awaitReply_def bobReply_def takeReply_def) blast
  have f: "addr c1 = ''alice''" "\<not> isClosed c1" "\<not> isClosed c" "privKey c1 = demoPub ''alice''" "keyring_ok demoCrypto c1"
    using g(2) c redial_fields by auto
  have raw: "MarshalMeta demoProto (dialMeta [1] SessionType_UDP) = Ok [2, 1, 1, 0]"
    by (simp add: demoProto_def demoMarshal_def putField_def bytes_of_string_def SessionType_UDP_def)
  have k: "peerKey demoCrypto (privKey c1) ''bob'' = Ok (demoKey ''bob'' ''alice'')" using f(4) by (simp add: demo_peerKey)
  have fresh: "freshConn (newConn ''1.2.3.4:80'' [] ErrEOF)" "length (replicate 24 7 :: bytes) = nonceSize"
    by (simp_all add: freshConn_def newConn_def nonceSize_def)
  obtain c2 where t: "dialTcpConn demoCrypto demoProto c1 ''bob'' [1] SessionType_UDP (- 1) (Some demoAddr) redialConfig
      (Ok (newConn ''1.2.3.4:80'' [] ErrEOF)) (Ok (replicate 24 7)) 0 = (Ok (nextConn c1), c2)"
    using dialTcpConn_sends [OF demoCrypto_laws f(5) k a fresh(1,2) raw] by blast
  have "\<exists>c' x'. announce demoUdp demoCrypto demoProto c2 (setUp x demoOpen (nextConn c1)
      (newUdpSessionAddr [1] ''bob'' (PubAddr_String demoAddr))) ''bob'' [1] (PubAddr_String demoAddr) = (Ok (), c', x')"
    using dialTcpConn_keeps [OF t] f by (intro demo_announces) (simp_all add: setUp_def)
  then show ?thesis
    using f(3) g(1) a t by (simp add: DialUpSession_def announce_def setUp_def Let_def)
qed

theorem udp_session_redials_witness:
  "\<exists>c' x'. (\<forall>rounds.
      udpMonitor demoUdp demoCrypto demoProto bobReply (\<lambda>_. Ok demoOpen) PubAddr_String ''bob'' [1] redialConfig redialClient redialSess
        ([(id, [Stopped], ErrContext 0, Err ErrEOF, Err ErrEOF, 0),
          (id, [Replied []], ErrEOF, Ok (newConn ''1.2.3.4:80'' [] ErrEOF), Ok (replicate 24 7), 0)] # rounds) =
      udpMonitor demoUdp demoCrypto demoProto bobReply (\<lambda>_. Ok demoOpen) PubAddr_String ''bob'' [1] redialConfig c' x' rounds) \<and>
    tcpConn x' \<noteq> None"
proof -
  let ?c = redialClient and ?x = redialSess
  have m: "monitorTcp demoUdp demoProto ?c ?x (sessionKey ''bob'' [1]) = (Ok ErrNetClosed, ?c, ?x)"
    using redial_fields(2,4)
    by (simp add: monitorTcp_def redialSess_def handleTcpMsg.simps rawRead_def GetEstablishedUDPConn_def demoUdp_def demoOpen_def)
  have cache: "getCachedPubAddrs ?c ''bob'' = None" using redial_fields(3) by (simp add: getCachedPubAddrs_def)
  have "DialUpSession demoUdp demoCrypto demoProto bobReply (\<lambda>_. Ok demoOpen) PubAddr_String ?c ?x ''bob'' [1] redialConfig
      [Stopped] (ErrContext 0) (Err ErrEOF) (Err ErrEOF) 0 = (Err (ErrContext 0), ?c, ?x)"
    using cache redial_fields(2) by (simp add: DialUpSession_def getPubAddrsFromRemote_def awaitReply_def)
  then have fl: "redials_fail demoUdp demoCrypto demoProto bobReply (\<lambda>_. Ok demoOpen) PubAddr_String ''bob'' [1] redialConfig (?c, ?x)
      [(id, [Stopped], ErrContext 0, Err ErrEOF, Err ErrEOF, 0)] (?c, ?x)"
    by (intro failed_dial [OF _ refl]) (auto intro: no_dial)
  have "\<exists>pa. ?c = ?c\<lparr>pubAddrs := pa\<rparr>" by (rule exI [of _ "pubAddrs ?c"]) simp
  then obtain c' x' where d: "DialUpSession demoUdp demoCrypto demoProto bobReply (\<lambda>_. Ok demoOpen) PubAddr_String ?c ?x ''bob'' [1]
      redialConfig [Replied []] ErrEOF (Ok (newConn ''1.2.3.4:80'' [] ErrEOF)) (Ok (replicate 24 7)) 0 = (Ok (), c', x')"
    using demo_dialUp cache by blast
  have u: "udpConn ?x = Some demoOpen" "\<not> ucIsClosed demoUdp demoOpen" "0 < (2 :: int)" "id (?c, ?x) = (?c, ?x)"
    by (simp_all add: redialSess_def demoUdp_def demoOpen_def)
  note T = udp_session_redials [where meanwhile = id and ts = "[]",
      OF demoUdp_laws m redial_fields(2) u(1,2) redial_fields(7) u(3) fl u(4) refl d]
  show ?thesis by (rule exI [of _ c'], rule exI [of _ x']) (use T in \<open>auto simp: Let_def\<close>)
qed

end
