(* ===== verification/Node.thy ===== *)
theory Node
  imports Tuna_Prelude
begin

text \<open>
  \<open>node.go\<close>: the order in which measured tuna nodes are tried. Nodes are sorted by weight,
  one is drawn with probability proportional to its weight, and moved to the front.
  Floating-point numbers are an arbitrary type with arbitrary operations, so what is proved
  holds whatever rounding, infinities and NaNs do; \<open>sort.Sort\<close> is a parameter of which only
  the documented contract is used, \<open>sort.Search\<close> is modelled exactly.
\<close>

section \<open>Nodes\<close>

record ('s, 'd) float_ops =
  f32_inc :: "'s \<Rightarrow> 's"
  f32_div :: "'s \<Rightarrow> 's \<Rightarrow> 's"
  f64_of :: "'s \<Rightarrow> 'd"
  f64_pow4 :: "'d \<Rightarrow> 'd"
  f64_add :: "'d \<Rightarrow> 'd \<Rightarrow> 'd"
  f64_mul :: "'d \<Rightarrow> 'd \<Rightarrow> 'd"
  f64_gt :: "'d \<Rightarrow> 'd \<Rightarrow> bool"

record 's Node =
  Bandwidth :: 's
  Delay :: 's
  nodeRest :: nat

definition nodeWeight :: "('s, 'd) float_ops \<Rightarrow> 's Node \<Rightarrow> 'd" where
  "nodeWeight F n = f64_pow4 F (f64_of F (f32_div F (f32_inc F (Bandwidth n)) (f32_inc F (Delay n))))"

definition sortByWeight_Less :: "('s, 'd) float_ops \<Rightarrow> 's Node list \<Rightarrow> nat \<Rightarrow> nat \<Rightarrow> bool" where
  "sortByWeight_Less F ns i j = f64_gt F (nodeWeight F (ns ! i)) (nodeWeight F (ns ! j))"

section \<open>\<open>sort.Search\<close>\<close>

function searchLoop :: "(nat \<Rightarrow> bool) \<Rightarrow> nat \<Rightarrow> nat \<Rightarrow> nat" where
  "searchLoop f i j =
     (if i < j
      then let h = (i + j) div 2 in if \<not> f h then searchLoop f (h + 1) j else searchLoop f i h
      else i)"
  by pat_completeness auto
termination
  by (relation "measure (\<lambda>(f, i, j). j - i)") auto

declare searchLoop.simps [simp del]

definition Search :: "nat \<Rightarrow> (nat \<Rightarrow> bool) \<Rightarrow> nat" where
  "Search n f = searchLoop f 0 n"

lemma searchLoop_range: "i \<le> j \<Longrightarrow> i \<le> searchLoop f i j \<and> searchLoop f i j \<le> j"
proof (induction f i j rule: searchLoop.induct)
  case (1 f i j)
  show ?case
  proof (cases "i < j")
    case True
    let ?h = "(i + j) div 2"
    have h: "i \<le> ?h" "?h < j" using True by auto
    have "searchLoop f i j = (if \<not> f ?h then searchLoop f (?h + 1) j else searchLoop f i ?h)"
      using True by (subst searchLoop.simps) (simp add: Let_def)
    moreover have "\<not> f ?h \<Longrightarrow> ?h + 1 \<le> searchLoop f (?h + 1) j \<and> searchLoop f (?h + 1) j \<le> j"
      using 1(1) [OF True refl] h by simp
    moreover have "f ?h \<Longrightarrow> i \<le> searchLoop f i ?h \<and> searchLoop f i ?h \<le> ?h"
      using 1(2) [OF True refl] h by simp
    ultimately show ?thesis using h by (auto split: if_splits)
  next
    case False
    then show ?thesis using 1(3) by (subst (1 2) searchLoop.simps) simp
  qed
qed

text \<open>The invariant of the bisection: false before \<open>i\<close>, true from \<open>j\<close> on.\<close>

lemma searchLoop_least:
  assumes "i \<le> j" "j \<le> n" "\<And>a b. a \<le> b \<Longrightarrow> b < n \<Longrightarrow> f a \<Longrightarrow> f b"
  shows "(\<forall>k. i \<le> k \<and> k < searchLoop f i j \<longrightarrow> \<not> f k) \<and>
    (\<forall>k. searchLoop f i j \<le> k \<and> k < j \<longrightarrow> f k)"
  using assms
proof (induction f i j rule: searchLoop.induct)
  case (1 f i j)
  note mono = 1(5)
  show ?case
  proof (cases "i < j")
    case True
    let ?h = "(i + j) div 2"
    have h: "i \<le> ?h" "?h < j" "?h < n" using True 1(4) by auto
    show ?thesis
    proof (cases "f ?h")
      case fh: True
      have s: "searchLoop f i j = searchLoop f i ?h" using True fh by (subst searchLoop.simps) (simp add: Let_def)
      have "(\<forall>k. i \<le> k \<and> k < searchLoop f i ?h \<longrightarrow> \<not> f k) \<and> (\<forall>k. searchLoop f i ?h \<le> k \<and> k < ?h \<longrightarrow> f k)"
        using 1(2) [OF True refl] fh h mono by simp
      moreover have "f k" if "?h \<le> k" "k < j" for k using mono [OF that(1)] that(2) 1(4) fh by simp
      ultimately show ?thesis unfolding s by (metis not_le_imp_less)
    next
      case fh: False
      have s: "searchLoop f i j = searchLoop f (?h + 1) j" using True fh by (subst searchLoop.simps) (simp add: Let_def)
      have "(\<forall>k. ?h + 1 \<le> k \<and> k < searchLoop f (?h + 1) j \<longrightarrow> \<not> f k) \<and>
          (\<forall>k. searchLoop f (?h + 1) j \<le> k \<and> k < j \<longrightarrow> f k)"
        using 1(1) [OF True refl] fh h mono 1(4) by simp
      moreover have "\<not> f k" if "k \<le> ?h" for k using mono [OF that h(3)] fh by blast
      ultimately show ?thesis unfolding s by (metis Suc_eq_plus1 not_less_eq_eq)
    qed
  next
    case False
    then show ?thesis using 1(3) by (subst (1 2) searchLoop.simps) auto
  qed
qed

section \<open>Choosing a node\<close>

text \<open>The running sums of the weights.\<close>

fun cumulate :: "('s, 'd) float_ops \<Rightarrow> 'd \<Rightarrow> 's Node list \<Rightarrow> 'd list" where
  "cumulate F acc [] = []"
| "cumulate F acc (n # ns) = (let s = f64_add F acc (nodeWeight F n) in s # cumulate F s ns)"

definition cdfOf :: "('s, 'd) float_ops \<Rightarrow> 's Node list \<Rightarrow> 'd list" where
  "cdfOf F nodes =
     (case nodes of [] \<Rightarrow> [] | n # ns \<Rightarrow> nodeWeight F n # cumulate F (nodeWeight F n) ns)"

text \<open>\<open>r\<close> is what \<open>rand.Float64\<close> returns.\<close>

definition weightedRandomChoice :: "('s, 'd) float_ops \<Rightarrow> 'd \<Rightarrow> 's Node list \<Rightarrow> int" where
  "weightedRandomChoice F r nodes =
     (if length nodes = 0 then - 1
      else let cdf = cdfOf F nodes; v = f64_mul F r (cdf ! (length cdf - 1))
           in int (Search (length cdf) (\<lambda>i. f64_gt F (cdf ! i) v) mod length cdf))"

text \<open>The loop of swaps that carries the chosen node to the front.\<close>

definition swap :: "nat \<Rightarrow> nat \<Rightarrow> 'a list \<Rightarrow> 'a list" where
  "swap i j xs = xs[i := xs ! j, j := xs ! i]"

fun moveToFront :: "nat \<Rightarrow> 'a list \<Rightarrow> 'a list" where
  "moveToFront 0 xs = xs"
| "moveToFront (Suc i) xs = moveToFront i (swap i (Suc i) xs)"

text \<open>
  \<open>sort.Sort\<close> is given the \<open>Less\<close> method. Its contract: it permutes the nodes, and when \<open>Less\<close>
  compares elements by a strict weak order, no node comes before a smaller one.
\<close>

type_synonym 's sorter = "('s Node list \<Rightarrow> nat \<Rightarrow> nat \<Rightarrow> bool) \<Rightarrow> 's Node list \<Rightarrow> 's Node list"

definition sortMeasuredNodes :: "('s, 'd) float_ops \<Rightarrow> 's sorter \<Rightarrow> 'd \<Rightarrow> 's Node list \<Rightarrow> 's Node list" where
  "sortMeasuredNodes F sortFn r nodes =
     (let nodes1 = sortFn (sortByWeight_Less F) nodes; choice = weightedRandomChoice F r nodes1
      in if choice > 0 then moveToFront (nat choice) nodes1 else nodes1)"

definition weak_order :: "('a \<Rightarrow> 'a \<Rightarrow> bool) \<Rightarrow> bool" where
  "weak_order lt \<longleftrightarrow> (\<forall>x y. lt x y \<longrightarrow> \<not> lt y x) \<and> (\<forall>x y z. lt x z \<longrightarrow> lt x y \<or> lt y z)"

definition sort_laws :: "'s sorter \<Rightarrow> bool" where
  "sort_laws sortFn \<longleftrightarrow>
     (\<forall>lessFn ns. mset (sortFn lessFn ns) = mset ns) \<and>
     (\<forall>lessFn lt ns. weak_order lt \<longrightarrow> (\<forall>xs i j. lessFn xs i j = lt (xs ! i) (xs ! j)) \<longrightarrow>
        sorted_wrt (\<lambda>a b. \<not> lt b a) (sortFn lessFn ns))"

lemma length_cdfOf [simp]: "length (cdfOf F nodes) = length nodes"
proof -
  have "length (cumulate F a ns) = length ns" for a ns by (induction ns arbitrary: a) (auto simp: Let_def)
  then show ?thesis by (simp add: cdfOf_def split: list.split)
qed

lemma choice_range: "nodes \<noteq> [] \<Longrightarrow> 0 \<le> weightedRandomChoice F r nodes \<and> weightedRandomChoice F r nodes < int (length nodes)"
  by (simp add: weightedRandomChoice_def Let_def)

lemma moveToFront_eq: "i < length xs \<Longrightarrow> moveToFront i xs = xs ! i # take i xs @ drop (Suc i) xs"
proof (induction i arbitrary: xs)
  case 0
  then show ?case by (simp add: Cons_nth_drop_Suc)
next
  case (Suc i)
  have "moveToFront (Suc i) xs = swap i (Suc i) xs ! i # take i (swap i (Suc i) xs) @ drop (Suc i) (swap i (Suc i) xs)"
    using Suc.IH [of "swap i (Suc i) xs"] Suc.prems by (simp add: swap_def)
  also have "swap i (Suc i) xs ! i = xs ! Suc i" using Suc.prems by (simp add: swap_def nth_list_update)
  also have "take i (swap i (Suc i) xs) = take i xs" by (simp add: swap_def)
  also have "drop (Suc i) (swap i (Suc i) xs) = xs ! i # drop (Suc (Suc i)) xs"
    using Suc.prems Cons_nth_drop_Suc [of "Suc i" xs] by (simp add: swap_def drop_update_swap) (metis list_update_code(2))
  finally show ?case using Suc.prems by (simp add: take_Suc_conv_app_nth)
qed

section \<open>Properties\<close>

lemma sorted_wrt_remove_nth:
  assumes "sorted_wrt Q xs" "k < length xs"
  shows "sorted_wrt Q (take k xs @ drop (Suc k) xs)"
proof -
  have "sorted_wrt Q (take k xs @ xs ! k # drop (Suc k) xs)" using assms by (simp add: id_take_nth_drop [symmetric])
  then show ?thesis by (simp add: sorted_wrt_append)
qed

text \<open>
  C37: \<open>sortMeasuredNodes\<close> only reorders, and does so as meant. Whatever the floating-point
  operations do, the result is the sorted list with one node, the drawn one, moved to the
  front and all others left in sorted order; no node is lost or duplicated and no index is
  out of range. When comparing weights is a strict weak order (no NaN among them), the nodes
  behind the drawn one are in order of decreasing weight.
\<close>

theorem measured_nodes_reordered:
  assumes "sort_laws sortFn"
  shows "mset (sortMeasuredNodes F sortFn r nodes) = mset nodes \<and>
    (nodes \<noteq> [] \<longrightarrow> (\<exists>s k. s = sortFn (sortByWeight_Less F) nodes \<and> k < length nodes \<and>
        int k = weightedRandomChoice F r s \<and> sortMeasuredNodes F sortFn r nodes = s ! k # take k s @ drop (Suc k) s)) \<and>
    (weak_order (f64_gt F) \<longrightarrow>
      sorted_wrt (\<lambda>a b. \<not> f64_gt F (nodeWeight F b) (nodeWeight F a)) (tl (sortMeasuredNodes F sortFn r nodes)))"
proof (cases "nodes = []")
  case True
  then have "mset (sortFn (sortByWeight_Less F) nodes) = {#}" using assms by (simp add: sort_laws_def)
  then have "sortFn (sortByWeight_Less F) nodes = []" by simp
  then show ?thesis using True by (simp add: sortMeasuredNodes_def weightedRandomChoice_def)
next
  case False
  let ?s = "sortFn (sortByWeight_Less F) nodes"
  have ms: "mset ?s = mset nodes" using assms by (simp add: sort_laws_def)
  then have len: "length ?s = length nodes" by (metis size_mset)
  then have "?s \<noteq> []" using False by auto
  from choice_range [OF this, of F r] obtain k where k: "weightedRandomChoice F r ?s = int k" "k < length ?s"
    by (metis nonneg_int_cases of_nat_less_iff)
  have eq: "sortMeasuredNodes F sortFn r nodes = ?s ! k # take k ?s @ drop (Suc k) ?s"
    using k(1) moveToFront_eq [OF k(2)] by (cases "k = 0") (simp_all add: sortMeasuredNodes_def Let_def)
  have "mset (take k ?s @ ?s ! k # drop (Suc k) ?s) = mset ?s" using k(2) by (simp add: id_take_nth_drop [symmetric])
  then have "mset (sortMeasuredNodes F sortFn r nodes) = mset nodes" using ms by (simp add: eq)
  moreover have "sorted_wrt (\<lambda>a b. \<not> f64_gt F (nodeWeight F b) (nodeWeight F a)) (take k ?s @ drop (Suc k) ?s)"
    if o: "weak_order (f64_gt F)"
  proof (rule sorted_wrt_remove_nth [OF _ k(2)])
    let ?lt = "\<lambda>a b. f64_gt F (nodeWeight F a) (nodeWeight F b)"
    have "weak_order ?lt" using o unfolding weak_order_def by blast
    then show "sorted_wrt (\<lambda>a b. \<not> ?lt b a) ?s"
      using assms by (auto simp: sort_laws_def sortByWeight_Less_def)
  qed
  ultimately show ?thesis using eq k len by auto
qed

text \<open>Insertion by \<open>Less\<close> has the contract.\<close>

fun demoIns :: "('s Node list \<Rightarrow> nat \<Rightarrow> nat \<Rightarrow> bool) \<Rightarrow> 's Node \<Rightarrow> 's Node list \<Rightarrow> 's Node list" where
  "demoIns lessFn x [] = [x]"
| "demoIns lessFn x (y # ys) = (if lessFn [y, x] 0 1 then y # demoIns lessFn x ys else x # y # ys)"

definition demoSort :: "'s sorter" where
  "demoSort lessFn ns = foldr (demoIns lessFn) ns []"

lemma demoIns_mset: "mset (demoIns lessFn x ys) = add_mset x (mset ys)"
  by (induction ys) auto

lemma demoIns_sorted:
  assumes "weak_order lt" "\<forall>xs i j. lessFn xs i j = lt (xs ! i) (xs ! j)" "sorted_wrt (\<lambda>a b. \<not> lt b a) ys"
  shows "sorted_wrt (\<lambda>a b. \<not> lt b a) (demoIns lessFn x ys)"
  using assms(3)
proof (induction ys)
  case (Cons y ys)
  have "set (demoIns lessFn x ys) = insert x (set ys)" using demoIns_mset [of lessFn x ys] by (metis set_mset_mset set_mset_add_mset_insert)
  moreover have "lessFn [y, x] 0 1 = lt y x" using assms(2) by simp
  moreover have "\<not> lt z y \<Longrightarrow> \<not> lt y x \<Longrightarrow> \<not> lt z x" "lt y x \<Longrightarrow> \<not> lt x y" for z
    using assms(1) unfolding weak_order_def by blast+
  ultimately show ?case using Cons by (cases "lt y x") auto
qed simp

lemma demoSort_laws: "sort_laws demoSort"
proof -
  have "mset (demoSort lessFn ns) = mset ns" for lessFn :: "'a Node list \<Rightarrow> nat \<Rightarrow> nat \<Rightarrow> bool" and ns
    by (induction ns) (auto simp: demoSort_def demoIns_mset)
  moreover have "sorted_wrt (\<lambda>a b. \<not> lt b a) (demoSort lessFn ns)"
    if "weak_order lt" "\<forall>xs i j. lessFn xs i j = lt (xs ! i) (xs ! j)"
    for lessFn :: "'a Node list \<Rightarrow> nat \<Rightarrow> nat \<Rightarrow> bool" and lt ns
    by (induction ns) (simp_all add: demoSort_def demoIns_sorted [OF that])
  ultimately show ?thesis unfolding sort_laws_def by blast
qed

text \<open>Integer arithmetic for evaluating examples; random draws are hundredths.\<close>

definition demoFloat :: "(int, int) float_ops" where
  "demoFloat = \<lparr>f32_inc = (\<lambda>x. x + 1), f32_div = (div), f64_of = id, f64_pow4 = (\<lambda>x. x * x * (x * x)),
     f64_add = (+), f64_mul = (\<lambda>r t. r * t div 100), f64_gt = (>)\<rparr>"

definition demoNodes :: "int Node list" where
  "demoNodes = [\<lparr>Bandwidth = 1, Delay = 0, nodeRest = 0\<rparr>, \<lparr>Bandwidth = 0, Delay = 0, nodeRest = 1\<rparr>]"

lemma demo_cdf: "cdfOf demoFloat demoNodes = [16, 17]"
  by (simp add: cdfOf_def demoNodes_def nodeWeight_def demoFloat_def)

lemma demo_ops [simp]:
  "f64_gt demoFloat x y \<longleftrightarrow> y < x" "f64_mul demoFloat x y = x * y div 100" "length demoNodes = 2" "demoNodes \<noteq> []"
  by (simp_all add: demoFloat_def demoNodes_def)

theorem measured_nodes_reordered_witness:
  "sortMeasuredNodes demoFloat demoSort 97 demoNodes = rev demoNodes \<and>
   mset (sortMeasuredNodes demoFloat demoSort 97 demoNodes) = mset demoNodes"
proof -
  have "sortMeasuredNodes demoFloat demoSort 97 demoNodes = rev demoNodes"
    by code_simp
  then show ?thesis using measured_nodes_reordered [OF demoSort_laws, of demoFloat 97 demoNodes] by simp
qed

text \<open>
  The draw. When comparing with the drawn value is monotone along the running sums (as
  for non-negative weights) and the total exceeds it, the chosen node is the first whose
  running sum exceeds the drawn value: the bisection finds exactly the reference answer.
\<close>

lemma draw_is_first_above:
  assumes "nodes \<noteq> []" "v = f64_mul F r (last (cdfOf F nodes))"
    and "\<And>a b. a \<le> b \<Longrightarrow> b < length nodes \<Longrightarrow> f64_gt F (cdfOf F nodes ! a) v \<Longrightarrow> f64_gt F (cdfOf F nodes ! b) v"
    and "f64_gt F (last (cdfOf F nodes)) v"
  shows "weightedRandomChoice F r nodes = int (length (takeWhile (\<lambda>x. \<not> f64_gt F x v) (cdfOf F nodes)))"
proof -
  let ?cdf = "cdfOf F nodes" and ?n = "length nodes"
  let ?f = "\<lambda>i. f64_gt F (?cdf ! i) v"
  have ne: "?cdf \<noteq> []" using assms(1) length_cdfOf [of F nodes] by (metis length_0_conv)
  let ?k = "Search ?n ?f"
  have le: "?k \<le> ?n" using searchLoop_range [of 0 ?n ?f] by (simp add: Search_def)
  have "(\<forall>k. 0 \<le> k \<and> k < searchLoop ?f 0 ?n \<longrightarrow> \<not> ?f k) \<and> (\<forall>k. searchLoop ?f 0 ?n \<le> k \<and> k < ?n \<longrightarrow> ?f k)"
    using assms(3) by (intro searchLoop_least [where f = ?f and n = ?n and i = 0 and j = ?n]) blast+
  then have least: "k < ?k \<Longrightarrow> \<not> ?f k" "?k \<le> k \<Longrightarrow> k < ?n \<Longrightarrow> ?f k" for k
    unfolding Search_def by blast+
  have "?f (?n - 1)" using assms(4) ne by (simp add: last_conv_nth)
  moreover have "?n - 1 < ?n" using assms(1) by simp
  ultimately have "?k < ?n" using least(1) [of "?n - 1"] le by linarith
  then have "takeWhile (\<lambda>x. \<not> f64_gt F x v) ?cdf = take ?k ?cdf"
    using least(1) least(2) [of ?k] by (intro takeWhile_eq_take_P_nth) auto
  then show ?thesis
    using \<open>?k < ?n\<close> assms(1,2) ne by (simp add: weightedRandomChoice_def Let_def last_conv_nth)
qed

lemma draw_is_first_above_witness:
  "weightedRandomChoice demoFloat 97 demoNodes = int (length (takeWhile (\<lambda>x. \<not> f64_gt demoFloat x 16) [16, 17]))"
proof -
  have "weightedRandomChoice demoFloat 97 demoNodes =
      int (length (takeWhile (\<lambda>x. \<not> f64_gt demoFloat x 16) (cdfOf demoFloat demoNodes)))"
  proof (rule draw_is_first_above)
    show "f64_gt demoFloat (cdfOf demoFloat demoNodes ! b) 16"
      if "a \<le> b" "b < length demoNodes" "f64_gt demoFloat (cdfOf demoFloat demoNodes ! a) 16" for a b
      using that by (auto simp: demo_cdf less_2_cases_iff)
  qed (simp_all add: demo_cdf)
  then show ?thesis by (simp add: demo_cdf)
qed

end
