(* ===== verification/Exits.thy ===== *)
theory Exits
  imports Udp_Session Session_Machine Node
begin

text \<open>
  The tuna exits of a listening client (\<open>client.go\<close> and \<open>ListenUDP\<close> of \<open>udp.go\<close>): opening the
  local listeners, creating an exit per listener, announcing their public addresses,
  rotating them, and the whole of \<open>Close\<close>. The exits themselves (\<open>tuna.TunaExit\<close>), the
  operating system and the nkn client are parameters.
\<close>

section \<open>Host and port\<close>

text \<open>\<open>net.SplitHostPort\<close>; its address errors are one error here.\<close>

definition ErrAddr :: go_error where "ErrAddr = ErrExt 100"

definition lastColon :: "string \<Rightarrow> nat option" where
  "lastColon s =
     (let t = takeWhile (\<lambda>c. c \<noteq> CHR '':'') (rev s)
      in if length t = length s then None else Some (length s - length t - 1))"

definition SplitHostPort :: "string \<Rightarrow> (string \<times> string) outcome" where
  "SplitHostPort s =
     (case lastColon s of
        None \<Rightarrow> Err ErrAddr
      | Some i \<Rightarrow>
          if s ! 0 = CHR ''[''
          then (let e = length (takeWhile (\<lambda>c. c \<noteq> CHR '']'') s) in
                if e = length s \<or> e + 1 \<noteq> i then Err ErrAddr
                else if CHR ''['' \<in> set (drop 1 s) \<or> CHR '']'' \<in> set (drop (e + 1) s) then Err ErrAddr
                else Ok (drop 1 (take e s), drop (i + 1) s))
          else (let host = take i s in
                if CHR '':'' \<in> set host then Err ErrAddr
                else if CHR ''['' \<in> set s \<or> CHR '']'' \<in> set s then Err ErrAddr
                else Ok (host, drop (i + 1) s)))"

section \<open>State\<close>

record Service =
  svName :: string
  svTCP :: "32 word list"
  svUDP :: "32 word list"

record ExitConfiguration =
  Reverse :: bool
  ReverseRandomPorts :: bool
  ReverseMaxPrice :: string
  ReverseNanoPayFee :: string
  MinReverseNanoPayFee :: string
  ReverseNanoPayFeeRatio :: decimal
  ReverseServiceName :: string
  ReverseSubscriptionPrefix :: string
  ReverseIPFilter :: opaque
  ReverseNknFilter :: opaque
  DownloadGeoDB :: bool
  GeoDBPath :: string
  MeasureBandwidth :: bool
  MeasureStoragePath :: string
  MeasurementBytesDownLink :: int
  exitDialTimeout :: "32 word"
  ReverseMinBalance :: string

text \<open>
  The operations of an exit. \<open>exitIP\<close> is \<open>GetReverseIP().String()\<close>, \<open>exitPorts\<close> are the
  reverse TCP ports (none before the exit is connected). \<open>NewTunaExit\<close> also gets the node
  ordering of \<open>node.go\<close>, which is fixed.
\<close>

record 'e exit_ops =
  NewTunaExit :: "Service \<Rightarrow> ExitConfiguration \<Rightarrow> 'e outcome"
  SetRemoteNode :: "'e \<Rightarrow> nat \<Rightarrow> 'e"
  StartReverse :: "'e \<Rightarrow> 'e"
  SetLinger :: "'e \<Rightarrow> int \<Rightarrow> 'e"
  exitClose :: "'e \<Rightarrow> 'e"
  exitIsClosed :: "'e \<Rightarrow> bool"
  exitIP :: "'e \<Rightarrow> string"
  exitPorts :: "'e \<Rightarrow> 32 word list"
  exitPrice :: "'e \<Rightarrow> string \<times> string"

text \<open>
  The remaining fields of the client: the local listeners by their ports (they are all on
  127.0.0.1), whether there is a wallet, the exits (\<open>None\<close>: nil), the fixed node, the UDP
  session of a UDP listener; and the sockets of the machine.
\<close>

record ('w, 'e, 'u) tclient = "'w client" +
  listeners :: "int list"
  wallet :: bool
  tunaExits :: "'e list option"
  tunaNode :: "nat option"
  listenerUdpSess :: "'u UdpSession option"
  sockets :: os
  multiClosed :: bool

definition listenerAddr :: "int \<Rightarrow> string" where
  "listenerAddr p = ''127.0.0.1:'' @ itoa p"

section \<open>Creating exits\<close>

text \<open>Go's integer division truncates towards 0, the conversion to \<open>int32\<close> wraps.\<close>

definition goDiv :: "int \<Rightarrow> int \<Rightarrow> int" where
  "goDiv a b = sgn a * sgn b * (\<bar>a\<bar> div \<bar>b\<bar>)"

definition exitConfig :: "Config \<Rightarrow> ExitConfiguration outcome" where
  "exitConfig cfg =
     (case (TunaIPFilter cfg, TunaNknFilter cfg) of
        (Some ipf, Some nknf) \<Rightarrow> Ok
          \<lparr>Reverse = True, ReverseRandomPorts = True, ReverseMaxPrice = TunaMaxPrice cfg,
           ReverseNanoPayFee = TunaNanoPayFee cfg, MinReverseNanoPayFee = TunaMinNanoPayFee cfg,
           ReverseNanoPayFeeRatio = TunaNanoPayFeeRatio cfg, ReverseServiceName = TunaServiceName cfg,
           ReverseSubscriptionPrefix = TunaSubscriptionPrefix cfg, ReverseIPFilter = ipf, ReverseNknFilter = nknf,
           DownloadGeoDB = TunaDownloadGeoDB cfg, GeoDBPath = TunaGeoDBPath cfg,
           MeasureBandwidth = TunaMeasureBandwidth cfg, MeasureStoragePath = TunaMeasureStoragePath cfg,
           MeasurementBytesDownLink = TunaMeasurementBytesDownLink cfg,
           exitDialTimeout = word_of_int (goDiv (TunaDialTimeout cfg) 1000), ReverseMinBalance = TunaMinBalance cfg\<rparr>
      | _ \<Rightarrow> Panic NilDereference)"

definition newTunaExit :: "'e exit_ops \<Rightarrow> ('w, 'e, 'u) tclient \<Rightarrow> int \<Rightarrow> 'e outcome" where
  "newTunaExit X c i =
     (if int (length (listeners c)) \<le> i then Err ErrIndexOutOfRange
      else if i < 0 then Panic (IndexOutOfRange i)
      else obind (SplitHostPort (listenerAddr (listeners c ! nat i))) (\<lambda>(_, portStr).
           obind (atoi portStr) (\<lambda>port.
           obind (exitConfig (config c)) (\<lambda>tunaConfig.
             NewTunaExit X \<lparr>svName = ''session'', svTCP = [word_of_int port], svUDP = [word_of_int port]\<rparr> tunaConfig))))"

text \<open>
  The loops of \<open>startExits\<close>. A failure returns at once: listeners opened so far stay open, and
  exits created so far stay started.
\<close>

fun openListeners :: "os_ops \<Rightarrow> nat \<Rightarrow> os \<Rightarrow> int list \<Rightarrow> int list outcome \<times> os" where
  "openListeners N 0 s ls = (Ok ls, s)"
| "openListeners N (Suc n) s ls =
     (case GetFreePort N 0 s of
        (Err e, s1) \<Rightarrow> (Err e, s1)
      | (Panic p, s1) \<Rightarrow> (Panic p, s1)
      | (Ok port, s1) \<Rightarrow>
          (case bindTCP N s1 port of
             Err e \<Rightarrow> (Err e, s1)
           | Panic p \<Rightarrow> (Panic p, s1)
           | Ok q \<Rightarrow> openListeners N n (openTCP s1 q) (ls @ [q])))"

fun createExits :: "'e exit_ops \<Rightarrow> ('w, 'e, 'u) tclient \<Rightarrow> nat \<Rightarrow> nat \<Rightarrow> 'e list outcome" where
  "createExits X c i 0 = Ok []"
| "createExits X c i (Suc n) =
     obind (newTunaExit X c (int i)) (\<lambda>e.
       let e1 = (case tunaNode c of Some node \<Rightarrow> SetRemoteNode X e node | None \<Rightarrow> e)
       in obind (createExits X c (i + 1) n) (\<lambda>es. Ok (StartReverse X e1 # es)))"

definition startExits ::
  "'e exit_ops \<Rightarrow> os_ops \<Rightarrow> ('w, 'e, 'u) tclient \<Rightarrow> unit outcome \<times> ('w, 'e, 'u) tclient" where
  "startExits X N c =
     (if tunaExits c \<noteq> None \<and> tunaExits c \<noteq> Some [] then (Ok (), c)
      else if NumTunaListeners (config c) < 0 then (Panic (MakeSliceLen (NumTunaListeners (config c))), c)
      else (case openListeners N (nat (NumTunaListeners (config c))) (sockets c) [] of
              (Err e, s) \<Rightarrow> (Err e, c\<lparr>sockets := s\<rparr>)
            | (Panic p, s) \<Rightarrow> (Panic p, c\<lparr>sockets := s\<rparr>)
            | (Ok ls, s) \<Rightarrow>
                (let c1 = c\<lparr>sockets := s, listeners := ls\<rparr>
                 in case createExits X c1 0 (length ls) of
                      Err e \<Rightarrow> (Err e, c1)
                    | Panic p \<Rightarrow> (Panic p, c1)
                    | Ok es \<Rightarrow> (Ok (), c1\<lparr>tunaExits := Some es\<rparr>))))"

definition Listen ::
  "'e exit_ops \<Rightarrow> os_ops \<Rightarrow> (string \<Rightarrow> go_error option) \<Rightarrow> string \<Rightarrow> string list option \<Rightarrow> ('w, 'e, 'u) tclient \<Rightarrow>
   unit outcome \<times> ('w, 'e, 'u) tclient" where
  "Listen X N compile dflt addrsRe c =
     (case getAcceptAddrs compile dflt addrsRe of
        Err e \<Rightarrow> (Err e, c)
      | Panic p \<Rightarrow> (Panic p, c)
      | Ok as \<Rightarrow>
          (let c1 = c\<lparr>acceptAddrs := as\<rparr> in
           if listeners c1 \<noteq> [] then (Ok (), c1)
           else if \<not> wallet c1 then (Err ErrWalletEmpty, c1)
           else startExits X N c1))"

text \<open>
  An exit connects: the goroutine that waits for it closes \<open>onConnect\<close>, once for all exits
  (\<open>connectedOnce\<close>).
\<close>

definition exitConnected :: "('w, 'e, 'u) tclient \<Rightarrow> ('w, 'e, 'u) tclient" where
  "exitConnected c = (if onConnectClosed c then c else c\<lparr>onConnectClosed := True\<rparr>)"

definition SetTunaNode :: "('w, 'e, 'u) tclient \<Rightarrow> nat option \<Rightarrow> ('w, 'e, 'u) tclient" where
  "SetTunaNode c node = c\<lparr>tunaNode := node\<rparr>"

section \<open>Announcing and rotating\<close>

definition exitAddr :: "'e exit_ops \<Rightarrow> bool \<Rightarrow> 'e \<Rightarrow> PubAddr" where
  "exitAddr X includePrice e =
     (let ip = exitIP X e; ports = exitPorts X e in
      if 0 < length ip \<and> 0 < length ports
      then \<lparr>IP = ip, Port = ports ! 0, InPrice = (if includePrice then fst (exitPrice X e) else []),
            OutPrice = (if includePrice then snd (exitPrice X e) else [])\<rparr>
      else \<lparr>IP = [], Port = 0, InPrice = [], OutPrice = []\<rparr>)"

definition getPubAddrs :: "'e exit_ops \<Rightarrow> ('w, 'e, 'u) tclient \<Rightarrow> bool \<Rightarrow> PubAddrs option" where
  "getPubAddrs X c includePrice =
     map_option (\<lambda>es. \<lparr>Addrs = map (\<lambda>e. Some (exitAddr X includePrice e)) es, SessionClosed = False\<rparr>) (tunaExits c)"

definition GetPubAddrs :: "'e exit_ops \<Rightarrow> ('w, 'e, 'u) tclient \<Rightarrow> PubAddrs option" where
  "GetPubAddrs X c = getPubAddrs X c True"

text \<open>
  \<open>RotateOne\<close>: the new exit is created under the read lock, the call waits for it to connect
  (\<open>settle\<close> is the exit when it has; it may never return), then the entry is replaced. The
  second component is the old exit, closed with linger.
\<close>

definition RotateOne_swap ::
  "'e exit_ops \<Rightarrow> ('w, 'e, 'u) tclient \<Rightarrow> int \<Rightarrow> 'e \<Rightarrow> ('e \<times> ('w, 'e, 'u) tclient) outcome" where
  "RotateOne_swap X c i te =
     (case tunaExits c of
        None \<Rightarrow> Panic (IndexOutOfRange i)
      | Some es \<Rightarrow>
          if i < 0 \<or> int (length es) \<le> i then Panic (IndexOutOfRange i)
          else Ok (exitClose X (SetLinger X (es ! nat i) (- 1)), c\<lparr>tunaExits := Some (es[nat i := te])\<rparr>))"

definition RotateOne ::
  "'e exit_ops \<Rightarrow> ('e \<Rightarrow> 'e) \<Rightarrow> ('w, 'e, 'u) tclient \<Rightarrow> int \<Rightarrow> unit outcome \<times> ('w, 'e, 'u) tclient" where
  "RotateOne X settle c i =
     (case newTunaExit X c i of
        Err e \<Rightarrow> (Err e, c)
      | Panic p \<Rightarrow> (Panic p, c)
      | Ok te \<Rightarrow>
          (case RotateOne_swap X c i (settle (StartReverse X te)) of
             Ok (_, c1) \<Rightarrow> (Ok (), c1)
           | Err e \<Rightarrow> (Err e, c)
           | Panic p \<Rightarrow> (Panic p, c)))"

fun rotateLoop ::
  "'e exit_ops \<Rightarrow> ('e \<Rightarrow> 'e) \<Rightarrow> ('w, 'e, 'u) tclient \<Rightarrow> int \<Rightarrow> nat \<Rightarrow> unit outcome \<times> ('w, 'e, 'u) tclient" where
  "rotateLoop X settle c i 0 = (Ok (), c)"
| "rotateLoop X settle c i (Suc n) =
     (case RotateOne X settle c i of
        (Ok u, c1) \<Rightarrow> rotateLoop X settle c1 (i + 1) n
      | (Err e, c1) \<Rightarrow> (Err e, c1)
      | (Panic p, c1) \<Rightarrow> (Panic p, c1))"

definition RotateAll :: "'e exit_ops \<Rightarrow> ('e \<Rightarrow> 'e) \<Rightarrow> ('w, 'e, 'u) tclient \<Rightarrow> unit outcome \<times> ('w, 'e, 'u) tclient" where
  "RotateAll X settle c = rotateLoop X settle c 0 (length (listeners c))"

section \<open>A UDP listener\<close>

text \<open>
  \<open>ListenUDP\<close> of \<open>udp.go\<close>. The session is stored in the client before anything that can fail;
  \<open>startExits\<close> does nothing when the exits are running. The socket is handed to the encrypted
  connection \<open>newEnc host port\<close> (\<open>tuna.NewEncryptUDPConn\<close>), which closes it.
\<close>

definition listenerUDPAddr :: "('w, 'e, 'u) tclient \<Rightarrow> (string \<times> int) outcome" where
  "listenerUDPAddr c =
     (if listeners c = [] then Panic (IndexOutOfRange 0)
      else obind (SplitHostPort (listenerAddr (listeners c ! 0))) (\<lambda>(host, portStr).
           obind (atoi portStr) (\<lambda>port. Ok (host, port))))"

definition openUdpSess ::
  "os_ops \<Rightarrow> (string \<Rightarrow> int \<Rightarrow> 'u) \<Rightarrow> ('w, 'e, 'u) tclient \<Rightarrow> 'u UdpSession \<Rightarrow>
   'u UdpSession outcome \<times> ('w, 'e, 'u) tclient" where
  "openUdpSess N newEnc c us =
     (case listenerUDPAddr c of
        Err e \<Rightarrow> (Err e, c)
      | Panic p \<Rightarrow> (Panic p, c)
      | Ok (host, port) \<Rightarrow>
          (case bindUDP N (sockets c) port of
             Err e \<Rightarrow> (Err e, c)
           | Panic p \<Rightarrow> (Panic p, c)
           | Ok _ \<Rightarrow> (let us1 = us\<lparr>udpConn := Some (newEnc host port)\<rparr>
                      in (Ok us1, c\<lparr>listenerUdpSess := Some us1\<rparr>))))"

definition ListenUDP ::
  "'e exit_ops \<Rightarrow> os_ops \<Rightarrow> (string \<Rightarrow> int \<Rightarrow> 'u) \<Rightarrow> ('w, 'e, 'u) tclient \<Rightarrow>
   'u UdpSession outcome \<times> ('w, 'e, 'u) tclient" where
  "ListenUDP X N newEnc c =
     (if listeners c = [] then (Err ErrListenFirst, c)
      else case listenerUdpSess c of
             Some us \<Rightarrow> (Ok us, c)
           | None \<Rightarrow>
               (case newUdpSession c True of
                  Err e \<Rightarrow> (Err e, c)
                | Panic p \<Rightarrow> (Panic p, c)
                | Ok us \<Rightarrow>
                    (case startExits X N (c\<lparr>listenerUdpSess := Some us\<rparr>) of
                       (Err e, c1) \<Rightarrow> (Err e, c1)
                     | (Panic p, c1) \<Rightarrow> (Panic p, c1)
                     | (Ok _, c1) \<Rightarrow> openUdpSess N newEnc c1 us)))"

section \<open>Closing the client\<close>

text \<open>
  \<open>Close\<close> of \<open>client.go\<close>: the nkn client, the listeners, the sessions and their connections, the
  exits, the UDP session of a listener (while the client still counts as open), and the
  closed mark. Errors on the way are logged only.
\<close>

definition closeUdpSess ::
  "'u udp_ops \<Rightarrow> proto \<Rightarrow> ('w, 'e, 'u) tclient \<Rightarrow> ('w, 'e, 'u) tclient outcome" where
  "closeUdpSess U P c =
     (case listenerUdpSess c of
        None \<Rightarrow> Ok c
      | Some us \<Rightarrow> obind (Close U P c us) (\<lambda>(_, c1, us1). Ok (c1\<lparr>listenerUdpSess := Some us1\<rparr>)))"

definition Close_client ::
  "'w ext \<Rightarrow> 'e exit_ops \<Rightarrow> 'u udp_ops \<Rightarrow> proto \<Rightarrow> ('w, 'e, 'u) tclient \<Rightarrow> ('w, 'e, 'u) tclient outcome" where
  "Close_client E X U P c =
     (if isClosed c then Ok c
      else let c1 = c\<lparr>multiClosed := True\<rparr>;
               c2 = c1\<lparr>sockets := foldl closeTCP (sockets c1) (listeners c1)\<rparr>;
               c3 = closeAll E c2;
               c4 = c3\<lparr>tunaExits := map_option (map (exitClose X)) (tunaExits c3)\<rparr>
           in obind (closeUdpSess U P c4) markClosed)"

end
