(* ===== verification/Exit_Machine.thy ===== *)
theory Exit_Machine
  imports Exits Udp_Machine
begin

text \<open>
  What the exits of a listening client guarantee: how \<open>Listen\<close> sets listeners and exits up,
  that the two stay in step while exits are rotated, replaced and closed concurrently, and
  that \<open>Close\<close> ends everything the client owns.
\<close>

section \<open>A listener's address and its service\<close>

lemma decimal_digit:
  assumes "k < 10"
  shows "hexDigits ! k \<in> set (take 10 hexDigits)"
proof -
  have "take 10 hexDigits ! k \<in> set (take 10 hexDigits)"
    using assms by (intro nth_mem) (simp add: hexDigits_def)
  then show ?thesis using assms by simp
qed

lemma natDigits_digits: "set (natDigits n) \<subseteq> set (take 10 hexDigits)"
proof (induction n rule: natDigits.induct)
  case (1 n)
  show ?case
  proof (cases "n < 10")
    case True
    then show ?thesis using decimal_digit by (subst natDigits.simps) simp
  next
    case False
    then show ?thesis using 1 decimal_digit [of "n mod 10"] by (subst natDigits.simps) simp
  qed
qed

lemma itoa_chars: "CHR '':'' \<notin> set (itoa i)" "CHR ''['' \<notin> set (itoa i)" "CHR '']'' \<notin> set (itoa i)"
  using natDigits_digits [of "nat i"] natDigits_digits [of "nat (- i)"]
  by (auto simp: itoa_def hexDigits_def)

lemma lastColon_app:
  assumes "CHR '':'' \<notin> set port"
  shows "lastColon (host @ CHR '':'' # port) = Some (length host)"
proof -
  have "takeWhile (\<lambda>c. c \<noteq> CHR '':'') (rev port @ CHR '':'' # rev host) = rev port"
    using assms by (subst takeWhile_append2) auto
  then show ?thesis by (simp add: lastColon_def)
qed

lemma SplitHostPort_listenerAddr: "SplitHostPort (listenerAddr p) = Ok (''127.0.0.1'', itoa p)"
proof -
  have "listenerAddr p = ''127.0.0.1'' @ CHR '':'' # itoa p" by (simp add: listenerAddr_def)
  then show ?thesis
    using lastColon_app [OF itoa_chars(1), of "''127.0.0.1''" p] by (simp add: SplitHostPort_def itoa_chars)
qed

definition portService :: "int \<Rightarrow> Service" where
  "portService p = \<lparr>svName = ''session'', svTCP = [word_of_int p], svUDP = [word_of_int p]\<rparr>"

definition valid_port :: "int \<Rightarrow> bool" where
  "valid_port p \<longleftrightarrow> 0 < p \<and> p \<le> 65535"

text \<open>An exit for listener \<open>i\<close> is created for exactly the port that listener has.\<close>

lemma newTunaExit_eq:
  assumes "i < length (listeners c)" "valid_port (listeners c ! i)"
  shows "newTunaExit X c (int i) = obind (exitConfig (config c)) (NewTunaExit X (portService (listeners c ! i)))"
proof -
  have "atoi (itoa (listeners c ! i)) = Ok (listeners c ! i)"
    using assms(2) by (intro atoi_itoa) (auto simp: valid_port_def)
  then show ?thesis
    using assms(1) by (simp add: newTunaExit_def SplitHostPort_listenerAddr portService_def)
qed

lemma newTunaExit_range: "newTunaExit X c (int i) = Ok te \<Longrightarrow> i < length (listeners c)"
  by (auto simp: newTunaExit_def split: if_splits)

lemma exitConfig_ok: "config_ok cfg \<Longrightarrow> \<exists>t. exitConfig cfg = Ok t"
  by (auto simp: config_ok_def exitConfig_def)

section \<open>Opening listeners, creating exits\<close>

lemma openListeners_ok:
  assumes "os_laws N" "openListeners N n s ls = (Ok ls', s')"
  shows "\<exists>qs. ls' = ls @ qs \<and> length qs = n \<and> distinct qs \<and> (\<forall>q\<in>set qs. valid_port q \<and> q \<notin> set (tcpBound s)) \<and>
    s' = s\<lparr>tcpBound := rev qs @ tcpBound s\<rparr>"
  using assms(2)
proof (induction n arbitrary: s ls)
  case 0
  then show ?case by simp
next
  case (Suc n)
  have snd: "snd (GetFreePort N 0 s) = s" by (simp add: GetFreePort_def getFreePortLoop_sockets)
  then obtain port q where q: "bindTCP N s port = Ok q" "openListeners N n (openTCP s q) (ls @ [q]) = (Ok ls', s')"
    using Suc.prems by (cases "GetFreePort N 0 s") (auto split: outcome.splits)
  then have ql: "valid_port q" "q \<notin> set (tcpBound s)"
    using assms(1) unfolding os_laws_def valid_port_def by blast+
  from Suc.IH [OF q(2)] obtain qs where "ls' = ls @ q # qs" "length qs = n" "distinct qs"
    "\<forall>r\<in>set qs. valid_port r \<and> r \<notin> set (tcpBound (openTCP s q))"
    "s' = (openTCP s q)\<lparr>tcpBound := rev qs @ tcpBound (openTCP s q)\<rparr>" by auto
  with ql show ?case by (intro exI [of _ "q # qs"]) (auto simp: openTCP_def)
qed

definition fixNode :: "'e exit_ops \<Rightarrow> nat option \<Rightarrow> 'e \<Rightarrow> 'e" where
  "fixNode X n e = (case n of Some node \<Rightarrow> SetRemoteNode X e node | None \<Rightarrow> e)"

lemma createExits_ok:
  assumes "createExits X c i n = Ok es"
  shows "length es = n \<and> (\<forall>j<n. \<exists>te. newTunaExit X c (int (i + j)) = Ok te \<and>
    es ! j = StartReverse X (fixNode X (tunaNode c) te))"
  using assms
proof (induction n arbitrary: i es)
  case 0
  then show ?case by simp
next
  case (Suc n)
  then obtain te rest where te: "newTunaExit X c (int i) = Ok te" "createExits X c (i + 1) n = Ok rest"
    "es = StartReverse X (fixNode X (tunaNode c) te) # rest"
    by (auto simp: fixNode_def Let_def)
  show ?case
  proof (intro conjI allI impI)
    show "length es = Suc n" using te Suc.IH [OF te(2)] by simp
    fix j assume "j < Suc n"
    then show "\<exists>te. newTunaExit X c (int (i + j)) = Ok te \<and> es ! j = StartReverse X (fixNode X (tunaNode c) te)"
      using te Suc.IH [OF te(2)] by (cases j) auto
  qed
qed

lemma startExits_ok:
  assumes "os_laws N" "tunaExits c = None" "startExits X N c = (Ok (), c')"
  obtains ls es where "c' = c\<lparr>sockets := (sockets c)\<lparr>tcpBound := rev ls @ tcpBound (sockets c)\<rparr>, listeners := ls,
      tunaExits := Some es\<rparr>" "int (length ls) = NumTunaListeners (config c)" "length es = length ls"
    "distinct ls" "\<forall>p\<in>set ls. valid_port p \<and> p \<notin> set (tcpBound (sockets c))"
    "\<forall>i<length ls. \<exists>te t. exitConfig (config c) = Ok t \<and> NewTunaExit X (portService (ls ! i)) t = Ok te \<and>
      es ! i = StartReverse X (fixNode X (tunaNode c) te)"
proof -
  let ?n = "NumTunaListeners (config c)"
  obtain ls s es where o: "0 \<le> ?n" "openListeners N (nat ?n) (sockets c) [] = (Ok ls, s)"
    "createExits X (c\<lparr>sockets := s, listeners := ls\<rparr>) 0 (length ls) = Ok es"
    "c' = c\<lparr>sockets := s, listeners := ls, tunaExits := Some es\<rparr>"
    using assms(2,3) by (auto simp: startExits_def Let_def split: if_splits prod.splits outcome.splits)
  note l = openListeners_ok [OF assms(1) o(2)]
  have "\<exists>te t. exitConfig (config c) = Ok t \<and> NewTunaExit X (portService (ls ! i)) t = Ok te \<and>
      es ! i = StartReverse X (fixNode X (tunaNode c) te)" if "i < length ls" for i
    using createExits_ok [OF o(3)] l that newTunaExit_eq [of i "c\<lparr>sockets := s, listeners := ls\<rparr>" X] by fastforce
  then show ?thesis using that o(1,4) l createExits_ok [OF o(3)] by auto
qed

section \<open>The machine of exits\<close>

text \<open>
  A client that is listening, and the calls of \<open>RotateOne\<close> that wait for their new exit to
  connect, each with its index. \<open>svc\<close> reads the service an exit was created with, which no
  operation changes.
\<close>

definition exit_laws :: "'e exit_ops \<Rightarrow> ('e \<Rightarrow> Service) \<Rightarrow> bool" where
  "exit_laws X svc \<longleftrightarrow>
     (\<forall>s t e. NewTunaExit X s t = Ok e \<longrightarrow> svc e = s) \<and> (\<forall>s t. no_panic (NewTunaExit X s t)) \<and>
     (\<forall>e n. svc (SetRemoteNode X e n) = svc e) \<and> (\<forall>e. svc (StartReverse X e) = svc e) \<and>
     (\<forall>e. svc (exitClose X e) = svc e) \<and> (\<forall>e. exitIsClosed X (exitClose X e))"

lemma exit_lawsD:
  assumes "exit_laws X svc"
  shows "NewTunaExit X s t = Ok e \<Longrightarrow> svc e = s" and "NewTunaExit X s t \<noteq> Panic p"
    and "svc (StartReverse X e) = svc e" and "svc (exitClose X e) = svc e"
    and "svc (fixNode X n e) = svc e" and "exitIsClosed X (exitClose X e)"
  using assms unfolding exit_laws_def fixNode_def by (auto split: option.split) (metis no_panic_simps(3))

record ('w, 'e, 'u) tsys =
  tc :: "('w, 'e, 'u) tclient"
  pending :: "(int \<times> 'e) list"

definition fresh_tclient :: "('w, 'e, 'u) tclient \<Rightarrow> bool" where
  "fresh_tclient c \<longleftrightarrow>
     (\<exists>merge T acct a w conf. merge_laws merge \<and>
        NewTunaSessionClient merge T acct a w conf = Ok (client.truncate c)) \<and>
     listeners c = [] \<and> tunaExits c = None \<and> listenerUdpSess c = None"

text \<open>
  Initially \<open>Listen\<close> has succeeded on a new client. The environment is everything else that
  happens to the client: sessions, connections, configuration (\<open>SetConfig\<close>), the sockets of
  other processes, exits that connect, get addresses and fail.
\<close>

definition tsys_init ::
  "'e exit_ops \<Rightarrow> os_ops \<Rightarrow> proto \<Rightarrow> ('e \<Rightarrow> Service) \<Rightarrow> ('w, 'e, 'u) tsys \<Rightarrow> bool" where
  "tsys_init X N P svc s \<longleftrightarrow>
     exit_laws X svc \<and> os_laws N \<and> proto_laws P \<and> pending s = [] \<and>
     (\<exists>c compile dflt re. fresh_tclient c \<and> Listen X N compile dflt re c = (Ok (), tc s))"

definition env_ok :: "('e \<Rightarrow> Service) \<Rightarrow> ('w, 'e, 'u) tclient \<Rightarrow> ('w, 'e, 'u) tclient \<Rightarrow> bool" where
  "env_ok svc c c' \<longleftrightarrow>
     listeners c' = listeners c \<and> map_option (map svc) (tunaExits c') = map_option (map svc) (tunaExits c) \<and>
     map_option isListener (listenerUdpSess c') = map_option isListener (listenerUdpSess c) \<and>
     isClosed c' = isClosed c \<and> onCloseClosed c' = onCloseClosed c \<and> config_ok (config c')"

inductive tsys_step ::
  "'w ext \<Rightarrow> 'e exit_ops \<Rightarrow> os_ops \<Rightarrow> 'u udp_ops \<Rightarrow> proto \<Rightarrow> ('e \<Rightarrow> Service) \<Rightarrow>
   ('w, 'e, 'u) tsys \<Rightarrow> ('w, 'e, 'u) tsys outcome \<Rightarrow> bool"
  for E X N U P svc where
  listen: "Listen X N compile dflt re (tc s) = (r, c) \<Longrightarrow> no_panic r \<Longrightarrow>
    tsys_step E X N U P svc s (Ok (s\<lparr>tc := c\<rparr>))"
| listen_panic: "Listen X N compile dflt re (tc s) = (Panic p, c) \<Longrightarrow> tsys_step E X N U P svc s (Panic p)"
| listenUDP: "ListenUDP X N newEnc (tc s) = (r, c) \<Longrightarrow> no_panic r \<Longrightarrow>
    tsys_step E X N U P svc s (Ok (s\<lparr>tc := c\<rparr>))"
| listenUDP_panic: "ListenUDP X N newEnc (tc s) = (Panic p, c) \<Longrightarrow> tsys_step E X N U P svc s (Panic p)"
| rotate: "newTunaExit X (tc s) i = Ok te \<Longrightarrow>
    tsys_step E X N U P svc s (Ok (s\<lparr>pending := (i, StartReverse X te) # pending s\<rparr>))"
| rotate_panic: "newTunaExit X (tc s) i = Panic p \<Longrightarrow> tsys_step E X N U P svc s (Panic p)"
| swap: "(i, te) \<in> set (pending s) \<Longrightarrow> RotateOne_swap X (tc s) i te = Ok (old, c) \<Longrightarrow>
    tsys_step E X N U P svc s (Ok (s\<lparr>tc := c, pending := remove1 (i, te) (pending s)\<rparr>))"
| swap_panic: "(i, te) \<in> set (pending s) \<Longrightarrow> RotateOne_swap X (tc s) i te = Panic p \<Longrightarrow>
    tsys_step E X N U P svc s (Panic p)"
| node: "tsys_step E X N U P svc s (Ok (s\<lparr>tc := SetTunaNode (tc s) n\<rparr>))"
| connected: "tsys_step E X N U P svc s (Ok (s\<lparr>tc := exitConnected (tc s)\<rparr>))"
| close: "Close_client E X U P (tc s) = Ok c \<Longrightarrow> tsys_step E X N U P svc s (Ok (s\<lparr>tc := c\<rparr>))"
| close_panic: "Close_client E X U P (tc s) = Panic p \<Longrightarrow> tsys_step E X N U P svc s (Panic p)"
| env: "env_ok svc (tc s) c \<Longrightarrow> map (\<lambda>(i, e). (i, svc e)) ps = map (\<lambda>(i, e). (i, svc e)) (pending s) \<Longrightarrow>
    tsys_step E X N U P svc s (Ok (s\<lparr>tc := c, pending := ps\<rparr>))"

text \<open>The invariant: exit \<open>i\<close> serves the port of listener \<open>i\<close>, and so does every exit about to be swapped in.\<close>

definition aligned :: "('e \<Rightarrow> Service) \<Rightarrow> ('w, 'e, 'u) tclient \<Rightarrow> bool" where
  "aligned svc c \<longleftrightarrow>
     listeners c \<noteq> [] \<and> (\<forall>p\<in>set (listeners c). valid_port p) \<and> distinct (listeners c) \<and>
     map_option (map svc) (tunaExits c) = Some (map portService (listeners c))"

definition tclient_ok :: "('w, 'e, 'u) tclient \<Rightarrow> bool" where
  "tclient_ok c \<longleftrightarrow>
     config_ok (config c) \<and> onCloseClosed c = isClosed c \<and>
     map_option isListener (listenerUdpSess c) \<noteq> Some False"

definition tsys_inv :: "'e exit_ops \<Rightarrow> os_ops \<Rightarrow> proto \<Rightarrow> ('e \<Rightarrow> Service) \<Rightarrow> ('w, 'e, 'u) tsys \<Rightarrow> bool" where
  "tsys_inv X N P svc s \<longleftrightarrow>
     exit_laws X svc \<and> os_laws N \<and> proto_laws P \<and> aligned svc (tc s) \<and> tclient_ok (tc s) \<and>
     (\<forall>(i, se)\<in>set (map (\<lambda>(i, e). (i, svc e)) (pending s)).
        0 \<le> i \<and> i < int (length (listeners (tc s))) \<and> se = portService (listeners (tc s) ! nat i))"

section \<open>Every step keeps listeners and exits in step\<close>

lemma aligned_exits:
  assumes "aligned svc c"
  obtains es where "tunaExits c = Some es" "map svc es = map portService (listeners c)" "es \<noteq> []"
    "length es = length (listeners c)"
proof -
  from assms obtain es where es: "tunaExits c = Some es" "map svc es = map portService (listeners c)"
    by (auto simp: aligned_def)
  moreover from es(2) have len: "length es = length (listeners c)" by (metis length_map)
  moreover from assms len have "es \<noteq> []" by (auto simp: aligned_def)
  ultimately show ?thesis using that by blast
qed

lemma aligned_cong:
  "listeners c' = listeners c \<Longrightarrow> map_option (map svc) (tunaExits c') = map_option (map svc) (tunaExits c) \<Longrightarrow>
   aligned svc c' = aligned svc c"
  by (simp add: aligned_def)

lemma aligned_started: "aligned svc c \<Longrightarrow> startExits X N c = (Ok (), c)"
  by (elim aligned_exits) (simp add: startExits_def)

lemma getAcceptAddrs_no_panic [simp]: "getAcceptAddrs compile dflt re \<noteq> Panic p"
proof -
  have "compileAll compile as \<noteq> Panic p" for as
  proof (induction as)
    case (Cons a as)
    then show ?case by (cases "compileAll compile as") (auto split: option.split)
  qed simp
  then show ?thesis by (simp add: getAcceptAddrs_def)
qed

lemma listen_again:
  assumes "aligned svc c" "Listen X N compile dflt re c = (r, c')"
  shows "no_panic r \<and> (\<exists>as. c' = c\<lparr>acceptAddrs := as\<rparr>)"
  using assms
  by (auto simp: Listen_def aligned_def Let_def split: outcome.splits intro: exI [of _ "acceptAddrs c"])

lemma aligned_udp_addr:
  assumes "aligned svc c"
  shows "listenerUDPAddr c = Ok (''127.0.0.1'', hd (listeners c))"
proof -
  have "valid_port (hd (listeners c))" "listeners c \<noteq> []" using assms by (auto simp: aligned_def)
  then show ?thesis
    by (simp add: listenerUDPAddr_def SplitHostPort_listenerAddr hd_conv_nth [symmetric] atoi_itoa valid_port_def)
qed

text \<open>The first \<open>ListenUDP\<close> makes the receive channel, with the configured size.\<close>

definition udpChanFails :: "('w, 'e, 'u) tclient \<Rightarrow> bool" where
  "udpChanFails c \<longleftrightarrow> listenerUdpSess c = None \<and> MaxUdpDatagramBuffered (config c) < 0"

lemma listenUDP_fails:
  assumes "aligned svc c" "udpChanFails c"
  shows "ListenUDP X N newEnc c = (Panic (MakeChanSize (MaxUdpDatagramBuffered (config c))), c)"
  using assms by (simp add: aligned_def udpChanFails_def ListenUDP_def newUdpSession_def)

lemma listenUDP_ok:
  fixes c :: "('w, 'e, 'u) tclient"
  assumes "aligned svc c" "os_laws N" "tclient_ok c" "ListenUDP X N newEnc c = (r, c')" "\<not> udpChanFails c"
  shows "no_panic r \<and> (\<exists>x. c' = c\<lparr>listenerUdpSess := x\<rparr> \<and> map_option isListener x \<noteq> Some False)"
proof (cases "listenerUdpSess c")
  case (Some y)
  then show ?thesis
    using assms by (auto simp: ListenUDP_def tclient_ok_def split: if_splits intro!: exI [of _ "listenerUdpSess c"])
next
  case None
  have ne: "listeners c \<noteq> []" using assms(1) by (simp add: aligned_def)
  obtain y :: "'u UdpSession" where y: "newUdpSession c True = Ok y" "isListener y"
    using assms(5) None by (auto simp: newUdpSession_def udpChanFails_def)
  let ?c1 = "c\<lparr>listenerUdpSess := Some y\<rparr>"
  have al: "aligned svc ?c1" using assms(1) by (simp add: aligned_def)
  have b: "no_panic (bindUDP N s p)" for s p using assms(2) by (simp add: os_laws_def)
  have "openUdpSess N newEnc ?c1 y = (r, c')"
    using assms(4) None ne y(1) aligned_started [OF al, of X N] by (simp add: ListenUDP_def)
  then show ?thesis
    using y(2) b [of "sockets c" "hd (listeners c)"] aligned_udp_addr [OF al]
    by (auto simp: openUdpSess_def Let_def split: outcome.splits)
qed

lemma newTunaExit_panics:
  assumes "exit_laws X svc" "aligned svc c" "tclient_ok c"
  shows "newTunaExit X c i = Panic p \<longleftrightarrow> i < 0 \<and> p = IndexOutOfRange i"
proof (cases "0 \<le> i \<and> i < int (length (listeners c))")
  case True
  then obtain j where j: "i = int j" "j < length (listeners c)" by (metis nonneg_int_cases of_nat_less_iff)
  then have "valid_port (listeners c ! j)" using assms(2) by (simp add: aligned_def)
  moreover obtain t where "exitConfig (config c) = Ok t" using exitConfig_ok assms(3) unfolding tclient_ok_def by blast
  ultimately show ?thesis using newTunaExit_eq [OF j(2)] exit_lawsD(2) [OF assms(1)] j(1) by simp
qed (auto simp: newTunaExit_def)

lemma newTunaExit_svc:
  assumes "exit_laws X svc" "aligned svc c" "newTunaExit X c i = Ok te"
  shows "0 \<le> i \<and> i < int (length (listeners c)) \<and> svc te = portService (listeners c ! nat i)"
proof -
  have "0 \<le> i" using assms(3) by (auto simp: newTunaExit_def split: if_splits)
  then obtain j where j: "i = int j" by (metis nonneg_int_cases)
  then have l: "j < length (listeners c)" using newTunaExit_range [of X c j te] assms(3) by simp
  then have "valid_port (listeners c ! j)" using assms(2) by (simp add: aligned_def)
  with assms(3) obtain t where "NewTunaExit X (portService (listeners c ! j)) t = Ok te"
    by (auto simp: j newTunaExit_eq [OF l])
  then show ?thesis using exit_lawsD(1) [OF assms(1)] l j by auto
qed

lemma swap_total:
  assumes "aligned svc c" "0 \<le> i" "i < int (length (listeners c))"
  shows "\<exists>es. tunaExits c = Some es \<and> nat i < length es \<and>
    RotateOne_swap X c i te =
      Ok (exitClose X (SetLinger X (es ! nat i) (- 1)), c\<lparr>tunaExits := Some (es[nat i := te])\<rparr>)"
  using assms(1)
proof (rule aligned_exits)
  fix es
  assume "tunaExits c = Some es" "length es = length (listeners c)"
  then show ?thesis using assms(2,3) by (simp add: RotateOne_swap_def)
qed

lemma swap_aligned:
  assumes "aligned svc c" "i < length (listeners c)" "svc te = portService (listeners c ! i)"
    "tunaExits c = Some es" "i < length es"
  shows "aligned svc (c\<lparr>tunaExits := Some (es[i := te])\<rparr>)"
proof -
  have "map svc es = map portService (listeners c)" using assms(1,4) by (simp add: aligned_def)
  then have "map svc (es[i := te]) = map portService (listeners c)"
    using assms(2,3) by (metis map_update list_update_id nth_map)
  then show ?thesis using assms(1) by (simp add: aligned_def)
qed

section \<open>Closing\<close>

text \<open>
  The part of the client below the exits changes only in its heap of connections and its
  outside world: whatever \<open>closeAll\<close> and the UDP session's \<open>Close\<close> do to it is of that form.
\<close>

lemma rawWrite_frame: "\<exists>cs. rawWrite c p b = c\<lparr>conns := cs\<rparr>"
  by (auto simp: rawWrite_def split: option.split prod.split intro: exI [of _ "conns c"])

lemma sendCloseTo_frame: "\<exists>cs. sendCloseTo c x b usa = c\<lparr>conns := cs\<rparr>"
  using rawWrite_frame by (auto simp: sendCloseTo_def split: option.split intro: exI [of _ "conns c"])

lemma sendClose_fold_frame: "\<exists>cs. foldl (\<lambda>c usa. sendCloseTo c x b usa) c as = c\<lparr>conns := cs\<rparr>"
proof (induction as arbitrary: c)
  case Nil
  show ?case by (auto intro: exI [of _ "conns c"])
next
  case (Cons a as)
  obtain cs where "sendCloseTo c x b a = c\<lparr>conns := cs\<rparr>" using sendCloseTo_frame by blast
  then show ?case using Cons.IH [of "c\<lparr>conns := cs\<rparr>"] by simp
qed

lemma sendCloseMsg_frame:
  assumes "sendCloseMsg P c x a = Ok c'"
  shows "\<exists>cs. c' = c\<lparr>conns := cs\<rparr>"
proof -
  have same: "\<exists>cs. c = c\<lparr>conns := cs\<rparr>" by (rule exI [of _ "conns c"]) simp
  show ?thesis
    using assms same rawWrite_frame [of c] sendCloseTo_frame [of c] sendClose_fold_frame [of x _ c]
    by (auto simp: sendCloseMsg_def split: outcome.splits bool.splits option.splits)
qed

lemma udp_close_frame:
  assumes "Close U P c x = Ok (e, c', x')"
  shows "(\<exists>cs. c' = c\<lparr>conns := cs\<rparr>) \<and> isListener x' = isListener x"
proof -
  obtain c1 where c1: "sendCloseMsg P c x None = Ok c1" using assms by (auto simp: Close_def)
  obtain cs where cs: "c1 = c\<lparr>conns := cs\<rparr>" using sendCloseMsg_frame [OF c1] by blast
  have "c' = closeConns c1 [] \<or> (\<exists>p. c' = closeConns c1 [p]) \<or> (\<exists>ps. c' = closeConns c1 ps)"
    using assms c1 by (auto simp: Close_def Let_def split: if_splits option.splits)
  then obtain ds where "c' = c1\<lparr>conns := ds\<rparr>" using closeConns_frame [of c1] by metis
  then show ?thesis using cs close_inv [OF assms] by (auto simp: same_buf_def)
qed

lemma closeAll_frame: "\<exists>cs w. closeAll E c = c\<lparr>conns := cs, world := w\<rparr>"
proof -
  obtain cs where "closeAll E c = (c\<lparr>world := closeSessions E (sessions c) (world c)\<rparr>)\<lparr>conns := cs\<rparr>"
    unfolding closeAll_def using closeConns_frame by blast
  then show ?thesis by (intro exI [of _ cs] exI [of _ "closeSessions E (sessions c) (world c)"]) simp
qed

lemma closeUdpSess_frame:
  assumes "closeUdpSess U P c = Ok c'"
  shows "\<exists>cs x. c' = c\<lparr>conns := cs, listenerUdpSess := x\<rparr> \<and> map_option isListener x = map_option isListener (listenerUdpSess c)"
proof (cases "listenerUdpSess c")
  case None
  then show ?thesis
    using assms by (auto simp: closeUdpSess_def intro!: exI [of _ "conns c"] exI [of _ "listenerUdpSess c"])
next
  case (Some y)
  then obtain e c1 x1 where "Close U P c y = Ok (e, c1, x1)" "c' = c1\<lparr>listenerUdpSess := Some x1\<rparr>"
    using assms by (auto simp: closeUdpSess_def)
  with udp_close_frame [OF this(1)] Some show ?thesis by auto
qed

text \<open>The state in which \<open>Close\<close> hands over to the UDP session.\<close>

definition closedExits :: "'w ext \<Rightarrow> 'e exit_ops \<Rightarrow> ('w, 'e, 'u) tclient \<Rightarrow> ('w, 'e, 'u) tclient" where
  "closedExits E X c =
     (closeAll E (c\<lparr>multiClosed := True, sockets := foldl closeTCP (sockets c) (listeners c)\<rparr>))
       \<lparr>tunaExits := map_option (map (exitClose X)) (tunaExits c)\<rparr>"

lemma closedExits_frame:
  "\<exists>cs w. closedExits E X c = c\<lparr>multiClosed := True, sockets := foldl closeTCP (sockets c) (listeners c),
     conns := cs, world := w, tunaExits := map_option (map (exitClose X)) (tunaExits c)\<rparr>"
proof -
  obtain cs w where "closeAll E (c\<lparr>multiClosed := True, sockets := foldl closeTCP (sockets c) (listeners c)\<rparr>) =
      c\<lparr>multiClosed := True, sockets := foldl closeTCP (sockets c) (listeners c), conns := cs, world := w\<rparr>"
    using closeAll_frame [of E "c\<lparr>multiClosed := True, sockets := foldl closeTCP (sockets c) (listeners c)\<rparr>"] by auto
  then show ?thesis by (intro exI [of _ cs] exI [of _ w]) (simp add: closedExits_def)
qed

lemma Close_client_eq:
  "\<not> isClosed c \<Longrightarrow> Close_client E X U P c = obind (closeUdpSess U P (closedExits E X c)) markClosed"
  using closeAll_frame [of E "c\<lparr>multiClosed := True, sockets := foldl closeTCP (sockets c) (listeners c)\<rparr>"]
  by (auto simp: Close_client_def closedExits_def Let_def)

lemma close_client_fields:
  assumes "Close_client E X U P c = Ok c'" "\<not> isClosed c"
  shows "listeners c' = listeners c" "tunaExits c' = map_option (map (exitClose X)) (tunaExits c)"
    and "sockets c' = foldl closeTCP (sockets c) (listeners c)" "multiClosed c'" "config c' = config c"
    and "isClosed c'" "onCloseClosed c'"
    and "map_option isListener (listenerUdpSess c') = map_option isListener (listenerUdpSess c)"
proof -
  obtain c5 where c5: "closeUdpSess U P (closedExits E X c) = Ok c5" "markClosed c5 = Ok c'"
    using assms by (auto simp: Close_client_eq)
  obtain ds x where x: "c5 = (closedExits E X c)\<lparr>conns := ds, listenerUdpSess := x\<rparr>"
    "map_option isListener x = map_option isListener (listenerUdpSess (closedExits E X c))"
    using closeUdpSess_frame [OF c5(1)] by blast
  have c': "c' = c5\<lparr>isClosed := True, onCloseClosed := True\<rparr>"
    using c5(2) by (auto simp: markClosed_def split: if_splits)
  note f = closedExits_frame [of E X c]
  show "listeners c' = listeners c" "tunaExits c' = map_option (map (exitClose X)) (tunaExits c)"
    "sockets c' = foldl closeTCP (sockets c) (listeners c)" "multiClosed c'" "config c' = config c"
    "isClosed c'" "onCloseClosed c'"
    "map_option isListener (listenerUdpSess c') = map_option isListener (listenerUdpSess c)"
    using f x by (auto simp: c')
qed

lemma closeUdpSess_no_panic:
  assumes "proto_laws P" "map_option isListener (listenerUdpSess c) \<noteq> Some False"
  shows "closeUdpSess U P c \<noteq> Panic p"
proof (cases "listenerUdpSess c")
  case (Some x)
  then have "Close U P c x \<noteq> Panic p" using close_no_panic [OF assms(1)] assms(2) by auto
  then show ?thesis using Some by (cases "Close U P c x") (auto simp: closeUdpSess_def)
qed (simp add: closeUdpSess_def)

lemma close_client_no_panic:
  assumes "proto_laws P" "onCloseClosed c = isClosed c" "map_option isListener (listenerUdpSess c) \<noteq> Some False"
  shows "Close_client E X U P c \<noteq> Panic p"
proof (cases "isClosed c")
  case False
  have l: "map_option isListener (listenerUdpSess (closedExits E X c)) \<noteq> Some False"
    and "\<not> onCloseClosed (closedExits E X c)"
    using closedExits_frame [of E X c] assms(2,3) False by auto
  then have "\<not> onCloseClosed c5" if "closeUdpSess U P (closedExits E X c) = Ok c5" for c5
    using closeUdpSess_frame [OF that] by auto
  then show ?thesis
    using False closeUdpSess_no_panic [OF assms(1) l, of U]
    by (cases "closeUdpSess U P (closedExits E X c)") (auto simp: Close_client_eq markClosed_def)
qed (simp add: Close_client_def)

section \<open>The invariant\<close>

lemma tsys_inv_client:
  assumes "tsys_inv X N P svc s" "aligned svc c" "tclient_ok c" "listeners c = listeners (tc s)"
  shows "tsys_inv X N P svc (s\<lparr>tc := c\<rparr>)"
  using assms by (simp add: tsys_inv_def)

lemma tsys_invD:
  assumes "tsys_inv X N P svc s"
  shows "exit_laws X svc" "os_laws N" "proto_laws P" "aligned svc (tc s)" "tclient_ok (tc s)"
    and "(i, te) \<in> set (pending s) \<Longrightarrow>
      0 \<le> i \<and> i < int (length (listeners (tc s))) \<and> svc te = portService (listeners (tc s) ! nat i)"
  using assms by (auto simp: tsys_inv_def)

lemma fresh_tclientD:
  assumes "fresh_tclient c"
  shows "config_ok (config c)" "\<not> isClosed c" "\<not> onCloseClosed c" "listeners c = []" "tunaExits c = None"
    "listenerUdpSess c = None"
  using assms MergedConfig_ok
  by (auto simp: fresh_tclient_def NewTunaSessionClient_def client.truncate_def)

lemma tsys_init_inv:
  assumes "tsys_init X N P svc s"
  shows "tsys_inv X N P svc s"
proof -
  obtain c compile dflt re where c: "fresh_tclient c" "Listen X N compile dflt re c = (Ok (), tc s)"
    and laws: "exit_laws X svc" "os_laws N" "proto_laws P" "pending s = []"
    using assms by (auto simp: tsys_init_def)
  note f = fresh_tclientD [OF c(1)]
  from c(2) f(4) obtain as where st: "startExits X N (c\<lparr>acceptAddrs := as\<rparr>) = (Ok (), tc s)"
    by (auto simp: Listen_def Let_def split: outcome.splits if_splits)
  have "tunaExits (c\<lparr>acceptAddrs := as\<rparr>) = None" using f(5) by simp
  then obtain ls es where l:
    "tc s = c\<lparr>acceptAddrs := as, sockets := (sockets c)\<lparr>tcpBound := rev ls @ tcpBound (sockets c)\<rparr>,
       listeners := ls, tunaExits := Some es\<rparr>"
    "int (length ls) = NumTunaListeners (config c)" "length es = length ls" "distinct ls" "\<forall>p\<in>set ls. valid_port p"
    "\<forall>i<length ls. \<exists>te t. exitConfig (config c) = Ok t \<and> NewTunaExit X (portService (ls ! i)) t = Ok te \<and>
       es ! i = StartReverse X (fixNode X (tunaNode c) te)"
    by (rule startExits_ok [OF laws(2) _ st]) (rule that, simp_all)
  have "svc (es ! i) = portService (ls ! i)" if "i < length ls" for i
    using l(6) that exit_lawsD(1,3,5) [OF laws(1)] by metis
  then have "map svc es = map portService ls" using l(3) by (simp add: list_eq_iff_nth_eq)
  moreover have "ls \<noteq> []" using l(2) f(1) by (auto simp: config_ok_def)
  ultimately show ?thesis
    using l laws f by (simp add: tsys_inv_def aligned_def tclient_ok_def)
qed

lemma close_keeps:
  assumes "tsys_inv X N P svc s" "Close_client E X U P (tc s) = Ok c"
  shows "tsys_inv X N P svc (s\<lparr>tc := c\<rparr>)"
proof (cases "isClosed (tc s)")
  case True
  then show ?thesis using assms by (auto simp: Close_client_def tsys_inv_def)
next
  case False
  note f = close_client_fields [OF assms(2) False] and i = tsys_invD [OF assms(1)]
  have "map_option (map svc) (tunaExits c) = map_option (map svc) (tunaExits (tc s))"
    using exit_lawsD(4) [OF i(1)] by (auto simp: f(2) option.map_comp comp_def)
  with f(1) i(4) have "aligned svc c" by (simp add: aligned_def)
  moreover have "tclient_ok c"
    using i(5) f(5-8) unfolding tclient_ok_def by metis
  ultimately show ?thesis using f(1) tsys_inv_client [OF assms(1)] by blast
qed

lemma env_keeps:
  assumes "tsys_inv X N P svc s" "env_ok svc (tc s) c"
    "map (\<lambda>(i, e). (i, svc e)) ps = map (\<lambda>(i, e). (i, svc e)) (pending s)"
  shows "tsys_inv X N P svc (s\<lparr>tc := c, pending := ps\<rparr>)"
proof -
  have "aligned svc c" "listeners c = listeners (tc s)"
    using assms(1,2) by (auto simp: tsys_inv_def env_ok_def aligned_def)
  moreover have "tclient_ok c"
    using assms(2) tsys_invD(5) [OF assms(1)] unfolding env_ok_def tclient_ok_def by metis
  ultimately have "aligned svc c" "listeners c = listeners (tc s)" "tclient_ok c" by blast+
  then show ?thesis using assms(1,3) unfolding tsys_inv_def by simp
qed

lemma tsys_inv_step: "tsys_step E X N U P svc s (Ok t) \<Longrightarrow> tsys_inv X N P svc s \<Longrightarrow> tsys_inv X N P svc t"
proof (induction "Ok t :: ('a, 'b, 'c) tsys outcome" rule: tsys_step.induct)
  case (listen compile dflt re s r c)
  note i = tsys_invD [OF listen(4)]
  obtain as where "c = (tc s)\<lparr>acceptAddrs := as\<rparr>" using listen_again [OF i(4) listen(1)] by blast
  then show ?case
    using listen(3) tsys_inv_client [OF listen(4), of c] i by (simp add: aligned_def tclient_ok_def)
next
  case (listenUDP newEnc s r c)
  note i = tsys_invD [OF listenUDP(4)]
  have "\<not> udpChanFails (tc s)"
    using listenUDP_fails [OF i(4), of X N newEnc] listenUDP(1,2) by auto
  then obtain x where "c = (tc s)\<lparr>listenerUdpSess := x\<rparr>" "map_option isListener x \<noteq> Some False"
    using listenUDP_ok [OF i(4,2,5) listenUDP(1)] by blast
  then show ?case
    using listenUDP(3) tsys_inv_client [OF listenUDP(4), of c] i by (simp add: aligned_def tclient_ok_def)
next
  case (rotate s i te)
  note inv = tsys_invD [OF rotate(3)]
  then show ?case
    using rotate(2,3) newTunaExit_svc [OF inv(1,4) rotate(1)] exit_lawsD(3) [OF inv(1)] by (auto simp: tsys_inv_def)
next
  case (swap i te s old c)
  note inv = tsys_invD [OF swap(4)]
  obtain es where es: "tunaExits (tc s) = Some es" "nat i < length es" "c = (tc s)\<lparr>tunaExits := Some (es[nat i := te])\<rparr>"
    using swap_total [OF inv(4), of i X te] inv(6) [OF swap(1)] swap(2) by auto
  have "aligned svc c" unfolding es(3) by (rule swap_aligned [OF inv(4) _ _ es(1,2)]) (use inv(6) [OF swap(1)] in auto)
  moreover have "tclient_ok c" using inv(5) es(3) by (simp add: tclient_ok_def)
  ultimately have "tsys_inv X N P svc (s\<lparr>tc := c\<rparr>)"
    using tsys_inv_client [OF swap(4)] es(3) by simp
  then have "tsys_inv X N P svc (s\<lparr>tc := c, pending := remove1 (i, te) (pending s)\<rparr>)"
    using set_remove1_subset [of "(i, te)" "pending s"] by (auto simp: tsys_inv_def)
  then show ?case using swap(3) by simp
next
  case (node s n)
  then show ?case
    using tsys_invD(4,5) [OF node(2)] tsys_inv_client [OF node(2), of "SetTunaNode (tc s) n"]
    by (simp add: SetTunaNode_def aligned_def tclient_ok_def)
next
  case (connected s)
  then show ?case
    using tsys_invD(4,5) [OF connected(2)] tsys_inv_client [OF connected(2), of "exitConnected (tc s)"]
    by (simp add: exitConnected_def aligned_def tclient_ok_def)
next
  case (close s c)
  then show ?case using close_keeps by blast
next
  case (env s c ps)
  then show ?case using env_keeps by blast
qed

interpretation xm: invariant_machine "tsys_init X N P svc" "tsys_step E X N U P svc" "tsys_inv X N P svc" for E X N U P svc
  by unfold_locales (auto intro: tsys_init_inv tsys_inv_step)

text \<open>When a section panics: the causes, one section after the other.\<close>

lemma exit_sections_panic:
  assumes "tsys_inv X N P svc s"
  shows "fst (Listen X N compile dflt re (tc s)) \<noteq> Panic p"
    and "fst (ListenUDP X N newEnc (tc s)) = Panic p \<longleftrightarrow>
      udpChanFails (tc s) \<and> p = MakeChanSize (MaxUdpDatagramBuffered (config (tc s)))"
    and "newTunaExit X (tc s) i = Panic p \<longleftrightarrow> i < 0 \<and> p = IndexOutOfRange i"
    and "(i, te) \<in> set (pending s) \<Longrightarrow> RotateOne_swap X (tc s) i te \<noteq> Panic p"
    and "Close_client E X U P (tc s) \<noteq> Panic p"
proof -
  note i = tsys_invD [OF assms]
  show "fst (Listen X N compile dflt re (tc s)) \<noteq> Panic p"
    using listen_again [OF i(4), of X N compile dflt re] by (cases "Listen X N compile dflt re (tc s)") fastforce
  show "fst (ListenUDP X N newEnc (tc s)) = Panic p \<longleftrightarrow>
      udpChanFails (tc s) \<and> p = MakeChanSize (MaxUdpDatagramBuffered (config (tc s)))"
  proof (cases "udpChanFails (tc s)")
    case True
    then show ?thesis using listenUDP_fails [OF i(4) True, of X N newEnc] by auto
  next
    case False
    obtain r c where l: "ListenUDP X N newEnc (tc s) = (r, c)" by (cases "ListenUDP X N newEnc (tc s)")
    then show ?thesis using listenUDP_ok [OF i(4,2,5) l False] False by auto
  qed
  show "newTunaExit X (tc s) j = Panic p \<longleftrightarrow> j < 0 \<and> p = IndexOutOfRange j" for j
    by (rule newTunaExit_panics [OF i(1,4,5)])
  show "RotateOne_swap X (tc s) j te \<noteq> Panic p" if "(j, te) \<in> set (pending s)" for j te
    using swap_total [OF i(4), of j X te] i(6) [OF that] by auto
  show "Close_client E X U P (tc s) \<noteq> Panic p"
    using close_client_no_panic [OF i(3)] i(5) unfolding tclient_ok_def by blast
qed

lemma tsys_step_panics:
  "tsys_step E X N U P svc s (Panic p) \<Longrightarrow> tsys_inv X N P svc s \<Longrightarrow>
   (\<exists>i<0. p = IndexOutOfRange i) \<or>
   udpChanFails (tc s) \<and> p = MakeChanSize (MaxUdpDatagramBuffered (config (tc s)))"
proof (induction "Panic p :: ('a, 'b, 'c) tsys outcome" rule: tsys_step.induct)
  case (listen_panic compile dflt re s c)
  then show ?case using exit_sections_panic(1) [OF listen_panic(2), of compile dflt re p] by simp
next
  case (listenUDP_panic newEnc s c)
  then show ?case using exit_sections_panic(2) [OF listenUDP_panic(2), of newEnc p] by simp
next
  case (rotate_panic s i)
  then show ?case using exit_sections_panic(3) [OF rotate_panic(2)] by auto
next
  case (swap_panic i te s)
  then show ?case using exit_sections_panic(4) [OF swap_panic(3,1)] by simp
next
  case (close_panic s)
  then show ?case using exit_sections_panic(5) [OF close_panic(2)] by simp
qed

section \<open>Starting to listen\<close>

lemma bind_no_panic: "os_laws N \<Longrightarrow> bindTCP N s p \<noteq> Panic x" "os_laws N \<Longrightarrow> bindUDP N s p \<noteq> Panic x"
  unfolding os_laws_def by (metis no_panic_simps(3))+

lemma getFreePortLoop_no_panic: "os_laws N \<Longrightarrow> fst (getFreePortLoop N n port s ds) \<noteq> Panic x"
  by (induction n arbitrary: port s ds)
    (auto simp: resolveTCPAddr_def Let_def bind_no_panic split: outcome.splits)

lemma openListeners_no_panic: "os_laws N \<Longrightarrow> fst (openListeners N n s ls) \<noteq> Panic x"
proof (induction n arbitrary: s ls)
  case (Suc n)
  have "GetFreePort N 0 s \<noteq> (Panic x, s')" for s'
    using getFreePortLoop_no_panic [OF Suc.prems, of 100 0 s "[]" x] by (auto simp: GetFreePort_def)
  then show ?case
    using Suc by (auto simp: bind_no_panic split: prod.splits outcome.splits)
qed simp

lemma createExits_no_panic:
  assumes "exit_laws X svc" "config_ok (config c)" "\<forall>p\<in>set (listeners c). valid_port p"
  shows "i + n \<le> length (listeners c) \<Longrightarrow> createExits X c i n \<noteq> Panic p"
proof (induction n arbitrary: i)
  case (Suc n)
  obtain t where "exitConfig (config c) = Ok t" using exitConfig_ok assms(2) by blast
  then have "newTunaExit X c (int i) = NewTunaExit X (portService (listeners c ! i)) t"
    using Suc.prems assms(3) by (subst newTunaExit_eq) auto
  then have "newTunaExit X c (int i) \<noteq> Panic q" for q using exit_lawsD(2) [OF assms(1)] by simp
  moreover have "createExits X c (i + 1) n \<noteq> Panic p" using Suc.prems by (intro Suc.IH) simp
  ultimately show ?case
    by (cases "newTunaExit X c (int i)"; cases "createExits X c (i + 1) n") (auto simp: Let_def)
qed simp

lemma listen_no_panic:
  assumes "exit_laws X svc" "os_laws N" "fresh_tclient c" "0 \<le> NumTunaListeners (config c)"
  shows "fst (Listen X N compile dflt re c) \<noteq> Panic p"
proof -
  note f = fresh_tclientD [OF assms(3)]
  have "fst (startExits X N (c\<lparr>acceptAddrs := as\<rparr>)) \<noteq> Panic p" for as
  proof (cases "openListeners N (nat (NumTunaListeners (config c))) (sockets c) []")
    case (Pair r s)
    show ?thesis
    proof (cases r)
      case (Ok ls)
      then have "\<forall>q\<in>set ls. valid_port q" using openListeners_ok [OF assms(2)] Pair by fastforce
      then have "createExits X (c\<lparr>acceptAddrs := as, sockets := s, listeners := ls\<rparr>) 0 (length ls) \<noteq> Panic q" for q
        using f(1) by (intro createExits_no_panic [OF assms(1)]) simp_all
      then show ?thesis using Pair Ok f assms(4) by (auto simp: startExits_def Let_def split: outcome.splits)
    next
      case (Panic q)
      then show ?thesis using Pair openListeners_no_panic [OF assms(2)] by (metis fst_conv)
    qed (use Pair f assms(4) in \<open>simp add: startExits_def\<close>)
  qed
  then show ?thesis using f(4) by (auto simp: Listen_def Let_def split: outcome.splits)
qed

end
