(* ===== verification/Exit_Props.thy ===== *)
theory Exit_Props
  imports Exit_Machine Udp_Props
begin

text \<open>
  The properties of the exits: what \<open>Listen\<close> sets up, that listeners, exits and announced
  addresses stay in step, what \<open>Close\<close> ends, and what a failed start leaves behind.
\<close>

section \<open>An example\<close>

text \<open>
  A machine that hands out ports from 40000 on, exits that refuse the services in \<open>bad\<close> and
  are connected once started, and Bob's client on them.
\<close>

definition autoOs :: os_ops where
  "autoOs =
     \<lparr>bindTCP = (\<lambda>s p. let q = (if p = 0 then 40000 + int (length (tcpBound s)) else p)
                     in if 0 < q \<and> q \<le> 65535 \<and> q \<notin> set (tcpBound s) then Ok q else Err (ErrExt 1)),
      bindUDP = (\<lambda>s p. if p \<notin> set (udpBound s) then Ok () else Err (ErrExt 2))\<rparr>"

lemma autoOs_laws: "os_laws autoOs"
  by (auto simp: os_laws_def autoOs_def Let_def)

record demo_exit =
  deService :: Service
  deIP :: string
  dePorts :: "32 word list"
  deClosed :: bool

definition demoExits :: "Service list \<Rightarrow> demo_exit exit_ops" where
  "demoExits bad =
     \<lparr>NewTunaExit = (\<lambda>s t. if s \<in> set bad then Err (ErrExt 3)
                          else Ok \<lparr>deService = s, deIP = [], dePorts = [], deClosed = False\<rparr>),
      SetRemoteNode = (\<lambda>e n. e), StartReverse = (\<lambda>e. e\<lparr>deIP := ''9.9.9.9'', dePorts := [30000]\<rparr>),
      SetLinger = (\<lambda>e n. e), exitClose = (\<lambda>e. e\<lparr>deClosed := True\<rparr>), exitIsClosed = deClosed,
      exitIP = deIP, exitPorts = dePorts, exitPrice = (\<lambda>e. ([], []))\<rparr>"

lemma demoExits_laws: "exit_laws (demoExits bad) deService"
  by (auto simp: exit_laws_def demoExits_def)

definition bob0 :: "(demo_world, demo_exit, demo_udp) tclient" where
  "bob0 = client.extend ((demoClient ''bob'')\<lparr>acceptAddrs := []\<rparr>)
     (tclient.fields [] True None None None \<lparr>tcpBound = [], udpBound = []\<rparr> False)"

lemma bob0_fresh: "fresh_tclient bob0"
proof -
  have "NewTunaSessionClient demoMerge demoNames (demoPub ''bob'') ''bob'' (world (demoClient ''bob'')) None =
      Ok (client.truncate bob0)"
    by (simp add: NewTunaSessionClient_def MergedConfig_def demoClient_def bob0_def client.defs tclient.defs)
  moreover have "listeners bob0 = [] \<and> tunaExits bob0 = None \<and> listenerUdpSess bob0 = None"
    by (simp add: bob0_def client.defs tclient.defs)
  ultimately show ?thesis unfolding fresh_tclient_def using demoMerge_laws by blast
qed

definition bob1 :: "Service list \<Rightarrow> unit outcome \<times> (demo_world, demo_exit, demo_udp) tclient" where
  "bob1 bad = Listen (demoExits bad) autoOs (\<lambda>_. None) [] None bob0"

lemma auto_open:
  assumes "q = 40000 + int (length b)" "q \<le> 65535" "q \<notin> set b"
  shows "openListeners autoOs (Suc n) \<lparr>tcpBound = b, udpBound = []\<rparr> ls =
    openListeners autoOs n \<lparr>tcpBound = q # b, udpBound = []\<rparr> (ls @ [q])"
proof -
  have b: "bindTCP autoOs \<lparr>tcpBound = b, udpBound = []\<rparr> p = Ok q" if "p = 0 \<or> p = q" for p
    using assms that by (auto simp: autoOs_def Let_def)
  have "bindUDP autoOs (openTCP \<lparr>tcpBound = b, udpBound = []\<rparr> q) q = Ok ()" by (simp add: autoOs_def openTCP_def)
  with b have "GetFreePort autoOs 0 \<lparr>tcpBound = b, udpBound = []\<rparr> = (Ok q, \<lparr>tcpBound = b, udpBound = []\<rparr>)"
    by (simp add: GetFreePort_def numeral_eq_Suc resolveTCPAddr_def)
  with b show ?thesis by (simp add: openTCP_def)
qed

lemma bob1_ports: "openListeners autoOs 4 \<lparr>tcpBound = [], udpBound = []\<rparr> [] =
   (Ok [40000, 40001, 40002, 40003], \<lparr>tcpBound = [40003, 40002, 40001, 40000], udpBound = []\<rparr>)"
proof -
  have four: "(4 :: nat) = Suc (Suc (Suc (Suc 0)))" by simp
  show ?thesis unfolding four
    using auto_open [of 40000 "[]" 3 "[]"] auto_open [of 40001 "[40000]" 2 "[40000]"]
      auto_open [of 40002 "[40001, 40000]" 1 "[40000, 40001]"]
      auto_open [of 40003 "[40002, 40001, 40000]" 0 "[40000, 40001, 40002]"]
    by (simp add: numeral_3_eq_3 numeral_2_eq_2 del: openListeners.simps(2))
qed

text \<open>Bob after \<open>Listen\<close>, and the exits he then has.\<close>

definition bobExit :: "int \<Rightarrow> demo_exit" where
  "bobExit p = \<lparr>deService = portService p, deIP = ''9.9.9.9'', dePorts = [30000], deClosed = False\<rparr>"

definition bob2 :: "(demo_world, demo_exit, demo_udp) tclient" where
  "bob2 = bob0\<lparr>acceptAddrs := [[]], sockets := \<lparr>tcpBound = [40003, 40002, 40001, 40000], udpBound = []\<rparr>,
     listeners := [40000, 40001, 40002, 40003]\<rparr>"

definition bob3 :: "(demo_world, demo_exit, demo_udp) tclient" where
  "bob3 = bob2\<lparr>tunaExits := Some (map bobExit [40000, 40001, 40002, 40003])\<rparr>"

lemma bob0_fields:
  "listeners bob0 = []" "wallet bob0" "tunaExits bob0 = None" "tunaNode bob0 = None" "listenerUdpSess bob0 = None"
  "sockets bob0 = \<lparr>tcpBound = [], udpBound = []\<rparr>" "config bob0 = DefaultConfig demoNames"
  "NumTunaListeners (config bob0) = 4" "0 \<le> MaxUdpDatagramBuffered (config bob0)"
  by (simp_all add: bob0_def client.defs tclient.defs demoClient_def DefaultConfig_def defaultConfig_def)

lemma bob2_newExit:
  assumes "i < 4"
  shows "newTunaExit (demoExits bad) bob2 (int i) =
    (if portService (listeners bob2 ! i) \<in> set bad then Err (ErrExt 3)
     else Ok \<lparr>deService = portService (listeners bob2 ! i), deIP = [], dePorts = [], deClosed = False\<rparr>)"
proof -
  obtain t where t: "exitConfig (config bob2) = Ok t"
    using exitConfig_ok [OF DefaultConfig_ok [of demoNames]] bob0_fields(7) by (auto simp: bob2_def)
  have l: "listeners bob2 = [40000, 40001, 40002, 40003]" by (simp add: bob2_def)
  have "\<forall>p\<in>set (listeners bob2). valid_port p" by (simp add: l valid_port_def)
  moreover have "i < length (listeners bob2)" using assms l by simp
  ultimately have "valid_port (listeners bob2 ! i)" using nth_mem by blast
  with assms t show ?thesis by (subst newTunaExit_eq) (simp_all add: l demoExits_def)
qed

lemma bob_start:
  "startExits (demoExits bad) autoOs (bob0\<lparr>acceptAddrs := [[]]\<rparr>) =
   (case createExits (demoExits bad) bob2 0 4 of
      Err e \<Rightarrow> (Err e, bob2) | Panic p \<Rightarrow> (Panic p, bob2) | Ok es \<Rightarrow> (Ok (), bob2\<lparr>tunaExits := Some es\<rparr>))"
  by (simp add: startExits_def bob0_fields(1-6,8) bob1_ports Let_def del: createExits.simps(2))
    (simp add: bob2_def numeral_eq_Suc del: createExits.simps(2) split: outcome.split)

lemma bob_listens: "Listen (demoExits []) autoOs (\<lambda>_. None) [] None bob0 = (Ok (), bob3)"
proof -
  have four: "(4 :: nat) = Suc (Suc (Suc (Suc 0)))" by simp
  have "tunaNode bob2 = None" by (simp add: bob2_def bob0_fields)
  then have "createExits (demoExits []) bob2 0 4 = Ok (map bobExit [40000, 40001, 40002, 40003])"
    unfolding four using bob2_newExit [of 0 "[]"] bob2_newExit [of 1 "[]"] bob2_newExit [of 2 "[]"] bob2_newExit [of 3 "[]"]
    by (simp add: bobExit_def) (simp add: demoExits_def bob2_def)
  then show ?thesis
    by (simp add: Listen_def getAcceptAddrs_def bob0_fields bob_start bob3_def)
qed

definition bobSys :: "(demo_world, demo_exit, demo_udp) tsys" where
  "bobSys = \<lparr>tc = bob3, pending = []\<rparr>"

lemma bob_reachable:
  "reachable (tsys_init (demoExits []) autoOs demoProto deService)
     (tsys_step demoExt (demoExits []) autoOs U demoProto deService) bobSys"
proof (rule reach_start)
  show "tsys_init (demoExits []) autoOs demoProto deService bobSys"
    unfolding tsys_init_def
    using demoExits_laws autoOs_laws demoProto_laws bob0_fresh bob_listens by (auto simp: bobSys_def)
qed

section \<open>Properties\<close>

text \<open>
  C21: what a successful \<open>Listen\<close> on a new client sets up: \<open>NumTunaListeners\<close> listeners on
  pairwise different valid ports that nobody held before and that are now bound, and one
  started exit for each, created for exactly that listener's port and with the fixed node when
  one was set.
\<close>

theorem listen_sets_up_exits:
  assumes "os_laws N" "listeners c = []" "tunaExits c = None"
    and "Listen X N compile dflt re c = (Ok (), c')"
  shows "int (length (listeners c')) = NumTunaListeners (config c) \<and> distinct (listeners c') \<and>
    (\<forall>p\<in>set (listeners c'). 0 < p \<and> p \<le> 65535 \<and> p \<notin> set (tcpBound (sockets c)) \<and> p \<in> set (tcpBound (sockets c'))) \<and>
    (\<exists>es. tunaExits c' = Some es \<and> length es = length (listeners c') \<and>
      (\<forall>i<length es. \<exists>te t. exitConfig (config c) = Ok t \<and>
         NewTunaExit X \<lparr>svName = ''session'', svTCP = [word_of_int (listeners c' ! i)],
           svUDP = [word_of_int (listeners c' ! i)]\<rparr> t = Ok te \<and>
         es ! i = StartReverse X (case tunaNode c of None \<Rightarrow> te | Some n \<Rightarrow> SetRemoteNode X te n)))"
proof -
  obtain as where st: "startExits X N (c\<lparr>acceptAddrs := as\<rparr>) = (Ok (), c')"
    using assms(2,4) by (auto simp: Listen_def Let_def split: outcome.splits if_splits)
  have "tunaExits (c\<lparr>acceptAddrs := as\<rparr>) = None" using assms(3) by simp
  from assms(1) this st show ?thesis
    by (rule startExits_ok) (auto simp: portService_def fixNode_def valid_port_def)
qed

theorem listen_sets_up_exits_witness:
  "listeners bob3 = [40000, 40001, 40002, 40003] \<and> (\<exists>es. tunaExits bob3 = Some es \<and> length es = 4)"
proof -
  have l: "listeners bob3 = [40000, 40001, 40002, 40003]" by (simp add: bob3_def bob2_def)
  with listen_sets_up_exits [OF autoOs_laws bob0_fields(1,3) bob_listens] show ?thesis by auto
qed

text \<open>
  C18: listeners, exits and announced addresses stay in step. While \<open>RotateOne\<close> calls (waiting
  and swapping in any order), repeated \<open>Listen\<close> and \<open>ListenUDP\<close> calls, \<open>Close\<close>, changes of node
  and configuration, and the exits' own life go on, exit \<open>i\<close> serves the port of listener
  \<open>i\<close>, and \<open>getPubAddrs\<close> announces one address per listener: entry \<open>i\<close> is the address of exit
  \<open>i\<close>, or empty while that exit is not connected. So the index under which a dialer opens its
  \<open>i\<close>-th connection is the index under which \<open>listenNet\<close> receives it.
\<close>

theorem exits_follow_listeners:
  assumes "reachable (tsys_init X N P svc) (tsys_step E X N U P svc) s" "i < length (listeners (tc s))"
  shows "\<exists>es pa a. tunaExits (tc s) = Some es \<and> length es = length (listeners (tc s)) \<and>
    distinct (listeners (tc s)) \<and> svc (es ! i) = portService (listeners (tc s) ! i) \<and>
    getPubAddrs X (tc s) includePrice = Some pa \<and> length (Addrs pa) = length (listeners (tc s)) \<and>
    Addrs pa ! i = Some a \<and>
    (if exitIP X (es ! i) \<noteq> [] \<and> exitPorts X (es ! i) \<noteq> []
     then IP a = exitIP X (es ! i) \<and> Port a = hd (exitPorts X (es ! i)) else \<not> usableAddr a)"
proof -
  have al: "aligned svc (tc s)" using tsys_invD(4) [OF xm.reachable_inv [OF assms(1)]] .
  then obtain es where es: "tunaExits (tc s) = Some es" "map svc es = map portService (listeners (tc s))"
    "length es = length (listeners (tc s))" by (rule aligned_exits)
  have "svc (es ! i) = portService (listeners (tc s) ! i)"
    using arg_cong [OF es(2), of "\<lambda>xs. xs ! i"] es(3) assms(2) by simp
  moreover have "distinct (listeners (tc s))" using al by (simp add: aligned_def)
  ultimately show ?thesis
    using es(1,3) assms(2) by (auto simp: getPubAddrs_def exitAddr_def usableAddr_def hd_conv_nth Let_def)
qed

theorem exits_follow_listeners_witness:
  "\<exists>pa a. getPubAddrs (demoExits []) (tc bobSys) False = Some pa \<and> length (Addrs pa) = 4 \<and>
     Addrs pa ! 3 = Some a \<and> IP a = ''9.9.9.9''"
proof -
  have l: "length (listeners (tc bobSys)) = 4" by (simp add: bobSys_def bob3_def bob2_def)
  have e: "tunaExits (tc bobSys) = Some (map bobExit [40000, 40001, 40002, 40003])"
    by (simp add: bobSys_def bob3_def)
  obtain es pa a where r: "tunaExits (tc bobSys) = Some es" "getPubAddrs (demoExits []) (tc bobSys) False = Some pa"
    "length (Addrs pa) = 4" "Addrs pa ! 3 = Some a"
    "if exitIP (demoExits []) (es ! 3) \<noteq> [] \<and> exitPorts (demoExits []) (es ! 3) \<noteq> []
     then IP a = exitIP (demoExits []) (es ! 3) \<and> Port a = hd (exitPorts (demoExits []) (es ! 3)) else \<not> usableAddr a"
    using exits_follow_listeners [OF bob_reachable, of 3 False] unfolding l by auto
  have "es ! 3 = bobExit 40003" using r(1) e by auto
  with r(5) have "IP a = ''9.9.9.9''" by (simp add: demoExits_def bobExit_def)
  with r show ?thesis by blast
qed

text \<open>
  C19: exactly when these interleavings panic, once \<open>Listen\<close> has succeeded. \<open>Listen\<close> itself does
  not any more, \<open>Close\<close> closes \<open>onClose\<close> once, and a rotation that has created its exit never
  swaps it in at an index that is not there and never meets a nil filter. \<open>RotateOne\<close> panics
  exactly for a negative index, and \<open>ListenUDP\<close> exactly when it has to make its session while
  \<open>MaxUdpDatagramBuffered\<close> is negative, which \<open>SetConfig\<close> does not prevent. No step panics otherwise.
\<close>

theorem exits_panic_exactly_when:
  assumes "reachable (tsys_init X N P svc) (tsys_step E X N U P svc) s"
    and "M = MaxUdpDatagramBuffered (config (tc s))"
  shows "fst (Listen X N compile dflt re (tc s)) \<noteq> Panic p \<and>
    (fst (ListenUDP X N newEnc (tc s)) = Panic p \<longleftrightarrow>
      listenerUdpSess (tc s) = None \<and> M < 0 \<and> p = MakeChanSize M) \<and>
    (newTunaExit X (tc s) i = Panic p \<longleftrightarrow> i < 0 \<and> p = IndexOutOfRange i) \<and>
    (\<forall>(j, te)\<in>set (pending s). RotateOne_swap X (tc s) j te \<noteq> Panic p) \<and>
    Close_client E X U P (tc s) \<noteq> Panic p \<and>
    (tsys_step E X N U P svc s (Panic p) \<longrightarrow>
      (\<exists>j<0. p = IndexOutOfRange j) \<or> listenerUdpSess (tc s) = None \<and> M < 0 \<and> p = MakeChanSize M)"
proof -
  note inv = xm.reachable_inv [OF assms(1)]
  note x = exit_sections_panic [OF inv]
  show ?thesis
    using x(1,3,5) x(2) [of newEnc p] x(4) tsys_step_panics [OF _ inv, of E U p]
    unfolding udpChanFails_def assms(2) by auto
qed

text \<open>Bob rotates the exit at -1, then the one at 2.\<close>

theorem exits_panic_exactly_when_witness:
  "newTunaExit (demoExits []) (tc bobSys) (- 1) = Panic (IndexOutOfRange (- 1)) \<and>
   newTunaExit (demoExits []) (tc bobSys) 2 \<noteq> Panic (IndexOutOfRange 2) \<and>
   fst (ListenUDP (demoExits []) autoOs (\<lambda>h p. demoOpen) (tc bobSys)) \<noteq> Panic (MakeChanSize 1024)"
proof -
  have "config (tc bobSys) = config bob0" by (simp add: bobSys_def bob3_def bob2_def)
  then have "0 \<le> MaxUdpDatagramBuffered (config (tc bobSys))" using bob0_fields(9) by simp
  then show ?thesis
    using exits_panic_exactly_when [OF bob_reachable refl, of _ _ _ "IndexOutOfRange (- 1)" _ "- 1"]
      exits_panic_exactly_when [OF bob_reachable refl, of _ _ _ "IndexOutOfRange 2" _ 2]
      exits_panic_exactly_when [OF bob_reachable refl, of _ _ _ "MakeChanSize 1024" "\<lambda>h p. demoOpen" 0]
    by auto
qed

section \<open>What \<open>Close\<close> ends\<close>

lemma closeSessions_closed:
  assumes "ext_laws E" "s \<in> snd ` set ss \<or> sessIsClosed E w s"
  shows "sessIsClosed E (closeSessions E ss w) s"
  using assms(2)
proof (induction ss arbitrary: w)
  case (Cons a ss)
  obtain k s' where a: "a = (k, s')" by (cases a)
  let ?w = "if sessIsClosed E w s' then w else sessClose E w s'"
  have "s = s' \<or> sessIsClosed E w s \<Longrightarrow> sessIsClosed E ?w s"
    using ext_lawsD(3,4) [OF assms(1)] by auto
  then have "s \<in> snd ` set ss \<or> sessIsClosed E ?w s" using Cons.prems by (auto simp only: a set_simps image_insert snd_conv)
  then show ?case unfolding a closeSessions.simps by (rule Cons.IH)
qed simp

lemma connIsClosed_rawWrite [simp]: "connIsClosed (rawWrite c p b) q = connIsClosed c q"
proof -
  have "connClosed k' = connClosed k" if "connWrite k b = (n, e, k')" for k n e k'
    using that by (auto simp: connWrite_def split: if_splits option.splits)
  then show ?thesis
    by (cases "mget (conns c) p") (auto simp: rawWrite_def connIsClosed_def split: prod.split option.split)
qed

lemma connIsClosed_sendCloseTo [simp]: "connIsClosed (sendCloseTo c x b usa) q = connIsClosed c q"
  by (simp add: sendCloseTo_def split: option.split)

lemma connIsClosed_sendClose_fold [simp]:
  "connIsClosed (foldl (\<lambda>c usa. sendCloseTo c x b usa) c as) q = connIsClosed c q"
  by (induction as arbitrary: c) simp_all

lemma sendCloseMsg_conns: "sendCloseMsg P c x a = Ok c' \<Longrightarrow> connIsClosed c' q = connIsClosed c q"
  by (auto simp: sendCloseMsg_def split: outcome.splits bool.splits option.splits)

lemma udp_close_conns:
  assumes "Close U P c x = Ok (e, c', x')" "connIsClosed c q"
  shows "connIsClosed c' q"
proof -
  obtain c1 where c1: "sendCloseMsg P c x None = Ok c1" using assms by (auto simp: Close_def)
  then have "connIsClosed c1 q" using sendCloseMsg_conns assms(2) by blast
  then show ?thesis using assms c1 by (auto simp: Close_def Let_def split: if_splits option.splits)
qed

lemma udp_close_conn:
  assumes "udp_laws U" "Close U P c x = Ok (e, c', x')" "\<not> isClosed c" "udpConn x' = Some u"
  shows "ucIsClosed U u"
proof -
  obtain c1 where c1: "sendCloseMsg P c x None = Ok c1" using assms by (auto simp: Close_def)
  then have "\<not> isClosed c1" using sendCloseMsg_config assms(3) by metis
  then show ?thesis
    using assms(2,4) c1 udp_lawsD(1) [OF assms(1)]
    by (auto simp: Close_def GetEstablishedUDPConn_def Let_def split: if_splits option.splits)
qed

lemma foldl_closeTCP:
  "distinct (tcpBound s) \<Longrightarrow>
   set (tcpBound (foldl closeTCP s ps)) = set (tcpBound s) - set ps \<and> distinct (tcpBound (foldl closeTCP s ps))"
  by (induction ps arbitrary: s) (auto simp: closeTCP_def)

lemma closedExits_ended:
  assumes "ext_laws E"
  shows "(k, se) \<in> set (sessions c) \<Longrightarrow> sessIsClosed E (world (closedExits E X c)) se"
    and "(k, m) \<in> set (sessionConns c) \<Longrightarrow> (i, p) \<in> set m \<Longrightarrow> connIsClosed (closedExits E X c) p"
proof -
  show "sessIsClosed E (world (closedExits E X c)) se" if "(k, se) \<in> set (sessions c)"
  proof -
    have "se \<in> snd ` set (sessions c)" using that by force
    then show ?thesis by (simp add: closedExits_def closeAll_def closeSessions_closed [OF assms])
  qed
  show "connIsClosed (closedExits E X c) p" if "(k, m) \<in> set (sessionConns c)" "(i, p) \<in> set m"
  proof -
    have "p \<in> set (allConns (c\<lparr>multiClosed := True, sockets := foldl closeTCP (sockets c) (listeners c)\<rparr>))"
      using that by (force simp: allConns_def)
    then have "connIsClosed (closeAll E (c\<lparr>multiClosed := True, sockets := foldl closeTCP (sockets c) (listeners c)\<rparr>)) p"
      by (simp add: closeAll_def)
    then show ?thesis by (simp add: closedExits_def connIsClosed_def)
  qed
qed

lemma closeUdpSess_ended:
  assumes "closeUdpSess U P c = Ok c'"
  shows "world c' = world c" and "connIsClosed c q \<Longrightarrow> connIsClosed c' q"
    and "udp_laws U \<Longrightarrow> \<not> isClosed c \<Longrightarrow> listenerUdpSess c' = Some x \<Longrightarrow> udpConn x = Some u \<Longrightarrow> ucIsClosed U u"
proof -
  show "world c' = world c" using closeUdpSess_frame [OF assms] by auto
  show "connIsClosed c' q" if "connIsClosed c q"
  proof (cases "listenerUdpSess c")
    case (Some y)
    then obtain e c1 x1 where "Close U P c y = Ok (e, c1, x1)" "c' = c1\<lparr>listenerUdpSess := Some x1\<rparr>"
      using assms by (auto simp: closeUdpSess_def)
    then show ?thesis using udp_close_conns that by (auto simp: connIsClosed_def)
  qed (use assms that in \<open>simp add: closeUdpSess_def\<close>)
  show "ucIsClosed U u" if "udp_laws U" "\<not> isClosed c" "listenerUdpSess c' = Some x" "udpConn x = Some u"
    using assms that udp_close_conn [OF that(1)] by (auto simp: closeUdpSess_def split: option.splits)
qed

text \<open>
  C20: \<open>Close\<close> ends everything the client owns, whatever fails on the way: the nkn client is
  closed, no listener's port stays bound, every registered session, every registered
  connection, every exit and the UDP connection of a UDP listener are closed, and \<open>onClose\<close> is
  closed, which ends \<open>AcceptSession\<close> and the waiting goroutines. A second \<open>Close\<close> changes
  nothing.
\<close>

theorem close_ends_everything:
  assumes "ext_laws E" "exit_laws X svc" "udp_laws U" "proto_laws P" "\<not> isClosed c" "\<not> onCloseClosed c"
    and "\<forall>x. listenerUdpSess c = Some x \<longrightarrow> isListener x" "distinct (tcpBound (sockets c))"
  shows "\<exists>c'. Close_client E X U P c = Ok c' \<and> isClosed c' \<and> onCloseClosed c' \<and> multiClosed c' \<and>
    set (tcpBound (sockets c')) = set (tcpBound (sockets c)) - set (listeners c) \<and>
    (\<forall>(k, se)\<in>set (sessions c). sessIsClosed E (world c') se) \<and>
    (\<forall>(k, m)\<in>set (sessionConns c). \<forall>(i, p)\<in>set m. connIsClosed c' p) \<and>
    (\<forall>es e. tunaExits c' = Some es \<longrightarrow> e \<in> set es \<longrightarrow> exitIsClosed X e) \<and>
    (\<forall>x u. listenerUdpSess c' = Some x \<longrightarrow> udpConn x = Some u \<longrightarrow> ucIsClosed U u) \<and>
    Close_client E X U P c' = Ok c'"
proof -
  have "Close_client E X U P c \<noteq> Panic p" for p
    using close_client_no_panic [OF assms(4), of c E X U p] assms(5-7) by auto
  moreover have "Close_client E X U P c \<noteq> Err e" for e
    using assms(5,6) by (cases "closeUdpSess U P (closedExits E X c)")
      (auto simp: Close_client_eq markClosed_def closeUdpSess_def Close_def sendCloseMsg_def Let_def
        split: option.splits outcome.splits if_splits bool.splits)
  ultimately obtain c' where c': "Close_client E X U P c = Ok c'" by (cases "Close_client E X U P c") auto
  then obtain c5 where c5: "closeUdpSess U P (closedExits E X c) = Ok c5" "c' = c5\<lparr>isClosed := True, onCloseClosed := True\<rparr>"
    using assms(5) by (auto simp: Close_client_eq markClosed_def split: if_splits)
  note f = close_client_fields [OF c' assms(5)] and u = closeUdpSess_ended [OF c5(1)] and d = closedExits_ended [OF assms(1)]
  have op: "\<not> isClosed (closedExits E X c)" using closedExits_frame [of E X c] assms(5) by auto
  have "sessIsClosed E (world c') se" if "(k, se) \<in> set (sessions c)" for k se
    using d(1) [OF that] u(1) by (simp add: c5(2))
  moreover have "connIsClosed c' p" if "(k, m) \<in> set (sessionConns c)" "(i, p) \<in> set m" for k m i p
    using u(2) [OF d(2) [OF that, of X]] by (simp add: c5(2) connIsClosed_def)
  moreover have "exitIsClosed X e" if "tunaExits c' = Some es" "e \<in> set es" for es e
    using that exit_lawsD(6) [OF assms(2)] by (auto simp: f(2))
  moreover have "ucIsClosed U w" if "listenerUdpSess c' = Some x" "udpConn x = Some w" for x w
    using u(3) [OF assms(3) op _ that(2)] that(1) by (simp add: c5(2))
  moreover have "Close_client E X U P c' = Ok c'" using f(6) by (simp add: Close_client_def)
  ultimately show ?thesis using c' f foldl_closeTCP [OF assms(8)] by (intro exI [of _ c']) auto
qed

text \<open>Bob listens on UDP too, has accepted Alice's session, and closes.\<close>

definition bob4 :: "(demo_world, demo_exit, demo_udp) tclient" where
  "bob4 = bob3\<lparr>listenerUdpSess := Some demoUs1, sessions := [(''alice:01'', 0)],
     sessionConns := [(''alice:01'', [(''0'', 7)])], conns := demoHeap\<rparr>"

theorem close_ends_everything_witness:
  "\<exists>c. Close_client demoExt (demoExits []) demoUdp demoProto bob4 = Ok c \<and> isClosed c \<and> tcpBound (sockets c) = [] \<and>
     connIsClosed c 7 \<and> sessIsClosed demoExt (world c) 0"
proof -
  have b: "\<not> isClosed bob4" "\<not> onCloseClosed bob4" "\<forall>x. listenerUdpSess bob4 = Some x \<longrightarrow> isListener x"
    "listeners bob4 = [40000, 40001, 40002, 40003]" "tcpBound (sockets bob4) = [40003, 40002, 40001, 40000]"
    "sessions bob4 = [(''alice:01'', 0)]" "sessionConns bob4 = [(''alice:01'', [(''0'', 7)])]"
    using fresh_tclientD(2,3) [OF bob0_fresh] by (simp_all add: bob4_def bob3_def bob2_def demoUs1_def demoUs0_def)
  show ?thesis
    using close_ends_everything [OF demoExt_laws demoExits_laws [of "[]"] demoUdp_laws demoProto_laws b(1,2,3)] b(4-7) by auto
qed

text \<open>
  A start that fails after the listeners were opened is not retried. When \<open>Listen\<close> opens its
  listeners and then fails to create an exit, it returns the error, but the listeners stay: the
  next \<open>Listen\<close> returns nil without starting any exit, no addresses are announced, and
  \<open>RotateOne\<close>, once it can create an exit, panics with an index out of range.
\<close>

lemma failed_start_not_retried:
  assumes "Listen X N compile dflt re c = (Err e, c')" "listeners c = []" "tunaExits c = None" "listeners c' \<noteq> []"
    and "getAcceptAddrs compile dflt re' = Ok as"
  shows "Listen X N compile dflt re' c' = (Ok (), c'\<lparr>acceptAddrs := as\<rparr>) \<and> getPubAddrs X c' b = None \<and>
    (newTunaExit X c' (int i) = Ok te \<longrightarrow> RotateOne X settle c' (int i) = (Panic (IndexOutOfRange (int i)), c'))"
proof -
  have "tunaExits c' = None"
    using assms(1-3) by (auto simp: Listen_def startExits_def Let_def split: outcome.splits if_splits prod.splits)
  then show ?thesis
    using assms(4,5) by (auto simp: Listen_def getPubAddrs_def RotateOne_def RotateOne_swap_def)
qed

lemma failed_start_not_retried_witness:
  "Listen (demoExits [portService 40003]) autoOs (\<lambda>_. None) [] None bob0 = (Err (ErrExt 3), bob2) \<and>
   Listen (demoExits [portService 40003]) autoOs (\<lambda>_. None) [] None bob2 = (Ok (), bob2) \<and>
   fst (RotateOne (demoExits [portService 40003]) id bob2 0) = Panic (IndexOutOfRange 0)"
proof -
  let ?X = "demoExits [portService 40003]"
  have four: "(4 :: nat) = Suc (Suc (Suc (Suc 0)))" by simp
  have l: "listeners bob2 = [40000, 40001, 40002, 40003]" by (simp add: bob2_def)
  have n: "portService 40000 \<noteq> portService 40003" "portService 40001 \<noteq> portService 40003"
    "portService 40002 \<noteq> portService 40003" by (simp_all add: portService_def)
  have "createExits ?X bob2 0 4 = Err (ErrExt 3)"
    unfolding four using bob2_newExit [of 0 "[portService 40003]"] bob2_newExit [of 1 "[portService 40003]"]
      bob2_newExit [of 2 "[portService 40003]"] bob2_newExit [of 3 "[portService 40003]"] n
    by (simp add: l)
  then have f: "Listen ?X autoOs (\<lambda>_. None) [] None bob0 = (Err (ErrExt 3), bob2)"
    by (simp add: Listen_def getAcceptAddrs_def bob0_fields bob_start)
  have "getAcceptAddrs (\<lambda>_. None) [] None = Ok [[]]" by (simp add: getAcceptAddrs_def)
  moreover have "bob2\<lparr>acceptAddrs := [[]]\<rparr> = bob2" by (simp add: bob2_def)
  moreover have "newTunaExit ?X bob2 (int 0) =
      Ok \<lparr>deService = portService 40000, deIP = [], dePorts = [], deClosed = False\<rparr>"
    using bob2_newExit [of 0 "[portService 40003]"] n by (simp add: l)
  ultimately show ?thesis
    using f failed_start_not_retried [OF f bob0_fields(1,3), of None "[[]]" False 0 _ id] l by simp
qed

text \<open>
  In the same way, a \<open>ListenUDP\<close> that fails after storing its session leaves it behind: the next
  call returns that session without an error, although it has no UDP connection and nothing
  receives for it.
\<close>

lemma startExits_udp: "startExits X N c = (r, c') \<Longrightarrow> listenerUdpSess c' = listenerUdpSess c"
  by (auto simp: startExits_def Let_def split: if_splits prod.splits outcome.splits)

lemma failed_listenUDP_returned:
  fixes c :: "('w, 'e, 'u) tclient"
  assumes "ListenUDP X N newEnc c = (Err e, c')" "listeners c \<noteq> []" "listenerUdpSess c = None" "listeners c' \<noteq> []"
  shows "\<exists>us. ListenUDP X N newEnc c' = (Ok us, c') \<and> udpConn us = None"
proof -
  obtain us :: "'u UdpSession" where us: "newUdpSession c True = Ok us" "udpConn us = None"
    using assms(1-3) by (auto simp: ListenUDP_def newUdpSession_def split: if_splits)
  obtain r c1 where st: "startExits X N (c\<lparr>listenerUdpSess := Some us\<rparr>) = (r, c1)"
    by (cases "startExits X N (c\<lparr>listenerUdpSess := Some us\<rparr>)")
  have "listenerUdpSess c' = Some us"
    using assms(1-3) us(1) st startExits_udp [OF st]
    by (auto simp: ListenUDP_def openUdpSess_def Let_def split: outcome.splits)
  then show ?thesis using assms(4) us(2) by (simp add: ListenUDP_def)
qed

end
