(* ===== verification/Serving.thy ===== *)
theory Serving
  imports Exit_Props Dialing Delivery
begin

text \<open>
  The loops of a listening client (\<open>client.go\<close>), put together from the parts of the other
  theories: the goroutine of an accepted connection from the handshake to the end of the
  session's traffic, the accept loop of \<open>listenNet\<close> and the request loop of \<open>listenNKN\<close>.
\<close>

section \<open>Accepted connections\<close>

text \<open>
  The goroutine of an accepted connection: after the handshake a UDP session's connection goes
  to \<open>handleUdpListenerTcp\<close>, any other to the session it names.
\<close>

definition listenNet_conn ::
  "'w ext \<Rightarrow> crypto \<Rightarrow> proto \<Rightarrow> matcher \<Rightarrow> 'u udp_ops \<Rightarrow> ('w, 'e, 'u) tclient \<Rightarrow> nat \<Rightarrow> int \<Rightarrow>
   ('w, 'e, 'u) tclient outcome" where
  "listenNet_conn E C P M U c conn i =
     (case listenNet_handshake C P M c conn of
        (Err e, c1) \<Rightarrow> Ok c1
      | (Panic p, c1) \<Rightarrow> Panic p
      | (Ok (remoteAddr, metadata), c1) \<Rightarrow>
          (let sessionID = Id metadata; sessionType = SessionType metadata in
           if sessionType = SessionType_UDP
           then obind (handleUdpListenerTcp U P c1 (listenerUdpSess c1) conn remoteAddr sessionID)
                  (\<lambda>(c2, lus). Ok (c2\<lparr>listenerUdpSess := lus\<rparr>))
           else listenNet_tcp E C c1 conn remoteAddr sessionID i))"

text \<open>
  The loop over what \<open>Accept\<close> returns: every connection gets a goroutine, an error ends the loop
  when the client is closed and is retried otherwise. Each event comes with what the other
  goroutines do to the client until it happens. The result lists the connections whose
  goroutines were started and whether the loop has returned.
\<close>

fun listenNet ::
  "('w, 'a) client_scheme \<Rightarrow> ((('w, 'a) client_scheme \<Rightarrow> ('w, 'a) client_scheme) \<times> Conn outcome) list \<Rightarrow>
   nat list \<times> bool \<times> ('w, 'a) client_scheme" where
  "listenNet c [] = ([], False, c)"
| "listenNet c ((others, Ok netConn) # rs) =
     (case allocConn (others c) netConn of (conn, c1) \<Rightarrow>
      (case listenNet c1 rs of (started, returned, c2) \<Rightarrow> (conn # started, returned, c2)))"
| "listenNet c ((others, _) # rs) =
     (let c1 = others c in if isClosed c1 then ([], True, c1) else listenNet c1 rs)"

section \<open>Address requests\<close>

text \<open>
  The loop over the messages of the nkn client, each what the others do until it arrives, its
  sender and the decoded request; the list ends when the channel is closed. The result are
  the replies, with their receivers.
\<close>

fun listenNKN ::
  "'w ext \<Rightarrow> matcher \<Rightarrow> 'e exit_ops \<Rightarrow> ('w, 'e, 'u) tclient \<Rightarrow>
   ((('w, 'e, 'u) tclient \<Rightarrow> ('w, 'e, 'u) tclient) \<times> string \<times> Request outcome) list \<Rightarrow>
   (string \<times> PubAddrs option) list" where
  "listenNKN E M X c [] = []"
| "listenNKN E M X c ((others, src, req) # msgs) =
     (let c1 = others c in
      case listenNKN_reply E M c1 src req (getPubAddrs X c1 False) of
        None \<Rightarrow> listenNKN E M X c1 msgs
      | Some reply \<Rightarrow> (src, reply) # listenNKN E M X c1 msgs)"

section \<open>Entry points of the package\<close>

text \<open>
  The methods that applications call around these parts. \<open>mergeDial\<close> is \<open>nkn.MergeDialConfig\<close>,
  given the session configuration and the caller's settings (\<open>None\<close>: nil).
\<close>

type_synonym dial_merger = "NcpConfig option \<Rightarrow> DialConfig option \<Rightarrow> DialConfig outcome"

definition Address :: "('w, 'a) client_scheme \<Rightarrow> string" where
  "Address c = addr c"

definition OnConnect :: "('w, 'a) client_scheme \<Rightarrow> bool" where
  "OnConnect c = onConnectClosed c"

definition IsClosed_client :: "('w, 'a) client_scheme \<Rightarrow> bool" where
  "IsClosed_client c = isClosed c"

definition Accept ::
  "'w ext \<Rightarrow> (nat \<Rightarrow> bool) \<Rightarrow> ('w, 'a) client_scheme \<Rightarrow> (nat outcome \<times> ('w, 'a) client_scheme) option" where
  "Accept E preferClose c = AcceptSession E preferClose c"

definition DialSession ::
  "'w ext \<Rightarrow> crypto \<Rightarrow> proto \<Rightarrow> (bytes \<Rightarrow> PubAddrs outcome) \<Rightarrow> dial_merger \<Rightarrow> ('w, 'a) client_scheme \<Rightarrow>
   string outcome \<Rightarrow> bytes outcome \<Rightarrow> attempt list \<Rightarrow> go_error \<Rightarrow> dial_run list \<Rightarrow> int \<Rightarrow>
   (nat option \<times> go_error option \<times> (nat \<times> nat) list) outcome \<times> ('w, 'a) client_scheme" where
  "DialSession E C P unjson mergeDial c resolved rndID attempts ctxErr runs now =
     DialWithConfig E C P unjson c (mergeDial (SessionConfig (config c)) None) resolved rndID attempts ctxErr runs now"

definition DialUDP ::
  "'u udp_ops \<Rightarrow> crypto \<Rightarrow> proto \<Rightarrow> (bytes \<Rightarrow> PubAddrs outcome) \<Rightarrow> (PubAddr \<Rightarrow> 'u outcome) \<Rightarrow> (PubAddr \<Rightarrow> string) \<Rightarrow>
   dial_merger \<Rightarrow> ('w, 'a) client_scheme \<Rightarrow> string outcome \<Rightarrow> bytes outcome \<Rightarrow> attempt list \<Rightarrow> go_error \<Rightarrow>
   Conn outcome \<Rightarrow> bytes outcome \<Rightarrow> int \<Rightarrow> 'u UdpSession outcome \<times> ('w, 'a) client_scheme" where
  "DialUDP U C P unjson dial uaOf mergeDial c resolved rndID att ctxErr net rnd now =
     DialUDPWithConfig U C P unjson dial uaOf c (mergeDial (SessionConfig (config c)) None) resolved rndID att ctxErr net rnd now"

text \<open>\<open>CloseTcp\<close> of a UDP session, a method for tests: a nil connection is dereferenced.\<close>

definition CloseTcp :: "('w, 'a) client_scheme \<Rightarrow> 'u UdpSession \<Rightarrow> ('w, 'a) client_scheme outcome" where
  "CloseTcp c x = (case tcpConn x of None \<Rightarrow> Panic NilDereference | Some p \<Rightarrow> Ok (closeConn c p))"

definition GetUDPConn :: "'u UdpSession \<Rightarrow> 'u option" where
  "GetUDPConn x = udpConn x"

section \<open>What the loops do\<close>

text \<open>
  While the client stays open, every accepted connection gets its goroutine and the loop goes
  on; the first error after it is closed ends the loop. Only accepted senders get replies.
\<close>

lemma listenNet_open:
  "\<forall>f\<in>set (map fst rs). \<forall>c. isClosed (f c) = isClosed c \<Longrightarrow> \<not> isClosed c \<Longrightarrow>
   length (fst (listenNet c rs)) = length (filter (\<lambda>r. \<exists>k. snd r = Ok k) rs) \<and> \<not> fst (snd (listenNet c rs))"
  by (induction c rs rule: listenNet.induct) (auto simp: allocConn_def Let_def split: prod.splits)

lemma listenNet_closed: "isClosed (others c) \<Longrightarrow> listenNet c ((others, Err e) # rs) = ([], True, others c)"
  by (simp add: Let_def)

lemma listenNKN_receivers: "fst ` set (listenNKN E M X c msgs) \<subseteq> (fst \<circ> snd) ` set msgs"
  by (induction E M X c msgs rule: listenNKN.induct) (auto simp: Let_def split: option.splits)

section \<open>A new session from its first byte to its last\<close>

text \<open>The byte stream of a dialed connection: address, metadata, packets.\<close>

definition dialStream :: "crypto \<Rightarrow> bytes \<Rightarrow> string \<Rightarrow> bytes \<times> bytes \<Rightarrow> (bytes \<times> bytes) list \<Rightarrow> bytes" where
  "dialStream C key a meta ps =
     frame (bytes_of_string a) @ packetFrame C key meta @ concat (map (packetFrame C key) ps)"

lemma listenNet_register_new:
  assumes "mget (sessions c) (sessionKey a sid) = None" "\<not> cacheGet E (world c) (sessionKey a sid)"
    and "0 \<le> NumTunaListeners (config c)"
    and "ncpNewSession E (world c) a (map (\<lambda>j. connID (int j)) [0..<nat (NumTunaListeners (config c))]) = (Ok sess, w)"
  shows "listenNet_register E c q a sid i = Ok (Some (sess, True),
    c\<lparr>world := w, sessions := mput (sessions c) (sessionKey a sid) sess,
      sessionConns := mput (sessionConns c) (sessionKey a sid) [(connID i, q)]\<rparr>)"
  using assms by (simp add: listenNet_register_def newSession_def Let_def)

text \<open>
  A whole \<open>handleConn\<close> comes down to its exit section, which finds the counts it made and
  whatever the loop did to the connections, keys and the outside world.
\<close>

lemma handleConn_reaches_exit:
  assumes c: "mget (sessions c) (sessionKey a sid) = Some sess" "addr_wf (addrConnCount c)"
    and loop: "\<And>cc ac. \<exists>c2. handleConn_loop E C (c\<lparr>connCount := cc, addrConnCount := ac\<rparr>) q sess i = (Ok e, c2) \<and> world c2 = w"
  shows "\<exists>str ac cs ks ac' ev. handleConn E C c (Some q) a sid i =
      handleConn_exit E (c\<lparr>connCount := mincr (connCount c) (sessionKey a sid), addrConnCount := ac,
        conns := cs, sharedKeys := ks, world := w\<rparr>)
        \<lparr>hRemote = a, hSid = sid, hIdx = i, hConn = q, hConnStr = str, hSess = sess\<rparr> \<and>
    addrConnDecr ac a str = Ok (ac', ev)"
proof -
  let ?k = "sessionKey a sid" and ?s = "case mget (conns c) q of None \<Rightarrow> [] | Some k \<Rightarrow> remoteStr k"
  let ?ac = "addrConnIncr (addrConnCount c) a ?s"
  let ?c1 = "c\<lparr>connCount := mincr (connCount c) ?k, addrConnCount := ?ac\<rparr>"
  obtain c2 where c2: "handleConn_loop E C ?c1 q sess i = (Ok e, c2)" "world c2 = w" using loop by blast
  from handleConn_loop_keeps [OF c2(1)] obtain cs ks where
    k2: "c2 = ?c1\<lparr>conns := cs, sharedKeys := ks, world := w\<rparr>" using c2(2) by metis
  have "0 \<le> addrCnt (addrConnCount c) (a, ?s)"
    using addr_wf_pos [OF c(2), of a _ ?s] by (force simp: addrCnt_def split: option.split)
  then have "0 < addrCnt ?ac (a, ?s)" using ac.cnt_inc [OF c(2), of "(a, ?s)" "(a, ?s)"] by (simp add: addrInc_def)
  then obtain ac' ev where "addrConnDecr ?ac a ?s = Ok (ac', ev)" using addrConnDecr_ok by blast
  then show ?thesis
    using c(1) c2(1) k2
    by (intro exI [of _ ?s] exI [of _ ?ac] exI [of _ cs] exI [of _ ks] exI [of _ ac'] exI [of _ ev])
       (simp add: handleConn_def handleConn_enter_def Let_def)
qed

text \<open>The session's only handler: when its connection ends, the session is dropped and closed.\<close>

lemma handleConn_last:
  assumes c: "mget (sessions c) (sessionKey a sid) = Some sess" "mget0 (connCount c) (sessionKey a sid) = 0"
      "addr_wf (addrConnCount c)"
    and loop: "\<And>cc ac. \<exists>c2. handleConn_loop E C (c\<lparr>connCount := cc, addrConnCount := ac\<rparr>) q sess i = (Ok e, c2) \<and> world c2 = w"
  shows "\<exists>c'. handleConn E C c (Some q) a sid i = Ok c' \<and> world c' = sessClose E (cacheAdd E w (sessionKey a sid)) sess \<and>
    mget (sessions c') (sessionKey a sid) = None \<and> mget (sessionConns c') (sessionKey a sid) = None \<and>
    mget0 (connCount c') (sessionKey a sid) = 0 \<and> acceptSession c' = acceptSession c"
  using handleConn_reaches_exit [OF c(1,3) loop] c(2)
  by (auto simp: handleConn_exit_def hKey_def dropSession_def Let_def)

text \<open>One handler among several: the session goes on without its connection.\<close>

lemma handleConn_joined:
  assumes c: "mget (sessions c) (sessionKey a sid) = Some sess" "0 < mget0 (connCount c) (sessionKey a sid)"
      "addr_wf (addrConnCount c)" "mget (sessionConns c) (sessionKey a sid) = Some m"
    and loop: "\<And>cc ac. \<exists>c2. handleConn_loop E C (c\<lparr>connCount := cc, addrConnCount := ac\<rparr>) q sess i = (Ok e, c2) \<and> world c2 = w"
  shows "\<exists>c'. handleConn E C c (Some q) a sid i = Ok c' \<and> world c' = w \<and>
    mget (sessions c') (sessionKey a sid) = Some sess \<and>
    mget (sessionConns c') (sessionKey a sid) = Some (mdel m (connID i)) \<and>
    mget0 (connCount c') (sessionKey a sid) = mget0 (connCount c) (sessionKey a sid) \<and>
    acceptSession c' = acceptSession c"
  using handleConn_reaches_exit [OF c(1,3) loop] c
  by (auto simp: handleConn_exit_def hKey_def deleteConn_def Let_def)

text \<open>The part after the handshake, for a session that is not registered yet.\<close>

lemma listenNet_tcp_new:
  assumes laws: "crypto_laws C" "0 < Overhead C" "remote_constant E sess"
    and new: "mget (sessions c) (sessionKey a sid) = None" "\<not> cacheGet E (world c) (sessionKey a sid)"
      "0 \<le> NumTunaListeners (config c)" "mget0 (connCount c) (sessionKey a sid) = 0" "addr_wf (addrConnCount c)"
      "length (acceptSession c) < acceptSessionBufSize"
      "ncpNewSession E (world c) a (map (\<lambda>j. connID (int j)) [0..<nat (NumTunaListeners (config c))]) = (Ok sess, w)"
    and inp: "canReceive E C (c\<lparr>world := w\<rparr>) q sess key sc k" "inBytes k = concat (map (packetFrame C key) (p # ps))"
      "\<forall>x\<in>set (p # ps). packetFits C sc x"
      "receiveAll E w sess (connID i) (map fst (p # ps)) = (Ok (), w')"
  shows "\<exists>c'. listenNet_tcp E C c q a sid i = Ok c' \<and> world c' = sessClose E (cacheAdd E w' (sessionKey a sid)) sess \<and>
    mget (sessions c') (sessionKey a sid) = None \<and> mget (sessionConns c') (sessionKey a sid) = None \<and>
    mget0 (connCount c') (sessionKey a sid) = 0 \<and> acceptSession c' = acceptSession c @ [sess] \<and> connIsClosed c' q"
proof -
  let ?k = "sessionKey a sid"
  let ?c1 = "c\<lparr>world := w, sessions := mput (sessions c) ?k sess, sessionConns := mput (sessionConns c) ?k [(connID i, q)]\<rparr>"
  have r1: "canReceive E C ?c1 q sess key sc k" using inp(1) by (simp add: canReceive_def keyring_ok_def)
  obtain w1 where w1: "sessReceiveWith E w sess (connID i) (fst p) = (Ok (), w1)"
      "receiveAll E w1 sess (connID i) (map fst ps) = (Ok (), w')"
    using inp(4) by (auto split: prod.splits outcome.splits)
  obtain c2 k2 where h: "handleMsg E C ?c1 q sess i = (Ok (), c2)" "world c2 = w1" "canReceive E C c2 q sess key sc k2"
      "inBytes k2 = concat (map (packetFrame C key) ps)"
    using handleMsg_ok [OF laws r1, of p "concat (map (packetFrame C key) ps)" i] inp(2,3) w1(1) by auto
  from handleMsg_keeps [OF h(1)] obtain cs ks where
    c2: "c2 = ?c1\<lparr>conns := cs, sharedKeys := ks, world := w1\<rparr>" using h(2) by metis
  let ?c3 = "offerSession c2 sess"
  have c3: "?c3 = c2\<lparr>acceptSession := acceptSession c @ [sess]\<rparr>" using new(6) by (simp add: offerSession_def c2)
  have loop: "\<exists>c4. handleConn_loop E C (?c3\<lparr>connCount := cc, addrConnCount := ac\<rparr>) q sess i = (Ok (inEnd k2), c4) \<and> world c4 = w'"
    for cc ac
  proof -
    have "canReceive E C (?c3\<lparr>connCount := cc, addrConnCount := ac\<rparr>) q sess key sc k2"
      using h(3) by (simp add: c3 canReceive_def keyring_ok_def)
    from handleConn_loop_ok [OF laws this h(4), of i] inp(3) w1(2) h(2) show ?thesis by (simp add: c3)
  qed
  have reg: "mget (sessions ?c3) ?k = Some sess" "mget0 (connCount ?c3) ?k = 0" "addr_wf (addrConnCount ?c3)"
    "acceptSession ?c3 = acceptSession c @ [sess]" using new(4,5) by (simp_all add: c3, simp_all add: c2)
  obtain c' where "handleConn E C ?c3 (Some q) a sid i = Ok c'" "world c' = sessClose E (cacheAdd E w' ?k) sess"
      "mget (sessions c') ?k = None" "mget (sessionConns c') ?k = None" "mget0 (connCount c') ?k = 0"
      "acceptSession c' = acceptSession c @ [sess]"
    using handleConn_last [OF reg(1-3) loop] reg(4) by auto
  then show ?thesis
    using listenNet_register_new [OF new(1-3,7), of q i] h(1) by (simp add: listenNet_tcp_def)
qed

text \<open>The part after the handshake, for a further connection of a running session.\<close>

lemma listenNet_tcp_joined:
  assumes laws: "crypto_laws C" "0 < Overhead C" "remote_constant E sess"
    and run: "mget (sessions c) (sessionKey a sid) = Some sess" "mget (sessionConns c) (sessionKey a sid) = Some m"
      "0 < mget0 (connCount c) (sessionKey a sid)" "addr_wf (addrConnCount c)"
    and inp: "canReceive E C c q sess key sc k" "inBytes k = concat (map (packetFrame C key) ps)"
      "\<forall>x\<in>set ps. packetFits C sc x" "receiveAll E (world c) sess (connID i) (map fst ps) = (Ok (), w)"
  shows "\<exists>c'. listenNet_tcp E C c q a sid i = Ok c' \<and> world c' = w \<and> mget (sessions c') (sessionKey a sid) = Some sess \<and>
    mget (sessionConns c') (sessionKey a sid) = Some (mdel (mput m (connID i) q) (connID i)) \<and>
    mget0 (connCount c') (sessionKey a sid) = mget0 (connCount c) (sessionKey a sid) \<and>
    acceptSession c' = acceptSession c \<and> connIsClosed c' q"
proof -
  let ?k = "sessionKey a sid"
  let ?c1 = "c\<lparr>sessionConns := mput (sessionConns c) ?k (mput m (connID i) q)\<rparr>"
  have reg: "listenNet_register E c q a sid i = Ok (Some (sess, False), ?c1)"
    using run(1,2) by (simp add: listenNet_register_def)
  have loop: "\<exists>c2. handleConn_loop E C (?c1\<lparr>connCount := cc, addrConnCount := ac\<rparr>) q sess i = (Ok (inEnd k), c2) \<and> world c2 = w"
    for cc ac
  proof -
    have "canReceive E C (?c1\<lparr>connCount := cc, addrConnCount := ac\<rparr>) q sess key sc k"
      using inp(1) by (simp add: canReceive_def keyring_ok_def)
    from handleConn_loop_ok [OF laws this inp(2,3), of i] inp(4) show ?thesis by simp
  qed
  have "mget (sessions ?c1) ?k = Some sess" "0 < mget0 (connCount ?c1) ?k" "addr_wf (addrConnCount ?c1)"
    "mget (sessionConns ?c1) ?k = Some (mput m (connID i) q)" using run by simp_all
  from handleConn_joined [OF this loop] reg show ?thesis by (auto simp: listenNet_tcp_def)
qed

section \<open>Properties\<close>

text \<open>
  C3: a new session is served from its first byte to its last. When an accepted connection
  carries a dialer's address, its session metadata and then packets, the goroutine of
  \<open>listenNet\<close> creates the session, hands it its first packet before offering it to
  \<open>AcceptSession\<close>, then hands it every further packet in order; when the connection ends, it
  drops and closes the session, records it as closed, and closes the connection. This is the
  goroutine alone, with the session's only connection; \<open>Session_Machine\<close> has the interleavings.
\<close>

theorem new_session_served:
  assumes "crypto_laws C" "0 < Overhead C" "proto_laws P" "remote_constant E sess"
    and "keyring_ok C l" "peerKey C (privKey l) a = Ok key" "shouldAcceptAddr M l a"
    and "mget (conns l) q = Some k" "inBytes k = dialStream C key a (raw, nonce) (p # ps)"
    and "MarshalMeta P md = Ok raw" "SessionType md = SessionType_TCP"
    and "length nonce = nonceSize" "length a \<le> 512" "length raw + Overhead C \<le> 1000"
    and "SessionConfig (config l) = Some sc" "\<forall>x\<in>set (p # ps). packetFits C sc x"
    and "mget (sessions l) (sessionKey a (Id md)) = None" "\<not> cacheGet E (world l) (sessionKey a (Id md))"
    and "0 \<le> NumTunaListeners (config l)" "mget0 (connCount l) (sessionKey a (Id md)) = 0"
    and "addr_wf (addrConnCount l)" "length (acceptSession l) < acceptSessionBufSize"
    and "ncpNewSession E (world l) a (map (\<lambda>j. connID (int j)) [0..<nat (NumTunaListeners (config l))]) = (Ok sess, w)"
    and "sessRemoteAddr E w sess = a" "receiveAll E w sess (connID i) (map fst (p # ps)) = (Ok (), w')"
  shows "\<exists>l'. listenNet_conn E C P M U l q i = Ok l' \<and> acceptSession l' = acceptSession l @ [sess] \<and>
    world l' = sessClose E (cacheAdd E w' (sessionKey a (Id md))) sess \<and>
    mget (sessions l') (sessionKey a (Id md)) = None \<and> mget (sessionConns l') (sessionKey a (Id md)) = None \<and>
    mget0 (connCount l') (sessionKey a (Id md)) = 0 \<and> connIsClosed l' q"
proof -
  obtain l1 k1 cs ks where h: "listenNet_handshake C P M l q = (Ok (a, md), l1)" "mget (conns l1) q = Some k1"
      "inBytes k1 = concat (map (packetFrame C key) (p # ps))" "l1 = l\<lparr>conns := cs, sharedKeys := ks\<rparr>" "keyring_ok C l1"
    using listenNet_handshake_reads [OF assms(1-3,5,6,8) _ assms(10,12-14,7)] assms(9)
    by (auto simp: dialStream_def packetFrame_def)
  have "canReceive E C (l1\<lparr>world := w\<rparr>) q sess key sc k1"
    using h(2,4,5) assms(6,15,24) by (simp add: canReceive_def keyring_ok_def)
  moreover have "mget (sessions l1) (sessionKey a (Id md)) = None" "\<not> cacheGet E (world l1) (sessionKey a (Id md))"
    "0 \<le> NumTunaListeners (config l1)" "mget0 (connCount l1) (sessionKey a (Id md)) = 0"
    "addr_wf (addrConnCount l1)" "length (acceptSession l1) < acceptSessionBufSize" "acceptSession l1 = acceptSession l"
    "ncpNewSession E (world l1) a (map (\<lambda>j. connID (int j)) [0..<nat (NumTunaListeners (config l1))]) = (Ok sess, w)"
    using assms(17-23) h(4) by simp_all
  ultimately obtain c' where "listenNet_tcp E C l1 q a (Id md) i = Ok c'" "world c' = sessClose E (cacheAdd E w' (sessionKey a (Id md))) sess"
    "mget (sessions c') (sessionKey a (Id md)) = None" "mget (sessionConns c') (sessionKey a (Id md)) = None"
    "mget0 (connCount c') (sessionKey a (Id md)) = 0" "acceptSession c' = acceptSession l @ [sess]" "connIsClosed c' q"
    using listenNet_tcp_new [OF assms(1,2,4) _ _ _ _ _ _ _ _ h(3) assms(16,25)] by metis
  then show ?thesis using h(1) assms(11) by (simp add: listenNet_conn_def SessionType_TCP_def SessionType_UDP_def)
qed

text \<open>Alice opens a session with three packets; her bytes reach Bob in one-byte segments.\<close>

definition bobServes :: "(demo_world, demo_exit, demo_udp) tclient" where
  "bobServes = bob0\<lparr>acceptAddrs := [[]], conns := [(5, newConn ''peer''
     (map (\<lambda>b. [b]) (dialStream demoCrypto (demoKey ''bob'' ''alice'') ''alice'' ([1, 1, 1, 0], replicate 24 9) alicePackets))
     ErrEOF)]\<rparr>"

lemma alice_meta: "MarshalMeta demoProto (dialMeta [1] 1) = Ok [1, 1, 1, 0]"
  by (simp add: demoProto_def demoMarshal_def putField_def bytes_of_string_def)

lemmas alice_eval = demo_overhead shouldAcceptAddr_iff acceptAny_def SessionType_TCP_def nonceSize_def logExt_def
  demoExt_def addr_wf_def demo_peerKey demoKey_sym

theorem new_session_served_witness:
  "\<exists>l'. listenNet_conn logExt demoCrypto demoProto acceptAny demoUdp bobServes 5 0 = Ok l' \<and>
     acceptSession l' = [0] \<and> dwClosed (world l') = [0] \<and>
     take 3 (dwCache (world l')) = [sessionKey ''alice'' [1], string_of_bytes [1, 2], []] \<and> connIsClosed l' 5"
proof -
  let ?md = "dialMeta [1] 1" and ?key = "demoKey ''bob'' ''alice''" and ?a = "alicePackets"
  let ?k = "newConn ''peer'' (map (\<lambda>b. [b]) (dialStream demoCrypto ?key ''alice'' ([1, 1, 1, 0], replicate 24 9) ?a)) ErrEOF"
  let ?w = "\<lparr>dwCache = [], dwClosed = [], dwRemote = [''alice'']\<rparr>"
  let ?w' = "\<lparr>dwCache = [string_of_bytes [1, 2], [], string_of_bytes [3]], dwClosed = [], dwRemote = [''alice'']\<rparr>"
  have l: "privKey bobServes = demoPub ''bob''" "sharedKeys bobServes = []" "acceptAddrs bobServes = [[]]"
    "mget (conns bobServes) 5 = Some ?k" "config bobServes = DefaultConfig demoNames" "sessions bobServes = []"
    "connCount bobServes = []" "addrConnCount bobServes = []" "acceptSession bobServes = []"
    "world bobServes = \<lparr>dwCache = [], dwClosed = [], dwRemote = []\<rparr>"
    by (simp_all add: bobServes_def bob0_def client.defs tclient.defs demoClient_def mget_def)
  have cfg: "SessionConfig (config bobServes) = Some DefaultSessionConfig" "NumTunaListeners (config bobServes) = 4"
    by (simp_all add: l DefaultConfig_def defaultConfig_def)
  have r: "receiveAll logExt ?w 0 (connID 0) (map fst ?a) = (Ok (), ?w')"
    "ncpNewSession logExt (world bobServes) ''alice'' ids = (Ok 0, ?w)" for ids
    by (simp add: logExt_receives) (simp add: logExt_def l demoExt_def)
  obtain x xs where a: "?a = x # xs" by (simp add: alicePackets_def)
  have "\<exists>l'. listenNet_conn logExt demoCrypto demoProto acceptAny demoUdp bobServes 5 0 = Ok l' \<and>
      acceptSession l' = acceptSession bobServes @ [0] \<and>
      world l' = sessClose logExt (cacheAdd logExt ?w' (sessionKey ''alice'' (Id ?md))) 0 \<and>
      mget (sessions l') (sessionKey ''alice'' (Id ?md)) = None \<and>
      mget (sessionConns l') (sessionKey ''alice'' (Id ?md)) = None \<and>
      mget0 (connCount l') (sessionKey ''alice'' (Id ?md)) = 0 \<and> connIsClosed l' 5"
  proof (rule new_session_served [OF demoCrypto_laws _ demoProto_laws logExt_remote _ _ _ l(4) _ alice_meta _ _ _ _ cfg(1)
        alicePackets_fit [unfolded a] _ _ _ _ _ _ r(2) _ r(1) [unfolded a]])
    show "inBytes ?k = dialStream demoCrypto ?key ''alice'' ([1, 1, 1, 0], replicate 24 9) (x # xs)"
      unfolding a by (simp add: inBytes_def newConn_def)
  qed (simp_all add: l cfg(2) [unfolded l(5)] alice_eval acceptSessionBufSize_def)
  then show ?thesis by (auto simp: l logExt_def demoExt_def)
qed

text \<open>
  C4: a session goes on over its other connections. A further connection of a session that
  has running handlers is entered under its own index; the session is not offered a second
  time, gets the connection's packets in order under that index, and when the connection ends
  it loses this connection only: it stays registered, is not closed, and its handler count is
  what it was before.
\<close>

theorem further_connection_served:
  assumes "crypto_laws C" "0 < Overhead C" "proto_laws P" "remote_constant E sess"
    and "keyring_ok C l" "peerKey C (privKey l) a = Ok key" "shouldAcceptAddr M l a"
    and "mget (conns l) q = Some k" "inBytes k = dialStream C key a (raw, nonce) ps"
    and "MarshalMeta P md = Ok raw" "SessionType md = SessionType_TCP"
    and "length nonce = nonceSize" "length a \<le> 512" "length raw + Overhead C \<le> 1000"
    and "SessionConfig (config l) = Some sc" "\<forall>x\<in>set ps. packetFits C sc x"
    and "mget (sessions l) (sessionKey a (Id md)) = Some sess" "mget (sessionConns l) (sessionKey a (Id md)) = Some m"
    and "0 < mget0 (connCount l) (sessionKey a (Id md))" "addr_wf (addrConnCount l)"
    and "sessRemoteAddr E (world l) sess = a" "receiveAll E (world l) sess (connID i) (map fst ps) = (Ok (), w)"
  shows "\<exists>l'. listenNet_conn E C P M U l q i = Ok l' \<and> acceptSession l' = acceptSession l \<and> world l' = w \<and>
    mget (sessions l') (sessionKey a (Id md)) = Some sess \<and>
    mget (sessionConns l') (sessionKey a (Id md)) = Some (mdel (mput m (connID i) q) (connID i)) \<and>
    mget0 (connCount l') (sessionKey a (Id md)) = mget0 (connCount l) (sessionKey a (Id md)) \<and> connIsClosed l' q"
proof -
  obtain l1 k1 cs ks where h: "listenNet_handshake C P M l q = (Ok (a, md), l1)" "mget (conns l1) q = Some k1"
      "inBytes k1 = concat (map (packetFrame C key) ps)" "l1 = l\<lparr>conns := cs, sharedKeys := ks\<rparr>" "keyring_ok C l1"
    using listenNet_handshake_reads [OF assms(1-3,5,6,8) _ assms(10,12-14,7)] assms(9)
    by (auto simp: dialStream_def packetFrame_def)
  have r: "canReceive E C l1 q sess key sc k1" using h(2,4,5) assms(6,15,21) by (simp add: canReceive_def)
  have "mget (sessions l1) (sessionKey a (Id md)) = Some sess" "mget (sessionConns l1) (sessionKey a (Id md)) = Some m"
    "0 < mget0 (connCount l1) (sessionKey a (Id md))" "addr_wf (addrConnCount l1)"
    "receiveAll E (world l1) sess (connID i) (map fst ps) = (Ok (), w)"
    using assms(17-20,22) h(4) by simp_all
  from listenNet_tcp_joined [OF assms(1,2,4) this(1-4) r h(3) assms(16) this(5)] show ?thesis
    using h(1,4) assms(11) by (auto simp: listenNet_conn_def SessionType_TCP_def SessionType_UDP_def)
qed

text \<open>Alice's session 0 runs over connection 3; her second connection brings three packets.\<close>

definition bobJoined :: "(demo_world, demo_exit, demo_udp) tclient" where
  "bobJoined = bobServes\<lparr>sessions := [(sessionKey ''alice'' [1], 0)], connCount := [(sessionKey ''alice'' [1], 1)],
     sessionConns := [(sessionKey ''alice'' [1], [(''0'', 3)])],
     world := \<lparr>dwCache = [], dwClosed = [], dwRemote = [''alice'']\<rparr>\<rparr>"

theorem further_connection_served_witness:
  "\<exists>l'. listenNet_conn logExt demoCrypto demoProto acceptAny demoUdp bobJoined 5 1 = Ok l' \<and>
     acceptSession l' = [] \<and> dwClosed (world l') = [] \<and> mget (sessions l') (sessionKey ''alice'' [1]) = Some 0 \<and>
     dwCache (world l') = [string_of_bytes [1, 2], [], string_of_bytes [3]] \<and> connIsClosed l' 5"
proof -
  let ?md = "dialMeta [1] 1" and ?key = "demoKey ''bob'' ''alice''" and ?a = "alicePackets"
  let ?k = "newConn ''peer'' (map (\<lambda>b. [b]) (dialStream demoCrypto ?key ''alice'' ([1, 1, 1, 0], replicate 24 9) ?a)) ErrEOF"
  let ?w' = "\<lparr>dwCache = [string_of_bytes [1, 2], [], string_of_bytes [3]], dwClosed = [], dwRemote = [''alice'']\<rparr>"
  have l: "privKey bobJoined = demoPub ''bob''" "sharedKeys bobJoined = []" "acceptAddrs bobJoined = [[]]"
    "mget (conns bobJoined) 5 = Some ?k" "config bobJoined = DefaultConfig demoNames"
    "sessions bobJoined = [(sessionKey ''alice'' [1], 0)]" "connCount bobJoined = [(sessionKey ''alice'' [1], 1)]"
    "addrConnCount bobJoined = []" "acceptSession bobJoined = []"
    "sessionConns bobJoined = [(sessionKey ''alice'' [1], [(''0'', 3)])]"
    "world bobJoined = \<lparr>dwCache = [], dwClosed = [], dwRemote = [''alice'']\<rparr>"
    by (simp_all add: bobJoined_def bobServes_def bob0_def client.defs tclient.defs demoClient_def mget_def)
  have cfg: "SessionConfig (config bobJoined) = Some DefaultSessionConfig"
    by (simp add: l DefaultConfig_def defaultConfig_def)
  have r: "receiveAll logExt (world bobJoined) 0 (connID 1) (map fst ?a) = (Ok (), ?w')"
    by (simp add: l logExt_receives)
  have "\<exists>l'. listenNet_conn logExt demoCrypto demoProto acceptAny demoUdp bobJoined 5 1 = Ok l' \<and>
      acceptSession l' = acceptSession bobJoined \<and> world l' = ?w' \<and>
      mget (sessions l') (sessionKey ''alice'' (Id ?md)) = Some 0 \<and>
      mget (sessionConns l') (sessionKey ''alice'' (Id ?md)) = Some (mdel (mput [(''0'', 3)] (connID 1) 5) (connID 1)) \<and>
      mget0 (connCount l') (sessionKey ''alice'' (Id ?md)) = mget0 (connCount bobJoined) (sessionKey ''alice'' (Id ?md)) \<and>
      connIsClosed l' 5"
  proof (rule further_connection_served [OF demoCrypto_laws _ demoProto_laws logExt_remote _ _ _ l(4) _ alice_meta _ _ _ _ cfg alicePackets_fit _ _ _ _ _ r])
    show "inBytes ?k = dialStream demoCrypto ?key ''alice'' ([1, 1, 1, 0], replicate 24 9) ?a"
      by (simp add: inBytes_def newConn_def)
  qed (simp_all add: l alice_eval mget_def mget0_def)
  then show ?thesis by (auto simp: l)
qed

text \<open>An exit that a dialer can reach.\<close>

definition exitReachable :: "'e exit_ops \<Rightarrow> 'e \<Rightarrow> bool" where
  "exitReachable X e \<longleftrightarrow> exitIP X e \<noteq> [] \<and> exitPorts X e \<noteq> [] \<and> hd (exitPorts X e) \<noteq> 0"

lemma usable_exitAddr: "usableAddr (exitAddr X b e) = exitReachable X e"
  by (auto simp: usableAddr_def exitAddr_def exitReachable_def hd_conv_nth Let_def)

lemma someUsable_Some: "someUsable (map Some as) = Ok (\<exists>a\<in>set as. usableAddr a)"
  by (induction as) auto

lemma dialTargets_Some:
  "dialTargets v n (map Some as) = Ok (filter (\<lambda>i. usableAddr (as ! (i - n))) [n..<n + length as])"
proof (induction as arbitrary: n)
  case (Cons a as)
  have "filter (\<lambda>i. usableAddr ((a # as) ! (i - n))) [Suc n..<Suc n + length as] =
      filter (\<lambda>i. usableAddr (as ! (i - Suc n))) [Suc n..<Suc n + length as]"
    by (rule filter_cong) (auto simp: nth_Cons')
  moreover have "[n..<n + length (a # as)] = n # [Suc n..<Suc n + length as]"
    by (simp add: upt_conv_Cons del: upt_Suc)
  ultimately show ?case using Cons by (auto simp: usableAddr_def simp del: upt_Suc)
qed simp

text \<open>
  C10: a dialer connects to exactly the exits that are up. In every state of a listening client
  that its calls, rotations and failing exits can lead to, the reply of \<open>listenNKN\<close> to an
  address query makes \<open>DialWithConfig\<close> open one connection per reachable exit, each under the
  index of the listener behind it; with no exit reachable the query fails with
  \<open>ErrNoPubAddr\<close>. The two sides pass the reply through \<open>json.Marshal\<close> and \<open>json.Unmarshal\<close>.
\<close>

theorem dialer_opens_reachable_exits:
  assumes "reachable (tsys_init X N P svc) (tsys_step E X N U P svc) s"
    and "shouldAcceptAddr M (tc s) (addr d)" "\<not> IsSessClosed E (tc s) (sessionKey (addr d) sid)"
    and "getCachedPubAddrs d remote = None" "\<forall>pa. getPubAddrs X (tc s) False = Some pa \<longrightarrow> unjson (tojson (Some pa)) = Ok pa"
  shows "\<exists>es pa. tunaExits (tc s) = Some es \<and> length es = length (listeners (tc s)) \<and>
    listenNKN E M X (tc s) [(id, addr d, Ok \<lparr>Action = ActionGetPubAddr, SessionID = sid\<rparr>)] = [(addr d, Some pa)] \<and>
    (if \<exists>e\<in>set es. exitReachable X e
     then fst (getPubAddrsFromRemote unjson d remote [Replied (tojson (Some pa))] ctxErr) = Ok pa \<and>
       dialTargets v 0 (Addrs pa) = Ok (filter (\<lambda>i. exitReachable X (es ! i)) [0..<length (listeners (tc s))])
     else getPubAddrsFromRemote unjson d remote [Replied (tojson (Some pa))] ctxErr = (Err ErrNoPubAddr, d))"
proof -
  have "aligned svc (tc s)" using tsys_invD(4) [OF xm.reachable_inv [OF assms(1)]] .
  then obtain es where es: "tunaExits (tc s) = Some es" "length es = length (listeners (tc s))"
    by (rule aligned_exits)
  define as where "as = map (exitAddr X False) es"
  define pa where "pa = \<lparr>Addrs = map Some as, SessionClosed = False\<rparr>"
  have g: "getPubAddrs X (tc s) False = Some pa" using es(1) by (simp add: getPubAddrs_def pa_def as_def)
  have q: "getPubAddrsFromRemote unjson d remote [Replied (tojson (Some pa))] ctxErr = takeReply d remote pa"
    using assms(4,5) g by (simp add: getPubAddrsFromRemote_def awaitReply_def)
  have ex: "(\<exists>a\<in>set as. usableAddr a) = (\<exists>e\<in>set es. exitReachable X e)" by (simp add: as_def usable_exitAddr)
  have t: "takeReply d remote pa = (if \<exists>e\<in>set es. exitReachable X e
      then (Ok pa, d\<lparr>pubAddrs := mput (pubAddrs d) remote pa\<rparr>) else (Err ErrNoPubAddr, d))"
    by (simp add: takeReply_def pa_def someUsable_Some ex split: bool.split)
  have "filter (\<lambda>i. usableAddr (as ! (i - 0))) [0..<0 + length as] =
      filter (\<lambda>i. exitReachable X (es ! i)) [0..<length (listeners (tc s))]"
    by (rule filter_cong) (auto simp: as_def usable_exitAddr es(2))
  then have "dialTargets v 0 (Addrs pa) = Ok (filter (\<lambda>i. exitReachable X (es ! i)) [0..<length (listeners (tc s))])"
    using dialTargets_Some [of v 0 as] by (simp add: pa_def)
  with es g q t show ?thesis
    using assms(2,3) by (intro exI [of _ es] exI [of _ pa]) (simp add: listenNKN_reply_def)
qed

text \<open>All four of Bob's exits are up.\<close>

definition bobReply :: PubAddrs where
  "bobReply = \<lparr>Addrs = replicate 4 (Some (exitAddr (demoExits []) False (bobExit 40000))), SessionClosed = False\<rparr>"

theorem dialer_opens_reachable_exits_witness:
  "listenNKN demoExt acceptAny (demoExits []) (tc bobSys)
      [(id, ''alice'', Ok \<lparr>Action = ActionGetPubAddr, SessionID = [1]\<rparr>)] = [(''alice'', Some bobReply)] \<and>
   dialTargets False 0 (Addrs bobReply) = Ok [0, 1, 2, 3]"
proof -
  have b: "tunaExits (tc bobSys) = Some (map bobExit [40000, 40001, 40002, 40003])" "length (listeners (tc bobSys)) = 4"
    "acceptAddrs (tc bobSys) = [[]]" "sessions (tc bobSys) = []" "world (tc bobSys) = \<lparr>dwCache = [], dwClosed = [], dwRemote = []\<rparr>"
    by (simp_all add: bobSys_def bob3_def bob2_def bob0_def client.defs tclient.defs demoClient_def)
  have up: "exitReachable (demoExits []) (bobExit p)" for p
    by (simp add: exitReachable_def demoExits_def bobExit_def)
  have g: "getPubAddrs (demoExits []) (tc bobSys) False = Some bobReply"
    by (simp add: getPubAddrs_def b bobReply_def numeral_eq_Suc) (simp add: exitAddr_def demoExits_def bobExit_def)
  have h: "shouldAcceptAddr acceptAny (tc bobSys) (addr (demoClient ''alice''))"
    "\<not> IsSessClosed demoExt (tc bobSys) (sessionKey (addr (demoClient ''alice'')) [1])"
    "getCachedPubAddrs (demoClient ''alice'') ''bob'' = None"
    "\<forall>pa. getPubAddrs (demoExits []) (tc bobSys) False = Some pa \<longrightarrow> (\<lambda>_. Ok bobReply) ((\<lambda>_. []) (Some pa)) = Ok pa"
    by (simp_all add: shouldAcceptAddr_iff acceptAny_def IsSessClosed_def demoExt_def b getCachedPubAddrs_def g)
       (simp_all add: demoClient_def)
  have a: "addr (demoClient ''alice'') = ''alice''" by (simp add: demoClient_def)
  have four: "[0..<4] = [0, 1, 2, 3 :: nat]" by (simp add: upt_rec)
  obtain es pa where r: "tunaExits (tc bobSys) = Some es"
    "listenNKN demoExt acceptAny (demoExits []) (tc bobSys) [(id, ''alice'', Ok \<lparr>Action = ActionGetPubAddr, SessionID = [1]\<rparr>)] = [(''alice'', Some pa)]"
    "(\<exists>e\<in>set es. exitReachable (demoExits []) e) \<longrightarrow>
      dialTargets False 0 (Addrs pa) = Ok (filter (\<lambda>i. exitReachable (demoExits []) (es ! i)) [0..<4])"
    using dialer_opens_reachable_exits [where unjson = "\<lambda>_. Ok bobReply" and tojson = "\<lambda>_. []" and ctxErr = ErrEOF and v = False,
        OF bob_reachable [of demoUdp] h(1-3)] h(4) unfolding a b(2) by metis
  have es: "es = map bobExit [40000, 40001, 40002, 40003]" using r(1) b(1) by simp
  have "pa = bobReply" using r(2) h(1,2) g unfolding a by (simp add: listenNKN_reply_def)
  with r(2,3) show ?thesis by (simp add: es up four)
qed

end
