(* ===== verification/Examples.thy ===== *)
theory Examples
  imports Exits
begin

text \<open>
  The example programs. \<open>examples/throughput/main.go\<close> measures a session: \<open>write\<close> sends a length and
  then that many bytes of a fixed pattern, \<open>read\<close> receives and checks them, and \<open>readUDP\<close> and
  \<open>writeUDP\<close> do the like with datagrams. A \<open>net.Conn\<close> is a connection of \<open>Message\<close>; progress
  messages are left out, but not the divisions they compute. Of the two \<open>main\<close> functions the
  configuration they build from their flags and the address they dial by default are here,
  the rest is in \<open>Example_Main\<close>.
\<close>

section \<open>Reading\<close>

text \<open>The four bytes of the length; unlike \<open>io.ReadFull\<close> the loop passes errors on as they are.\<close>

function readHeader :: "Conn \<Rightarrow> bytes \<Rightarrow> bytes outcome \<times> Conn" where
  "readHeader c b =
     (if 4 \<le> length b then (Ok b, c)
      else (case connRead c (4 - length b) of
              (_, Some e, c1) \<Rightarrow> (Err e, c1)
            | (m, None, c1) \<Rightarrow> readHeader c1 (b @ m)))"
  by pat_completeness auto
termination
  by (relation "measure (\<lambda>(c, b). segWeight c)") (auto intro: connRead_decreases [OF sym])

declare readHeader.simps [simp del]

text \<open>The byte expected at a position, and the loop that checks one buffer.\<close>

definition patternByte :: "nat \<Rightarrow> byte" where
  "patternByte i = word_of_nat (i mod 256)"

fun checkBytes :: "nat \<Rightarrow> bytes \<Rightarrow> nat outcome" where
  "checkBytes bytesReceived [] = Ok bytesReceived"
| "checkBytes bytesReceived (x # xs) =
     (if x \<noteq> patternByte bytesReceived
      then Err (ErrWrongByte (int bytesReceived) (int bytesReceived mod 256) x)
      else checkBytes (bytesReceived + 1) xs)"

text \<open>
  The progress test divides by \<open>numBytes\<close> after every read; the quotients themselves only
  decide whether a line is logged.
\<close>

function readData :: "Conn \<Rightarrow> nat \<Rightarrow> nat \<Rightarrow> unit outcome \<times> Conn" where
  "readData c numBytes bytesReceived =
     (case connRead c 1024 of
        (_, Some e, c1) \<Rightarrow> (Err e, c1)
      | (b, None, c1) \<Rightarrow>
          (case checkBytes bytesReceived b of
             Err e \<Rightarrow> (Err e, c1)
           | Panic p \<Rightarrow> (Panic p, c1)
           | Ok received \<Rightarrow>
               if numBytes = 0 then (Panic DivideByZero, c1)
               else if received = numBytes then (Ok (), c1)
               else readData c1 numBytes received))"
  by pat_completeness auto
termination
  by (relation "measure (\<lambda>(c, n, r). segWeight c)") (auto intro: connRead_decreases [OF sym])

declare readData.simps [simp del]

definition throughput_read :: "Conn \<Rightarrow> unit outcome \<times> Conn" where
  "throughput_read sess =
     (case readHeader sess [] of
        (Err e, c1) \<Rightarrow> (Err e, c1)
      | (Panic p, c1) \<Rightarrow> (Panic p, c1)
      | (Ok b, c1) \<Rightarrow> (let numBytes = unat (leUint32 b) in readData c1 numBytes 0))"

section \<open>Writing\<close>

text \<open>
  One block per 1024 bytes, each continuing the pattern where the last one stopped. The
  quotients of the progress test have a nonzero divisor here: the loop runs at least once.
\<close>

fun writeBlocks :: "Conn \<Rightarrow> nat \<Rightarrow> nat \<Rightarrow> unit outcome \<times> Conn" where
  "writeBlocks sess bytesSent 0 = (Ok (), sess)"
| "writeBlocks sess bytesSent (Suc k) =
     (let b = map patternByte [bytesSent..<bytesSent + 1024] in
      case connWrite sess b of
        (_, Some e, c1) \<Rightarrow> (Err e, c1)
      | (n, None, c1) \<Rightarrow>
          if n \<noteq> length b then (Err (ErrShortWrite n (length b)), c1)
          else writeBlocks c1 (bytesSent + 1024) k)"

definition throughput_write :: "Conn \<Rightarrow> int \<Rightarrow> unit outcome \<times> Conn" where
  "throughput_write sess numBytes =
     (case connWrite sess (putUint32 (word_of_int numBytes)) of
        (_, Some e, c1) \<Rightarrow> (Err e, c1)
      | (_, None, c1) \<Rightarrow> writeBlocks c1 0 (nat (goDiv numBytes 1024)))"

section \<open>What arrives is what was sent\<close>

definition patternBytes :: "nat \<Rightarrow> nat \<Rightarrow> bytes" where
  "patternBytes i n = map patternByte [i..<i + n]"

lemma patternBytes_add: "patternBytes i (n + k) = patternBytes i n @ patternBytes (i + n) k"
  using upt_add_eq_append [of i "i + n" k] by (simp add: patternBytes_def add.assoc)

lemma length_patternBytes [simp]: "length (patternBytes i n) = n"
  by (simp add: patternBytes_def)

lemma patternBytes_Suc: "patternBytes i (Suc n) = patternByte i # patternBytes (Suc i) n"
  by (simp add: patternBytes_def upt_conv_Cons del: upt_Suc)

lemma checkBytes_pattern: "checkBytes r (patternBytes r n) = Ok (r + n)"
  by (induction n arbitrary: r) (simp add: patternBytes_def, simp add: patternBytes_Suc)

lemma checkBytes_Ok: "checkBytes r b = Ok r' \<longleftrightarrow> b = patternBytes r (length b) \<and> r' = r + length b"
  by (induction r b rule: checkBytes.induct) (auto simp: patternBytes_Suc, auto simp: patternBytes_def)

lemma readHeader_ok:
  "length b \<le> 4 \<Longrightarrow> 4 \<le> length (b @ inBytes c) \<Longrightarrow>
   \<exists>c'. readHeader c b = (Ok (take 4 (b @ inBytes c)), c') \<and> inBytes c' = drop 4 (b @ inBytes c)"
proof (induction c b rule: readHeader.induct)
  case (1 c b)
  show ?case
  proof (cases "length b = 4")
    case True
    then show ?thesis by (subst readHeader.simps) simp
  next
    case False
    obtain m r c1 where cr: "connRead c (4 - length b) = (m, r, c1)" by (metis prod_cases3)
    show ?thesis
    proof (cases r)
      case None
      note R = connRead_None [OF cr [unfolded None]]
      then have "\<exists>c'. readHeader c1 (b @ m) = (Ok (take 4 ((b @ m) @ inBytes c1)), c') \<and> inBytes c' = drop 4 ((b @ m) @ inBytes c1)"
        using 1 False cr None by auto
      then show ?thesis using R False 1(2) cr None by (subst readHeader.simps) auto
    next
      case (Some e)
      then show ?thesis using connRead_Some [OF cr [unfolded Some]] False 1 by simp
    qed
  qed
qed

lemma readHeader_put:
  "inBytes r = putUint32 v @ rest \<Longrightarrow> \<exists>r1. readHeader r [] = (Ok (putUint32 v), r1) \<and> inBytes r1 = rest"
  using readHeader_ok [of "[]" r] by simp

lemma readData_ok:
  "0 < numBytes \<Longrightarrow> received < numBytes \<Longrightarrow> inBytes c = patternBytes received (numBytes - received) \<Longrightarrow>
   \<exists>c'. readData c numBytes received = (Ok (), c') \<and> inBytes c' = []"
proof (induction c numBytes received rule: readData.induct)
  case (1 c numBytes received)
  obtain b r c1 where cr: "connRead c 1024 = (b, r, c1)" by (metis prod_cases3)
  have ne: "inBytes c \<noteq> []" using 1(3,4) by (auto dest: arg_cong [of _ _ length])
  have r: "r = None" using connRead_Some [of c 1024 b _ c1] cr ne by (cases r) auto
  note R = connRead_None [OF cr [unfolded r]]
  let ?n = "length b"
  have len: "?n \<le> numBytes - received" using R 1(4) by (metis length_append length_patternBytes le_add1)
  then have split: "patternBytes received ?n @ patternBytes (received + ?n) (numBytes - (received + ?n)) = b @ inBytes c1"
    using patternBytes_add [of received ?n "numBytes - received - ?n"] R 1(3,4) by simp
  then have b: "b = patternBytes received ?n" "inBytes c1 = patternBytes (received + ?n) (numBytes - (received + ?n))"
    by (metis append_eq_append_conv length_patternBytes)+
  have ck: "checkBytes received b = Ok (received + ?n)" using b(1) checkBytes_pattern by metis
  show ?case
  proof (cases "received + ?n = numBytes")
    case True
    then have "inBytes c1 = []" using b(2) by (simp add: patternBytes_def)
    then show ?thesis using cr r ck True 1(2) by (subst readData.simps) simp
  next
    case False
    then have "received + ?n < numBytes" using len 1(3) by simp
    then have "\<exists>c'. readData c1 numBytes (received + ?n) = (Ok (), c') \<and> inBytes c' = []"
      using 1(1) [OF cr [symmetric] _ r ck] 1(2) False b(2) by auto
    then show ?thesis using cr r ck False 1(2) by (subst readData.simps) simp
  qed
qed

lemma writeBlocks_ok:
  "\<not> connClosed c \<Longrightarrow> wrRoom c = None \<Longrightarrow>
   \<exists>c'. writeBlocks c sent k = (Ok (), c') \<and> wrSent c' = wrSent c @ patternBytes sent (1024 * k)"
proof (induction c sent k rule: writeBlocks.induct)
  case (2 c sent k)
  then show ?case
    using patternBytes_add [of sent 1024 "1024 * k"]
    by (simp add: connWrite_def Let_def patternBytes_def)
qed (simp add: patternBytes_def)

lemma throughput_write_ok:
  assumes "\<not> connClosed c" "wrRoom c = None"
  shows "\<exists>c'. throughput_write c (int n) = (Ok (), c') \<and>
    wrSent c' = wrSent c @ putUint32 (word_of_nat n) @ patternBytes 0 (1024 * (n div 1024))"
proof -
  have k: "nat (goDiv (int n) 1024) = n div 1024"
    by (cases "n = 0") (simp_all add: goDiv_def nat_div_distrib)
  let ?c1 = "c\<lparr>wrSent := wrSent c @ putUint32 (word_of_nat n)\<rparr>"
  have "\<exists>c'. writeBlocks ?c1 0 (n div 1024) = (Ok (), c') \<and>
      wrSent c' = wrSent ?c1 @ patternBytes 0 (1024 * (n div 1024))"
    using assms by (intro writeBlocks_ok) simp_all
  then show ?thesis using assms by (simp add: throughput_write_def connWrite_def k)
qed

lemma transfer_ok:
  assumes "\<not> connClosed c" "wrRoom c = None" "0 < k" "1024 * k < 2 ^ 32"
  shows "\<exists>c'. throughput_write c (int (1024 * k)) = (Ok (), c') \<and>
    (\<forall>r. wrSent c' = wrSent c @ inBytes r \<longrightarrow>
      (\<exists>r'. throughput_read r = (Ok (), r') \<and> inBytes r' = []))"
proof -
  let ?w = "word_of_nat (1024 * k) :: 32 word"
  have w: "unat ?w = 1024 * k" using assms(4) by (simp only: unat_of_nat take_bit_nat_eq_self_iff) simp
  obtain c' where c': "throughput_write c (int (1024 * k)) = (Ok (), c')"
      "wrSent c' = wrSent c @ putUint32 ?w @ patternBytes 0 (1024 * k)"
    using throughput_write_ok [OF assms(1,2), of "1024 * k"] by (simp only: nonzero_mult_div_cancel_left) auto
  have "\<exists>r'. throughput_read r = (Ok (), r') \<and> inBytes r' = []"
    if inp: "inBytes r = putUint32 ?w @ patternBytes 0 (1024 * k)" for r
  proof -
    obtain r1 where "readHeader r [] = (Ok (putUint32 ?w), r1)" "inBytes r1 = patternBytes 0 (1024 * k)"
      using readHeader_put [OF inp] by blast
    then show ?thesis
      using readData_ok [of "1024 * k" 0 r1] assms(3) w by (simp add: throughput_read_def)
  qed
  then show ?thesis using c' by auto
qed

section \<open>Properties\<close>

text \<open>
  C34: a measured transfer succeeds. For every size that is a positive multiple of 1024 bytes
  below 4 GiB, \<open>write\<close> sends on an open session a stream that \<open>read\<close> at the other end, however
  the stream is cut into segments, accepts completely: it returns without error after exactly
  the bytes announced, having checked each of them.
\<close>

theorem throughput_transfer:
  assumes "\<not> connClosed c" "wrRoom c = None" "0 < k" "1024 * k < 2 ^ 32"
  shows "\<exists>c'. throughput_write c (int (1024 * k)) = (Ok (), c') \<and>
    (\<forall>r. wrSent c' = wrSent c @ inBytes r \<longrightarrow>
      (\<exists>r'. throughput_read r = (Ok (), r') \<and> inBytes r' = []))"
  using transfer_ok [OF assms] .

text \<open>1024 bytes, received in segments of a single byte.\<close>

theorem throughput_transfer_witness:
  "\<exists>c' r'. throughput_write (newConn ''bob'' [] ErrEOF) 1024 = (Ok (), c') \<and>
     throughput_read (newConn ''alice'' (map (\<lambda>b. [b]) (wrSent c')) ErrEOF) = (Ok (), r')"
proof -
  have h: "\<not> connClosed (newConn ''bob'' [] ErrEOF)" "wrRoom (newConn ''bob'' [] ErrEOF) = None"
    "wrSent (newConn ''bob'' [] ErrEOF) = []" by (simp_all add: newConn_def)
  obtain c' where c: "throughput_write (newConn ''bob'' [] ErrEOF) (int (1024 * 1)) = (Ok (), c')"
    "\<forall>r. wrSent c' = inBytes r \<longrightarrow> (\<exists>r'. throughput_read r = (Ok (), r') \<and> inBytes r' = [])"
    using throughput_transfer [OF h(1,2), of 1] h(3) by auto
  have "wrSent c' = inBytes (newConn ''alice'' (map (\<lambda>b. [b]) (wrSent c')) ErrEOF)"
    by (simp add: inBytes_def newConn_def)
  with c show ?thesis by fastforce
qed

section \<open>Four gigabytes\<close>

text \<open>
  The length travels as a \<open>uint32\<close>. For a multiple of 4 GiB (\<open>-m 4096\<close>) it is 0: \<open>write\<close> sends the
  data all the same, and \<open>read\<close> divides by 0 after its first read.
\<close>

lemma throughput_wraps:
  assumes "\<not> connClosed c" "wrRoom c = None"
  shows "\<exists>c'. throughput_write c (int (4096 * 2 ^ 20)) = (Ok (), c') \<and>
    (\<forall>r. wrSent c' = wrSent c @ inBytes r \<longrightarrow> (\<exists>r'. throughput_read r = (Panic DivideByZero, r')))"
proof -
  have z: "word_of_nat (4096 * 2 ^ 20) = (0 :: 32 word)" "1024 * (4096 * 2 ^ 20 div 1024) = (2 ^ 32 :: nat)" by simp_all
  obtain c' where c': "throughput_write c (int (4096 * 2 ^ 20)) = (Ok (), c')"
      "wrSent c' = wrSent c @ putUint32 0 @ patternBytes 0 (2 ^ 32)"
    using throughput_write_ok [OF assms, of "4096 * 2 ^ 20"] unfolding z by blast
  have "\<exists>r'. throughput_read r = (Panic DivideByZero, r')" if inp: "inBytes r = putUint32 0 @ patternBytes 0 (2 ^ 32)" for r
  proof -
    obtain r1 where r1: "readHeader r [] = (Ok (putUint32 0), r1)" "inBytes r1 = patternBytes 0 (2 ^ 32)"
      using readHeader_put [OF inp] by blast
    obtain b x r2 where cr: "connRead r1 1024 = (b, x, r2)" by (metis prod_cases3)
    have ne: "inBytes r1 \<noteq> []" using r1(2) by (metis length_patternBytes list.size(3) power_eq_0_iff zero_neq_numeral)
    then have x: "x = None" using connRead_Some [of r1 1024 b _ r2] cr by (cases x) auto
    note R = connRead_None [OF cr [unfolded x]]
    have "length b \<le> 2 ^ 32" using R r1(2) by (metis length_append length_patternBytes le_add1)
    then have "b @ inBytes r2 = patternBytes 0 (length b) @ patternBytes (length b) (2 ^ 32 - length b)"
      using patternBytes_add [of 0 "length b" "2 ^ 32 - length b"] R r1(2) by simp
    then have "b = patternBytes 0 (length b)" by (metis append_eq_append_conv length_patternBytes)
    then have "checkBytes 0 b = Ok (length b)" by (metis checkBytes_pattern add_0)
    then show ?thesis
      using r1(1) cr x by (auto simp: throughput_read_def readData.simps [of r1])
  qed
  then show ?thesis using c' by auto
qed

section \<open>Datagrams\<close>

text \<open>
  One turn of \<open>readUDP\<close>: the deadline is set at \<open>t0\<close>, other goroutines do \<open>others\<close> while the call
  waits, and \<open>ReadFrom\<close> looks at its channel at \<open>t1\<close> (\<open>pref\<close> is the choice of its \<open>select\<close>).
  Times are in milliseconds.
\<close>

record ('w, 'u) udp_turn =
  t0 :: int
  t1 :: int
  pref :: bool
  others :: "'w client \<times> 'u UdpSession \<Rightarrow> 'w client \<times> 'u UdpSession"

text \<open>The deferred \<open>conn.Close()\<close>, whose error is dropped.\<close>

definition closing ::
  "'u udp_ops \<Rightarrow> proto \<Rightarrow> unit outcome \<Rightarrow> 'w client \<Rightarrow> 'u UdpSession \<Rightarrow> int \<Rightarrow>
   unit outcome option \<times> 'w client \<times> 'u UdpSession \<times> int" where
  "closing U P r c x moved =
     (case Close U P c x of
        Ok (_, c1, x1) \<Rightarrow> (Some r, c1, x1, moved)
      | Err e \<Rightarrow> (Some r, c, x, moved)
      | Panic p \<Rightarrow> (Some (Panic p), c, x, moved))"

text \<open>
  The loop over its turns, with the counter \<open>udpBytesReceived\<close>. The first component is what
  the function returns; \<open>None\<close>: it has not returned (it waits, or more turns follow).
\<close>

fun readUDP ::
  "'u udp_ops \<Rightarrow> proto \<Rightarrow> int \<Rightarrow> 'w client \<Rightarrow> 'u UdpSession \<Rightarrow> int \<Rightarrow> ('w, 'u) udp_turn list \<Rightarrow>
   unit outcome option \<times> 'w client \<times> 'u UdpSession \<times> int" where
  "readUDP U P numBytes c x received [] = (None, c, x, received)"
| "readUDP U P numBytes c x received (t # ts) =
     (case SetReadDeadline U c x (Some (t0 t + 30 * 1000)) of
        (Err e, x1) \<Rightarrow> closing U P (Err e) c x1 received
      | (Panic p, x1) \<Rightarrow> closing U P (Panic p) c x1 received
      | (Ok u, x1) \<Rightarrow>
          (case others t (c, x1) of (c2, x2) \<Rightarrow>
           (case ReadFrom U c2 x2 1024 (pref t) (t1 t) of
              None \<Rightarrow> (None, c2, x2, received)
            | Some (Err e, x3) \<Rightarrow> closing U P (Err e) c2 x3 received
            | Some (Panic p, x3) \<Rightarrow> closing U P (Panic p) c2 x3 received
            | Some (Ok (b, _), x3) \<Rightarrow>
                (let udpBytesReceived = received + int (length b) in
                 if numBytes = 0 then closing U P (Panic DivideByZero) c2 x3 udpBytesReceived
                 else if udpBytesReceived \<ge> numBytes then closing U P (Ok ()) c2 x3 udpBytesReceived
                 else readUDP U P numBytes c2 x3 udpBytesReceived ts))))"

text \<open>
  \<open>writeUDP\<close>, over the random buffers of its turns; after each write the goroutine sleeps while
  the others run.
\<close>

fun writeUDP ::
  "'u udp_ops \<Rightarrow> proto \<Rightarrow> int \<Rightarrow> 'w client \<Rightarrow> 'u UdpSession \<Rightarrow> int \<Rightarrow>
   (bytes \<times> ('w client \<times> 'u UdpSession \<Rightarrow> 'w client \<times> 'u UdpSession)) list \<Rightarrow>
   unit outcome option \<times> 'w client \<times> 'u UdpSession \<times> int" where
  "writeUDP U P numBytes c x sent [] = (None, c, x, sent)"
| "writeUDP U P numBytes c x sent ((buffer, sleep) # ts) =
     (case WriteTo U c x buffer NilAddr of
        (Err e, x1) \<Rightarrow> closing U P (Err e) c x1 sent
      | (Panic p, x1) \<Rightarrow> closing U P (Panic p) c x1 sent
      | (Ok n, x1) \<Rightarrow>
          (let udpBytesSent = sent + n in
           if numBytes = 0 then closing U P (Panic DivideByZero) c x1 udpBytesSent
           else if udpBytesSent \<ge> numBytes then closing U P (Ok ()) c x1 udpBytesSent
           else (case sleep (c, x1) of (c2, x2) \<Rightarrow> writeUDP U P numBytes c2 x2 udpBytesSent ts)))"

text \<open>A loop that returns nil has moved at least the number of bytes it was asked for.\<close>

lemma closing_returns: "closing U P r c x n = (Some (Ok u), c', x', n') \<Longrightarrow> r = Ok u \<and> n' = n"
  by (auto simp: closing_def split: outcome.splits)

lemma readUDP_complete: "readUDP U P numBytes c x received ts = (Some (Ok u), c', x', n) \<Longrightarrow> numBytes \<le> n"
  by (induction U P numBytes c x received ts rule: readUDP.induct)
     (auto simp: Let_def split: prod.splits outcome.splits option.splits if_splits dest!: closing_returns)

lemma writeUDP_complete: "writeUDP U P numBytes c x sent ts = (Some (Ok u), c', x', n) \<Longrightarrow> numBytes \<le> n"
  by (induction U P numBytes c x sent ts rule: writeUDP.induct)
     (auto simp: Let_def split: prod.splits outcome.splits option.splits if_splits dest!: closing_returns)

section \<open>The set-up of the programs\<close>

text \<open>\<open>strings.Split(s, ",")\<close>, and \<open>strings.TrimSpace\<close> on ASCII.\<close>

fun splitOn :: "char \<Rightarrow> string \<Rightarrow> string list" where
  "splitOn sep [] = [[]]"
| "splitOn sep (ch # s) =
     (if ch = sep then [] # splitOn sep s
      else (case splitOn sep s of w # ws \<Rightarrow> (ch # w) # ws | [] \<Rightarrow> [[ch]]))"

definition isSpace :: "char \<Rightarrow> bool" where
  "isSpace ch \<longleftrightarrow> (let n = of_char ch :: nat in n = 32 \<or> 9 \<le> n \<and> n \<le> 13)"

definition trimSpace :: "string \<Rightarrow> string" where
  "trimSpace s = rev (dropWhile isSpace (rev (dropWhile isSpace s)))"

definition countryCodes :: "string \<Rightarrow> string list" where
  "countryCodes s = map trimSpace (splitOn (CHR '','') s)"

text \<open>The flags that go into the configuration; \<open>ipFilter\<close> builds a \<open>geo.IPFilter\<close> from the allowed countries.\<close>

record flags =
  numTunaListeners :: int
  tunaCountry :: string
  tunaServiceName :: string
  tunaSubscriptionPrefix :: string
  tunaMeasureBandwidth :: bool
  tunaMeasurementBytesDownLink :: int
  tunaMaxPrice :: string
  mtu :: int

definition zeroConfig :: Config where
  "zeroConfig =
     \<lparr>NumTunaListeners = 0, TunaDialTimeout = 0, TunaMaxPrice = [], TunaNanoPayFee = [],
      TunaMinNanoPayFee = [], TunaNanoPayFeeRatio = (0, 0), TunaServiceName = [], TunaSubscriptionPrefix = [],
      TunaIPFilter = None, TunaNknFilter = None, TunaDownloadGeoDB = False, TunaGeoDBPath = [],
      TunaMeasureBandwidth = False, TunaMeasureStoragePath = [], TunaMeasurementBytesDownLink = 0,
      TunaMinBalance = [], SessionConfig = None, ReconnectRetries = 0, ReconnectInterval = 0,
      UDPRecvBufferSize = 0, MaxUdpDatagramBuffered = 0, Verbose = False\<rparr>"

definition http_config :: "(string list \<Rightarrow> opaque) \<Rightarrow> flags \<Rightarrow> Config" where
  "http_config ipFilter f =
     zeroConfig\<lparr>NumTunaListeners := numTunaListeners f, TunaServiceName := tunaServiceName f,
       TunaSubscriptionPrefix := tunaSubscriptionPrefix f, TunaMaxPrice := tunaMaxPrice f,
       TunaIPFilter := Some (ipFilter (countryCodes (tunaCountry f))),
       SessionConfig := Some \<lparr>MTU = word_of_int (mtu f), ncpRest = 0\<rparr>\<rparr>"

definition throughput_config :: "(string list \<Rightarrow> opaque) \<Rightarrow> flags \<Rightarrow> Config" where
  "throughput_config ipFilter f =
     zeroConfig\<lparr>NumTunaListeners := numTunaListeners f, TunaServiceName := tunaServiceName f,
       TunaSubscriptionPrefix := tunaSubscriptionPrefix f, TunaMeasureBandwidth := tunaMeasureBandwidth f,
       TunaMeasurementBytesDownLink := sint (word_of_int (tunaMeasurementBytesDownLink f) :: 32 word),
       TunaMaxPrice := tunaMaxPrice f, TunaIPFilter := Some (ipFilter (countryCodes (tunaCountry f))),
       SessionConfig := Some \<lparr>MTU = word_of_int (mtu f), ncpRest = 0\<rparr>\<rparr>"

text \<open>\<open>listenID + "." + strings.SplitN(addr, ".", 2)[1]\<close>: an address without a dot is out of range.\<close>

definition dialID :: string where "dialID = ''alice''"
definition listenID :: string where "listenID = ''bob''"

definition dialAddr :: "string \<Rightarrow> string \<Rightarrow> string outcome" where
  "dialAddr flag own =
     (if flag \<noteq> [] then Ok flag
      else (case dropWhile (\<lambda>ch. ch \<noteq> CHR ''.'') own of
              [] \<Rightarrow> Panic (IndexOutOfRange 1)
            | _ # rest \<Rightarrow> Ok (listenID @ ''.'' @ rest)))"

text \<open>
  The two programs of a pair find each other: both identifiers are put before the same public
  key, so what the dialer derives from its own address is the listener's.
\<close>

lemma dialAddr_finds_listener:
  assumes "CHR ''.'' \<notin> set ident"
  shows "dialAddr [] (ident @ ''.'' @ key) = Ok (listenID @ ''.'' @ key)"
proof -
  from assms have "dropWhile (\<lambda>ch. ch \<noteq> CHR ''.'') (ident @ ''.'' @ key) = ''.'' @ key"
    by (induction ident) auto
  then show ?thesis by (simp add: dialAddr_def)
qed

text \<open>With flags that are 0 the package's own settings stay in force; the rest is what the user gave.\<close>

lemma example_config_merged:
  assumes "merge_laws merge" "MergedConfig merge T (Some conf) = Ok c"
    and "conf = http_config ipFilter f \<or> conf = throughput_config ipFilter f"
  shows "config_ok c \<and> NumTunaListeners c = (if numTunaListeners f = 0 then 4 else numTunaListeners f) \<and>
    (\<exists>sc. SessionConfig c = Some sc \<and> MTU sc = (if (word_of_int (mtu f) :: 32 word) = 0 then 1300 else word_of_int (mtu f)))"
proof -
  have m: "merge (DefaultConfig T) conf = Ok c" using assms(2) by (auto simp: MergedConfig_def Let_def split: outcome.splits)
  note L = merge_laws_def [THEN iffD1, OF assms(1), THEN conjunct2, rule_format, OF m]
  have "NumTunaListeners c = pick 0 (NumTunaListeners (DefaultConfig T)) (NumTunaListeners conf)"
    "SessionConfig c = pickSession (SessionConfig (DefaultConfig T)) (SessionConfig conf)" using L by simp_all
  moreover have "config_ok c" using MergedConfig_ok [OF assms(1,2)] .
  ultimately show ?thesis
    using assms(3)
    by (auto simp: http_config_def throughput_config_def DefaultConfig_def defaultConfig_def zeroConfig_def
        DefaultSessionConfig_def defaultSessionConfig_def pick_def pickSession_def)
qed

end
