(* ===== verification/Http_Tunnel.thy ===== *)
theory Http_Tunnel
  imports Message
begin

text \<open>
  The tunnel of \<open>examples/http/main.go\<close>: for every browser connection the dialing program opens a
  session and starts two goroutines, \<open>io.Copy(conn, sess)\<close> and \<open>io.Copy(sess, conn)\<close>. A state of
  the machine below is the pair of connections with what the two calls have returned; its
  steps are the iterations of the copy loops, in any order. \<open>io.Copy\<close> is the standard library's,
  written out here as far as the example uses it; a read that never returns is a machine that
  does not take that step.
\<close>

section \<open>Copying\<close>

text \<open>
  One iteration of \<open>io.Copy\<close>, with its buffer of 32 KiB: the result is what the call returns, if
  it does (\<open>Some None\<close>: nil; the end of the source is not an error).
\<close>

definition copyStep :: "Conn \<Rightarrow> Conn \<Rightarrow> go_error option option \<times> Conn \<times> Conn" where
  "copyStep dst src =
     (case connRead src 32768 of (b, er, src1) \<Rightarrow>
      (case (if b = [] then (0, None, dst) else connWrite dst b) of (nw, ew, dst1) \<Rightarrow>
        (if ew \<noteq> None then Some ew
         else if nw \<noteq> length b then Some (Some ErrIOShortWrite)
         else map_option (\<lambda>e. if e = ErrEOF then None else Some e) er,
         dst1, src1)))"

lemma copyStep_decreases:
  assumes "copyStep dst src = (None, dst', src')"
  shows "segWeight src' < segWeight src"
proof -
  obtain b er where "connRead src 32768 = (b, er, src')" "er = None"
    using assms by (auto simp: copyStep_def split: prod.splits if_splits)
  then show ?thesis using connRead_decreases [of src 32768 b src'] by simp
qed

function ioCopy :: "Conn \<Rightarrow> Conn \<Rightarrow> go_error option \<times> Conn \<times> Conn" where
  "ioCopy dst src =
     (case copyStep dst src of
        (Some r, dst1, src1) \<Rightarrow> (r, dst1, src1)
      | (None, dst1, src1) \<Rightarrow> ioCopy dst1 src1)"
  by pat_completeness auto
termination
  by (relation "measure (\<lambda>(dst, src). segWeight src)") (auto intro: copyStep_decreases [OF sym])

declare ioCopy.simps [simp del]

text \<open>
  What one direction has achieved, given the connections it started from: while the loop runs,
  what it delivered and what is still to be read make up the whole; once it has returned nil,
  or has returned at all with a destination that takes every write, everything is delivered.
\<close>

definition writable :: "Conn \<Rightarrow> bool" where
  "writable c \<longleftrightarrow> \<not> connClosed c \<and> wrRoom c = None"

definition copied :: "go_error option option \<Rightarrow> bytes \<Rightarrow> bytes \<Rightarrow> Conn \<Rightarrow> Conn \<Rightarrow> bool" where
  "copied r sent0 in0 d s \<longleftrightarrow>
     (\<exists>rest. wrSent d @ rest = sent0 @ in0) \<and>
     (case r of
        None \<Rightarrow> wrSent d @ inBytes s = sent0 @ in0
      | Some e \<Rightarrow> (e = None \<or> writable d \<longrightarrow> wrSent d = sent0 @ in0))"

lemma connWrite_copied:
  assumes "connWrite d b = (nw, ew, d')"
  shows "\<exists>x y. d' = d\<lparr>wrSent := x, wrRoom := y\<rparr>" and "\<exists>rest. wrSent d' @ rest = wrSent d @ b"
    and "ew = None \<Longrightarrow> wrSent d' = wrSent d @ b \<and> nw = length b"
    and "writable d' = writable d" and "writable d \<Longrightarrow> ew = None"
proof -
  show "\<exists>x y. d' = d\<lparr>wrSent := x, wrRoom := y\<rparr>"
    using assms by (auto simp: connWrite_def split: if_splits option.splits)
      (metis Conn.surjective Conn.update_convs(3,4))+
  show "\<exists>rest. wrSent d' @ rest = wrSent d @ b"
    using assms by (auto simp: connWrite_def split: if_splits option.splits) (metis append_take_drop_id)
qed (use assms in \<open>auto simp: connWrite_def writable_def split: if_splits option.splits\<close>)

lemma copyStep_frame:
  assumes "copyStep d s = (r, d', s')"
  obtains x y g where "d' = d\<lparr>wrSent := x, wrRoom := y\<rparr>" "s' = s\<lparr>rdSegs := g\<rparr>" "writable d' = writable d"
proof -
  obtain b er nw ew where rd: "connRead s 32768 = (b, er, s')"
    and wr: "(if b = [] then (0, None, d) else connWrite d b) = (nw, ew, d')"
    using assms by (auto simp: copyStep_def split: prod.splits)
  have "\<exists>g. s' = s\<lparr>rdSegs := g\<rparr>"
  proof (cases er)
    case None
    then show ?thesis using rd connRead_None by blast
  next
    case (Some e)
    then have "s' = s\<lparr>rdSegs := rdSegs s\<rparr>" using rd connRead_Some by fastforce
    then show ?thesis by blast
  qed
  moreover have "\<exists>x y. d' = d\<lparr>wrSent := x, wrRoom := y\<rparr>"
  proof (cases "b = []")
    case True
    then have "d' = d\<lparr>wrSent := wrSent d, wrRoom := wrRoom d\<rparr>" using wr by simp
    then show ?thesis by blast
  next
    case False
    then show ?thesis using wr connWrite_copied(1) [of d b nw ew d'] by simp
  qed
  moreover have "writable d' = writable d" using wr connWrite_copied(4) [of d b nw ew d'] by (auto split: if_splits)
  ultimately show ?thesis using that by blast
qed

lemma copyStep_copied:
  assumes "copyStep d s = (r, d', s')" "copied None sent0 in0 d s"
  shows "copied r sent0 in0 d' s'"
proof -
  have inv: "wrSent d @ inBytes s = sent0 @ in0" using assms(2) by (simp add: copied_def)
  obtain b er nw ew where rd: "connRead s 32768 = (b, er, s')"
    and wr: "(if b = [] then (0, None, d) else connWrite d b) = (nw, ew, d')"
    and r: "r = (if ew \<noteq> None then Some ew else if nw \<noteq> length b then Some (Some ErrIOShortWrite)
         else map_option (\<lambda>e. if e = ErrEOF then None else Some e) er)"
    using assms(1) by (auto simp: copyStep_def split: prod.splits)
  show ?thesis
  proof (cases er)
    case (Some e)
    then have "b = []" "inBytes s = []" "s' = s" using connRead_Some rd by blast+
    then show ?thesis using inv wr r Some by (auto simp: copied_def split: option.split)
  next
    case None
    note R = connRead_None [OF rd [unfolded None]]
    have d: "(\<exists>rest. wrSent d' @ rest = wrSent d @ b) \<and> (ew = None \<longrightarrow> wrSent d' = wrSent d @ b \<and> nw = length b) \<and>
        (writable d' \<longrightarrow> ew = None)"
    proof (cases "b = []")
      case True
      then show ?thesis using wr by simp
    next
      case False
      then have w: "connWrite d b = (nw, ew, d')" using wr by simp
      show ?thesis using connWrite_copied(2,3,5) [OF w] connWrite_copied(4) [OF w] by blast
    qed
    moreover have whole: "wrSent d @ b @ inBytes s' = sent0 @ in0" using inv conjunct1 [OF R] by simp
    ultimately have "\<exists>rest. wrSent d' @ rest = sent0 @ in0" by (metis append.assoc)
    then show ?thesis using d whole r None by (cases ew) (auto simp: copied_def)
  qed
qed

text \<open>A whole call: it returns, and what it delivered is what the source held.\<close>

lemma ioCopy_copied: "copied None sent0 in0 d s \<Longrightarrow> ioCopy d s = (e, d', s') \<Longrightarrow> copied (Some e) sent0 in0 d' s'"
proof (induction d s rule: ioCopy.induct)
  case (1 d s)
  obtain r d1 s1 where st: "copyStep d s = (r, d1, s1)" by (metis prod_cases3)
  note c = copyStep_copied [OF st 1(2)]
  show ?case
  proof (cases r)
    case None
    then show ?thesis using 1 st c by (simp add: ioCopy.simps [of d s])
  next
    case (Some x)
    then show ?thesis using 1(3) st c by (simp add: ioCopy.simps [of d s])
  qed
qed

section \<open>The tunnel\<close>

record tunnel =
  browser :: Conn
  overlay :: Conn
  down :: "go_error option option"
  up :: "go_error option option"

definition tunnel_init :: "Conn \<Rightarrow> Conn \<Rightarrow> tunnel \<Rightarrow> bool" where
  "tunnel_init conn sess t \<longleftrightarrow> t = \<lparr>browser = conn, overlay = sess, down = None, up = None\<rparr>"

inductive tunnel_step :: "tunnel \<Rightarrow> tunnel outcome \<Rightarrow> bool" where
  copy_down: "down t = None \<Longrightarrow> copyStep (browser t) (overlay t) = (r, conn, sess) \<Longrightarrow>
    tunnel_step t (Ok (t\<lparr>browser := conn, overlay := sess, down := r\<rparr>))"
| copy_up: "up t = None \<Longrightarrow> copyStep (overlay t) (browser t) = (r, sess, conn) \<Longrightarrow>
    tunnel_step t (Ok (t\<lparr>browser := conn, overlay := sess, up := r\<rparr>))"

inductive_cases tunnel_stepE: "tunnel_step t (Ok t')"

text \<open>
  Neither loop touches what the other one reads or writes, and neither closes anything.
\<close>

definition tunnel_inv :: "Conn \<Rightarrow> Conn \<Rightarrow> tunnel \<Rightarrow> bool" where
  "tunnel_inv conn sess t \<longleftrightarrow>
     copied (down t) (wrSent conn) (inBytes sess) (browser t) (overlay t) \<and>
     copied (up t) (wrSent sess) (inBytes conn) (overlay t) (browser t) \<and>
     writable (browser t) = writable conn \<and> writable (overlay t) = writable sess \<and>
     connClosed (browser t) = connClosed conn \<and> connClosed (overlay t) = connClosed sess"

lemma copied_frame:
  assumes "copied r sent0 in0 d s" "wrSent d' = wrSent d" "inBytes s' = inBytes s" "writable d' = writable d"
  shows "copied r sent0 in0 d' s'"
  using assms by (cases r) (simp_all add: copied_def)

lemma copyStep_apart:
  assumes "copyStep d s = (r, d', s')"
  shows "inBytes d' = inBytes d" "wrSent s' = wrSent s" "writable d' = writable d" "writable s' = writable s"
    "connClosed d' = connClosed d" "connClosed s' = connClosed s" "segWeight d' = segWeight d"
  by (rule copyStep_frame [OF assms], simp add: inBytes_def writable_def segWeight_def)+

lemma tunnel_inv_step: "tunnel_step t (Ok t') \<Longrightarrow> tunnel_inv conn sess t \<Longrightarrow> tunnel_inv conn sess t'"
proof (erule tunnel_stepE)
  fix r c s
  assume I: "tunnel_inv conn sess t" and st: "down t = None" "copyStep (browser t) (overlay t) = (r, c, s)"
    and t': "t' = t\<lparr>browser := c, overlay := s, down := r\<rparr>"
  note F = copyStep_apart [OF st(2)]
  have "copied r (wrSent conn) (inBytes sess) c s"
    using copyStep_copied [OF st(2)] I st(1) by (simp add: tunnel_inv_def)
  moreover have "copied (up t) (wrSent sess) (inBytes conn) s c"
    using I F copied_frame [of "up t" _ _ "overlay t" "browser t" s c] by (simp add: tunnel_inv_def)
  ultimately show "tunnel_inv conn sess t'" using I t' F by (simp add: tunnel_inv_def)
next
  fix r s c
  assume I: "tunnel_inv conn sess t" and st: "up t = None" "copyStep (overlay t) (browser t) = (r, s, c)"
    and t': "t' = t\<lparr>browser := c, overlay := s, up := r\<rparr>"
  note F = copyStep_apart [OF st(2)]
  have "copied r (wrSent sess) (inBytes conn) s c"
    using copyStep_copied [OF st(2)] I st(1) by (simp add: tunnel_inv_def)
  moreover have "copied (down t) (wrSent conn) (inBytes sess) c s"
    using I F copied_frame [of "down t" _ _ "browser t" "overlay t" c s] by (simp add: tunnel_inv_def)
  ultimately show "tunnel_inv conn sess t'" using I t' F by (simp add: tunnel_inv_def)
qed

interpretation tu: invariant_machine "tunnel_init conn sess" tunnel_step "tunnel_inv conn sess" for conn sess
  by unfold_locales (simp add: tunnel_init_def tunnel_inv_def copied_def, rule tunnel_inv_step)

text \<open>
  The machine runs the calls: from any state, a whole \<open>io.Copy\<close> is a sequence of its steps.
\<close>

lemma ioCopy_runs:
  "ioCopy d s = (e, d', s') \<Longrightarrow> browser t = d \<Longrightarrow> overlay t = s \<Longrightarrow> down t = None \<Longrightarrow>
   reachable init tunnel_step t \<Longrightarrow>
   reachable init tunnel_step (t\<lparr>browser := d', overlay := s', down := Some e\<rparr>)"
proof (induction d s arbitrary: t rule: ioCopy.induct)
  case (1 d s)
  obtain r d1 s1 where st: "copyStep d s = (r, d1, s1)" by (metis prod_cases3)
  let ?t1 = "t\<lparr>browser := d1, overlay := s1, down := r\<rparr>"
  have run: "reachable init tunnel_step ?t1"
    using 1 st copy_down [of t r d1 s1] reach_step by metis
  show ?case
  proof (cases r)
    case None
    then have "ioCopy d1 s1 = (e, d', s')" using 1(2) st by (simp add: ioCopy.simps [of d s])
    then have "reachable init tunnel_step (?t1\<lparr>browser := d', overlay := s', down := Some e\<rparr>)"
      using 1(1) [OF st [symmetric] None, of d1 s1 ?t1] None run by simp
    then show ?thesis by simp
  next
    case (Some x)
    then show ?thesis using 1(2) st run by (simp add: ioCopy.simps [of d s])
  qed
qed

section \<open>What arrives\<close>

text \<open>
  However the two copying goroutines interleave and however the data is cut into segments, what
  each has written is a beginning of what its source holds; when a call has returned nil, or has
  returned at all and its destination takes every write, the whole of it has been delivered.
  Beyond what \<open>io.Copy\<close> promises, this says that the two directions do not disturb each other.
\<close>

lemma http_tunnel_delivers:
  assumes "reachable (tunnel_init conn sess) tunnel_step t"
  shows "(\<exists>rest. wrSent (browser t) @ rest = wrSent conn @ inBytes sess) \<and>
    (\<exists>rest. wrSent (overlay t) @ rest = wrSent sess @ inBytes conn) \<and>
    (down t = Some None \<or> down t \<noteq> None \<and> writable conn \<longrightarrow> wrSent (browser t) = wrSent conn @ inBytes sess) \<and>
    (up t = Some None \<or> up t \<noteq> None \<and> writable sess \<longrightarrow> wrSent (overlay t) = wrSent sess @ inBytes conn)"
proof -
  have I: "tunnel_inv conn sess t" using tu.reachable_inv [OF assms] .
  then have c: "copied (down t) (wrSent conn) (inBytes sess) (browser t) (overlay t)"
      "copied (up t) (wrSent sess) (inBytes conn) (overlay t) (browser t)"
      "writable (browser t) = writable conn" "writable (overlay t) = writable sess"
    by (simp_all add: tunnel_inv_def)
  have full: "r = Some None \<or> r \<noteq> None \<and> writable d \<longrightarrow> wrSent d = s0 @ i0"
    if "copied r s0 i0 d s" for r s0 i0 d s
    using that by (cases r) (auto simp: copied_def)
  show ?thesis
    using full [OF c(1)] full [OF c(2)] c(3,4) c(1,2) [unfolded copied_def, THEN conjunct1] by blast
qed

text \<open>
  Neither goroutine closes its connections when it ends: after both calls have returned, the
  browser's connection and the session stay open.
\<close>

lemma tunnel_left_open:
  assumes "reachable (tunnel_init conn sess) tunnel_step t" "\<not> connClosed conn" "\<not> connClosed sess"
  shows "\<not> connClosed (browser t) \<and> \<not> connClosed (overlay t)"
  using tu.reachable_inv [OF assms(1)] assms(2,3) by (simp add: tunnel_inv_def)

end
