(* ===== verification/Example_Main.thy ===== *)
theory Example_Main
  imports Examples Serving Http_Tunnel
begin

text \<open>
  The \<open>main\<close> functions of the two examples, from their flags to the running listener and dialer:
  how they get their account, build their clients, listen, accept, dial and serve. \<open>log.Fatal\<close> is
  the error \<open>Err\<close> of the function that calls it; blocking waits for the nkn client and for the
  first exit to connect are left out.
\<close>

section \<open>Outside code\<close>

text \<open>
  What the programs use of nkn-sdk-go, tuna and the operating system. An account is its private
  key; \<open>NewAccount\<close> draws a random one (its first argument) when the seed is empty.
  \<open>NewMultiClient\<close> gives the client's address and the initial state of the outside world.
\<close>

record ('w, 'e, 'u) platform =
  NewAccount :: "bytes \<Rightarrow> bytes \<Rightarrow> bytes outcome"
  accountSeed :: "bytes \<Rightarrow> bytes"
  NewWallet :: "bytes \<Rightarrow> unit outcome"
  NewMultiClient :: "bytes \<Rightarrow> string \<Rightarrow> int \<Rightarrow> (string \<times> 'w) outcome"
  ResolveDest :: "string \<Rightarrow> string outcome"
  mergeConfig :: merger
  mergeDialConfig :: dial_merger
  tunaNames :: tuna_names
  ipFilter :: "string list \<Rightarrow> opaque"
  exitOps :: "'e exit_ops"
  osOps :: os_ops
  compileRe :: "string \<Rightarrow> go_error option"
  defaultRe :: string
  udpListen :: "string \<Rightarrow> int \<Rightarrow> 'u"

text \<open>
  What is relied on: the address of a client is its identifier and the hexadecimal public key
  of its account, an account can be had again from its seed, and nothing panics.
\<close>

definition platform_laws :: "('w, 'e, 'u) platform \<Rightarrow> (bytes \<Rightarrow> string) \<Rightarrow> ('e \<Rightarrow> Service) \<Rightarrow> bool" where
  "platform_laws F pub svc \<longleftrightarrow>
     (\<forall>acct ident n a w. ident \<noteq> [] \<longrightarrow> NewMultiClient F acct ident n = Ok (a, w) \<longrightarrow> a = ident @ ''.'' @ pub acct) \<and>
     (\<forall>r s acct r'. NewAccount F r s = Ok acct \<longrightarrow> NewAccount F r' (accountSeed F acct) = Ok acct) \<and>
     (\<forall>r s. no_panic (NewAccount F r s)) \<and> (\<forall>acct. no_panic (NewWallet F acct)) \<and>
     (\<forall>acct ident n. no_panic (NewMultiClient F acct ident n)) \<and>
     merge_laws (mergeConfig F) \<and> exit_laws (exitOps F) svc \<and> os_laws (osOps F)"

section \<open>The account\<close>

text \<open>\<open>hex.DecodeString\<close>, which accepts both cases and reports a bad digit before an odd length.\<close>

definition fromHexChar :: "char \<Rightarrow> nat option" where
  "fromHexChar ch =
     (let n = of_char ch :: nat in
      if 48 \<le> n \<and> n \<le> 57 then Some (n - 48)
      else if 97 \<le> n \<and> n \<le> 102 then Some (n - 97 + 10)
      else if 65 \<le> n \<and> n \<le> 70 then Some (n - 65 + 10)
      else None)"

fun hexDecode :: "string \<Rightarrow> bytes outcome" where
  "hexDecode [] = Ok []"
| "hexDecode [p] = (if fromHexChar p = None then Err (ErrHexByte p) else Err ErrHexLength)"
| "hexDecode (p # q # s) =
     (case (fromHexChar p, fromHexChar q) of
        (Some a, Some b) \<Rightarrow> map_outcome (\<lambda>bs. word_of_nat (16 * a + b) # bs) (hexDecode s)
      | (None, _) \<Rightarrow> Err (ErrHexByte p)
      | (Some _, None) \<Rightarrow> Err (ErrHexByte q))"

definition mainAccount :: "('w, 'e, 'u) platform \<Rightarrow> bytes \<Rightarrow> string \<Rightarrow> bytes outcome" where
  "mainAccount F rnd seedHex =
     obind (hexDecode seedHex) (\<lambda>seed.
     obind (NewAccount F rnd seed) (\<lambda>account.
     obind (NewWallet F account) (\<lambda>_. Ok account)))"

text \<open>\<open>log.Println("Seed:", hex.EncodeToString(account.Seed()))\<close>: the seed a user can pass to \<open>-s\<close>.\<close>

definition printedSeed :: "('w, 'e, 'u) platform \<Rightarrow> bytes \<Rightarrow> string" where
  "printedSeed F account = hexEncode (accountSeed F account)"

section \<open>Flags\<close>

record main_flags = flags +
  numClients :: int
  seedHex :: string
  dialAddrFlag :: string
  dialFlag :: bool
  listenFlag :: bool

record throughput_flags = main_flags +
  megaBytes :: int
  useUDP :: bool

record http_flags = main_flags +
  serveDir :: string
  httpAddr :: string

text \<open>The values of flags that are not given; the http example has no measurement flags.\<close>

definition throughput_defaults :: throughput_flags where
  "throughput_defaults =
     \<lparr>numTunaListeners = 1, tunaCountry = [], tunaServiceName = [], tunaSubscriptionPrefix = [],
      tunaMeasureBandwidth = False, tunaMeasurementBytesDownLink = 1, tunaMaxPrice = ''0.01'', mtu = 0,
      numClients = 4, seedHex = [], dialAddrFlag = [], dialFlag = False, listenFlag = False,
      megaBytes = 1, useUDP = False\<rparr>"

definition http_defaults :: http_flags where
  "http_defaults =
     \<lparr>numTunaListeners = 1, tunaCountry = [], tunaServiceName = [], tunaSubscriptionPrefix = [],
      tunaMeasureBandwidth = False, tunaMeasurementBytesDownLink = 0, tunaMaxPrice = ''0.01'', mtu = 0,
      numClients = 4, seedHex = [], dialAddrFlag = [], dialFlag = False, listenFlag = False,
      serveDir = ''.'', httpAddr = '':8080''\<rparr>"

text \<open>\<open>*numBytes *= 1 << 20\<close> on a 64-bit \<open>int\<close>.\<close>

definition numBytes :: "int \<Rightarrow> int" where
  "numBytes m = sint (word_of_int m * 2 ^ 20 :: 64 word)"

section \<open>Listening\<close>

definition newSessionClient ::
  "('w, 'e, 'u) platform \<Rightarrow> os \<Rightarrow> bytes \<Rightarrow> string \<Rightarrow> int \<Rightarrow> Config \<Rightarrow> ('w, 'e, 'u) tclient outcome" where
  "newSessionClient F s account ident n conf =
     obind (NewMultiClient F account ident n) (\<lambda>(mAddr, w).
     obind (NewTunaSessionClient (mergeConfig F) (tunaNames F) account mAddr w (Some conf)) (\<lambda>c.
       Ok (client.extend c (tclient.fields [] True None None None s False))))"

text \<open>\<open>c.Listen(nil)\<close> on a new client.\<close>

definition listenNil :: "('w, 'e, 'u) platform \<Rightarrow> ('w, 'e, 'u) tclient \<Rightarrow> ('w, 'e, 'u) tclient outcome" where
  "listenNil F c =
     (case Listen (exitOps F) (osOps F) (compileRe F) (defaultRe F) None c of
        (Ok _, c1) \<Rightarrow> Ok c1
      | (Err e, c1) \<Rightarrow> Err e
      | (Panic p, c1) \<Rightarrow> Panic p)"

text \<open>
  The listening branches: afterwards the throughput example accepts sessions or reads from its
  UDP session, the http example serves.
\<close>

definition throughput_listen ::
  "('w, 'e, 'u) platform \<Rightarrow> os \<Rightarrow> bytes \<Rightarrow> throughput_flags \<Rightarrow>
   (('w, 'e, 'u) tclient \<times> 'u UdpSession option) outcome" where
  "throughput_listen F s account f =
     obind (newSessionClient F s account listenID (numClients f) (throughput_config (ipFilter F) (flags.truncate f))) (\<lambda>c.
     obind (listenNil F c) (\<lambda>c1.
       if useUDP f
       then (case ListenUDP (exitOps F) (osOps F) (udpListen F) c1 of
               (Ok uConn, c2) \<Rightarrow> Ok (c2, Some uConn)
             | (Err e, c2) \<Rightarrow> Err e
             | (Panic p, c2) \<Rightarrow> Panic p)
       else Ok (c1, None)))"

definition http_listen ::
  "('w, 'e, 'u) platform \<Rightarrow> os \<Rightarrow> bytes \<Rightarrow> http_flags \<Rightarrow> ('w, 'e, 'u) tclient outcome" where
  "http_listen F s account f =
     obind (newSessionClient F s account listenID (numClients f) (http_config (ipFilter F) (flags.truncate f))) (listenNil F)"

text \<open>
  An accept loop over its turns, each what the others do to the client meanwhile and the choices
  of the \<open>select\<close> in \<open>AcceptSession\<close>. The result are the sessions accepted and the error that
  ended the loop, if one did: the throughput example passes it to \<open>log.Fatal\<close>, \<open>http.Serve\<close>
  returns it and nobody looks.
\<close>

fun acceptEach ::
  "'w ext \<Rightarrow> ('w, 'a) client_scheme \<Rightarrow> ((('w, 'a) client_scheme \<Rightarrow> ('w, 'a) client_scheme) \<times> (nat \<Rightarrow> bool)) list \<Rightarrow>
   nat list \<times> unit outcome option \<times> ('w, 'a) client_scheme" where
  "acceptEach E c [] = ([], None, c)"
| "acceptEach E c ((meanwhile, preferClose) # ts) =
     (let c1 = meanwhile c in
      case Accept E preferClose c1 of
        None \<Rightarrow> acceptEach E c1 ts
      | Some (Ok s, c2) \<Rightarrow> (case acceptEach E c2 ts of (ss, r, c3) \<Rightarrow> (s # ss, r, c3))
      | Some (Err e, c2) \<Rightarrow> ([], Some (Err e), c2)
      | Some (Panic p, c2) \<Rightarrow> ([], Some (Panic p), c2))"

text \<open>\<open>http.Serve(c, nil)\<close>: the sessions it serves; its error is dropped.\<close>

definition http_serve ::
  "'w ext \<Rightarrow> ('w, 'a) client_scheme \<Rightarrow> ((('w, 'a) client_scheme \<Rightarrow> ('w, 'a) client_scheme) \<times> (nat \<Rightarrow> bool)) list \<Rightarrow>
   nat list \<times> ('w, 'a) client_scheme" where
  "http_serve E c ts = (case acceptEach E c ts of (ss, r, c1) \<Rightarrow> (ss, c1))"

text \<open>
  The goroutine of an accepted session in the throughput example: an error of \<open>read\<close> is fatal
  for the program, otherwise the session is closed.
\<close>

definition serveSession :: "Conn \<Rightarrow> Conn outcome" where
  "serveSession sess =
     (case throughput_read sess of
        (Ok _, s1) \<Rightarrow> Ok (connClose s1)
      | (Err e, s1) \<Rightarrow> Err e
      | (Panic p, s1) \<Rightarrow> Panic p)"

section \<open>Dialing\<close>

text \<open>What chance and the network contribute to a dial.\<close>

record dial_inputs =
  diSessionID :: "bytes outcome"
  diAttempts :: "attempt list"
  diCtxErr :: go_error
  diRuns :: "dial_run list"
  diNet :: "Conn outcome"
  diNonce :: "bytes outcome"
  diNow :: int

text \<open>\<open>&nkn.DialConfig{DialTimeout: 5000}\<close>: the session settings are left unset.\<close>

definition throughput_dialConfig :: DialConfig where
  "throughput_dialConfig = \<lparr>DialTimeout = 5000, dialSession = \<lparr>MTU = 0, ncpRest = 0\<rparr>\<rparr>"

datatype ('w, 'e, 'u) dialed =
    DialedSession "('w, 'e, 'u) tclient" nat "(nat \<times> nat) list"
  | DialedUDP "('w, 'e, 'u) tclient" "'u UdpSession"

text \<open>
  A session that is nil although there is no error would be dereferenced by its first use.
\<close>

definition dialResult ::
  "(nat option \<times> go_error option \<times> (nat \<times> nat) list) outcome \<times> ('w, 'e, 'u) tclient \<Rightarrow>
   (('w, 'e, 'u) tclient \<times> nat \<times> (nat \<times> nat) list) outcome" where
  "dialResult r =
     (case r of
        (Ok (_, Some e, _), c) \<Rightarrow> Err e
      | (Ok (Some sess, None, hs), c) \<Rightarrow> Ok (c, sess, hs)
      | (Ok (None, None, hs), c) \<Rightarrow> Panic NilDereference
      | (Err e, c) \<Rightarrow> Err e
      | (Panic p, c) \<Rightarrow> Panic p)"

definition dialTo ::
  "('w, 'e, 'u) platform \<Rightarrow> 'w ext \<Rightarrow> crypto \<Rightarrow> proto \<Rightarrow> 'u udp_ops \<Rightarrow> (bytes \<Rightarrow> PubAddrs outcome) \<Rightarrow>
   (PubAddr \<Rightarrow> 'u outcome) \<Rightarrow> (PubAddr \<Rightarrow> string) \<Rightarrow> bool \<Rightarrow> dial_inputs \<Rightarrow> ('w, 'e, 'u) tclient \<Rightarrow> string \<Rightarrow>
   ('w, 'e, 'u) dialed outcome" where
  "dialTo F E C P U unjson dialUDP uaOf udp i c remote =
     (let merged = mergeDialConfig F (SessionConfig (config c)) (Some throughput_dialConfig) in
      if udp
      then (case DialUDPWithConfig U C P unjson dialUDP uaOf c merged (ResolveDest F remote) (diSessionID i)
                   (diAttempts i) (diCtxErr i) (diNet i) (diNonce i) (diNow i) of
              (Ok x, c1) \<Rightarrow> Ok (DialedUDP c1 x)
            | (Err e, c1) \<Rightarrow> Err e
            | (Panic p, c1) \<Rightarrow> Panic p)
      else map_outcome (\<lambda>(c1, sess, hs). DialedSession c1 sess hs)
             (dialResult (DialWithConfig E C P unjson c merged (ResolveDest F remote) (diSessionID i)
                (diAttempts i) (diCtxErr i) (diRuns i) (diNow i))))"

definition throughput_dial ::
  "('w, 'e, 'u) platform \<Rightarrow> 'w ext \<Rightarrow> crypto \<Rightarrow> proto \<Rightarrow> 'u udp_ops \<Rightarrow> (bytes \<Rightarrow> PubAddrs outcome) \<Rightarrow>
   (PubAddr \<Rightarrow> 'u outcome) \<Rightarrow> (PubAddr \<Rightarrow> string) \<Rightarrow> os \<Rightarrow> bytes \<Rightarrow> throughput_flags \<Rightarrow> dial_inputs \<Rightarrow>
   ('w, 'e, 'u) dialed outcome" where
  "throughput_dial F E C P U unjson dialUDP uaOf s account f i =
     obind (newSessionClient F s account dialID (numClients f) (throughput_config (ipFilter F) (flags.truncate f))) (\<lambda>c.
     obind (dialAddr (dialAddrFlag f) (Address c)) (\<lambda>remote.
       dialTo F E C P U unjson dialUDP uaOf (useUDP f) i c remote))"

text \<open>
  The goroutine that writes to a dialed session: an error is fatal; afterwards it polls
  \<open>IsClosed\<close>, here over the answers it gets, and exits the program at the first positive one.
\<close>

definition writeSession :: "Conn \<Rightarrow> int \<Rightarrow> bool list \<Rightarrow> bool outcome \<times> Conn" where
  "writeSession sess n polls =
     (case throughput_write sess n of
        (Ok _, s1) \<Rightarrow> (Ok (\<exists>b\<in>set polls. b), s1)
      | (Err e, s1) \<Rightarrow> (Err e, s1)
      | (Panic p, s1) \<Rightarrow> (Panic p, s1))"

text \<open>
  The goroutines of UDP: the reader ends the program in any case (\<open>Some (Ok ())\<close>: exit code 0),
  the writer only by an error.
\<close>

definition udpReader ::
  "'u udp_ops \<Rightarrow> proto \<Rightarrow> int \<Rightarrow> 'w client \<Rightarrow> 'u UdpSession \<Rightarrow> ('w, 'u) udp_turn list \<Rightarrow> unit outcome option" where
  "udpReader U P m c x ts = fst (readUDP U P (numBytes m) c x 0 ts)"

definition udpWriter ::
  "'u udp_ops \<Rightarrow> proto \<Rightarrow> int \<Rightarrow> 'w client \<Rightarrow> 'u UdpSession \<Rightarrow>
   (bytes \<times> ('w client \<times> 'u UdpSession \<Rightarrow> 'w client \<times> 'u UdpSession)) list \<Rightarrow> unit outcome option" where
  "udpWriter U P m c x ts =
     (case fst (writeUDP U P (numBytes m) c x 0 ts) of Some (Ok _) \<Rightarrow> None | r \<Rightarrow> r)"

text \<open>
  The dialing branch of the http example: the client, the address to dial and the outcome of
  \<open>net.Listen\<close>.
\<close>

definition http_dial ::
  "('w, 'e, 'u) platform \<Rightarrow> os \<Rightarrow> bytes \<Rightarrow> http_flags \<Rightarrow> (string \<Rightarrow> unit outcome) \<Rightarrow>
   (('w, 'e, 'u) tclient \<times> string) outcome" where
  "http_dial F s account f netListen =
     obind (newSessionClient F s account dialID (numClients f) (http_config (ipFilter F) (flags.truncate f))) (\<lambda>c.
     obind (dialAddr (dialAddrFlag f) (Address c)) (\<lambda>remote.
     obind (netListen (httpAddr f)) (\<lambda>_. Ok (c, remote))))"

text \<open>
  Its loop over the connections of browsers: each turn is what the others do to the client
  meanwhile, what \<open>Accept\<close> gives and the inputs of the dial that follows. The result are the
  pairs for which the two copying goroutines were started, and the fatal error, if there was one.
\<close>

fun http_accept ::
  "('w, 'e, 'u) platform \<Rightarrow> 'w ext \<Rightarrow> crypto \<Rightarrow> proto \<Rightarrow> (bytes \<Rightarrow> PubAddrs outcome) \<Rightarrow> string \<Rightarrow>
   ('w, 'e, 'u) tclient \<Rightarrow>
   ((('w, 'e, 'u) tclient \<Rightarrow> ('w, 'e, 'u) tclient) \<times> Conn outcome \<times> dial_inputs) list \<Rightarrow>
   (Conn \<times> nat) list \<times> unit outcome option \<times> ('w, 'e, 'u) tclient" where
  "http_accept F E C P unjson remote c [] = ([], None, c)"
| "http_accept F E C P unjson remote c ((meanwhile, accepted, i) # ts) =
     (let c1 = meanwhile c in
      case accepted of
        Err e \<Rightarrow> ([], Some (Err e), c1)
      | Panic p \<Rightarrow> ([], Some (Panic p), c1)
      | Ok conn \<Rightarrow>
          (case dialResult (DialSession E C P unjson (mergeDialConfig F) c1 (ResolveDest F remote) (diSessionID i)
                   (diAttempts i) (diCtxErr i) (diRuns i) (diNow i)) of
             Err e \<Rightarrow> ([], Some (Err e), c1)
           | Panic p \<Rightarrow> ([], Some (Panic p), c1)
           | Ok (c2, sess, hs) \<Rightarrow>
               (case http_accept F E C P unjson remote c2 ts of (ps, r, c3) \<Rightarrow> ((conn, sess) # ps, r, c3))))"

section \<open>The programs\<close>

text \<open>Both branches use the one account; the dialing branch starts when the listening one runs.\<close>

definition throughput_main ::
  "('w, 'e, 'u) platform \<Rightarrow> 'w ext \<Rightarrow> crypto \<Rightarrow> proto \<Rightarrow> 'u udp_ops \<Rightarrow> (bytes \<Rightarrow> PubAddrs outcome) \<Rightarrow>
   (PubAddr \<Rightarrow> 'u outcome) \<Rightarrow> (PubAddr \<Rightarrow> string) \<Rightarrow> os \<Rightarrow> bytes \<Rightarrow> throughput_flags \<Rightarrow> dial_inputs \<Rightarrow>
   ((('w, 'e, 'u) tclient \<times> 'u UdpSession option) option \<times> ('w, 'e, 'u) dialed option) outcome" where
  "throughput_main F E C P U unjson dialUDP uaOf s rnd f i =
     obind (mainAccount F rnd (seedHex f)) (\<lambda>account.
     obind (if listenFlag f then map_outcome Some (throughput_listen F s account f) else Ok None) (\<lambda>l.
     obind (if dialFlag f then map_outcome Some (throughput_dial F E C P U unjson dialUDP uaOf s account f i)
            else Ok None) (\<lambda>d. Ok (l, d))))"

definition http_main ::
  "('w, 'e, 'u) platform \<Rightarrow> os \<Rightarrow> bytes \<Rightarrow> http_flags \<Rightarrow> (string \<Rightarrow> unit outcome) \<Rightarrow>
   (('w, 'e, 'u) tclient option \<times> (('w, 'e, 'u) tclient \<times> string) option) outcome" where
  "http_main F s rnd f netListen =
     obind (mainAccount F rnd (seedHex f)) (\<lambda>account.
     obind (if listenFlag f then map_outcome Some (http_listen F s account f) else Ok None) (\<lambda>l.
     obind (if dialFlag f then map_outcome Some (http_dial F s account f netListen) else Ok None) (\<lambda>d. Ok (l, d))))"

section \<open>Seeds and sizes\<close>

lemma fromHexChar_hexDigits: "k < 16 \<Longrightarrow> fromHexChar (hexDigits ! k) = Some k"
  by (auto simp: hexDigits_def fromHexChar_def Let_def less_Suc_eq numeral_eq_Suc)

text \<open>The seed that is printed reads back as the seed.\<close>

lemma hexDecode_hexEncode: "hexDecode (hexEncode bs) = Ok bs"
proof (induction bs)
  case (Cons b bs)
  have "unat b < 256" using unsigned_less [of b, where 'a = nat] by simp
  then have "unat b div 16 < 16" "unat b mod 16 < 16" by auto
  moreover have "word_of_nat (16 * (unat b div 16) + unat b mod 16) = b" by (simp only: mult_div_mod_eq) simp
  ultimately show ?case using Cons by (simp add: hexEncode_def fromHexChar_hexDigits)
qed (simp add: hexEncode_def)

text \<open>The size in bytes is exact below \<open>2^43\<close> megabytes; from there on it wraps.\<close>

lemma numBytes_exact:
  assumes "0 \<le> m" "m < 2 ^ 43"
  shows "numBytes m = m * 2 ^ 20"
proof -
  have "m * 2 ^ 20 < 2 ^ 63" using assms(2) by simp
  then have "signed_take_bit 63 (m * 2 ^ 20) = m * 2 ^ 20"
    using assms(1) by (intro signed_take_bit_int_eq_self) simp_all
  moreover have "word_of_int m * 2 ^ 20 = (word_of_int (m * 2 ^ 20) :: 64 word)" by simp
  ultimately show ?thesis
    unfolding numBytes_def by (simp only: signed_of_int) simp
qed

section \<open>The clients of the programs\<close>

lemma newSessionClient_ok:
  assumes "newSessionClient F s acct ident n conf = Ok c" "platform_laws F pub svc" "ident \<noteq> []"
  shows "fresh_tclient c" "Address c = ident @ ''.'' @ pub acct" "privKey c = acct" "sockets c = s" "tunaNode c = None"
    "wallet c" "MergedConfig (mergeConfig F) (tunaNames F) (Some conf) = Ok (config c)"
proof -
  obtain a w cfg where m: "NewMultiClient F acct ident n = Ok (a, w)"
    and cfg: "MergedConfig (mergeConfig F) (tunaNames F) (Some conf) = Ok cfg"
    and c: "c = client.extend \<lparr>privKey = acct, sharedKeys = [], config = cfg, addr = a, acceptAddrs = [],
        sessions = [], sessionConns = [], connCount = [], isClosed = False, pubAddrs = [],
        addrConnCount = [], acceptSession = [], onConnectClosed = False, onCloseClosed = False,
        conns = [], nextConn = 0, world = w\<rparr> (tclient.fields [] True None None None s False)"
    using assms(1) by (auto simp: newSessionClient_def NewTunaSessionClient_def)
  have a: "a = ident @ ''.'' @ pub acct" and ml: "merge_laws (mergeConfig F)"
    using assms(2,3) m unfolding platform_laws_def by blast+
  have "NewTunaSessionClient (mergeConfig F) (tunaNames F) acct a w (Some conf) = Ok (client.truncate c)"
    using cfg by (simp add: NewTunaSessionClient_def c client.defs tclient.defs)
  moreover have "listeners c = [] \<and> tunaExits c = None \<and> listenerUdpSess c = None"
    by (simp add: c client.defs tclient.defs)
  ultimately show "fresh_tclient c" using ml unfolding fresh_tclient_def by blast
  show "Address c = ident @ ''.'' @ pub acct" "privKey c = acct" "sockets c = s" "tunaNode c = None" "wallet c"
    "MergedConfig (mergeConfig F) (tunaNames F) (Some conf) = Ok (config c)"
    using a cfg by (simp_all add: c client.defs tclient.defs Address_def)
qed

lemma newSessionClient_no_panic:
  assumes "platform_laws F pub svc"
  shows "newSessionClient F s acct ident n conf \<noteq> Panic p"
proof -
  have "NewMultiClient F acct ident n \<noteq> Panic q" "mergeConfig F d e \<noteq> Panic q" for q d e
    using assms unfolding platform_laws_def merge_laws_def by (metis no_panic_simps(3))+
  then show ?thesis
    by (cases "NewMultiClient F acct ident n")
      (auto simp: newSessionClient_def NewTunaSessionClient_def MergedConfig_def Let_def split: outcome.splits
        elim!: obind.elims)
qed

text \<open>
  The configuration of either example is one the client can listen with: a datagram buffer and,
  when the flag is not negative, a listener count.
\<close>

lemma example_config_fields:
  assumes "MergedConfig (mergeConfig F) T (Some conf) = Ok cfg" "platform_laws F pub svc"
    and "conf = http_config ipf f \<or> conf = throughput_config ipf f"
  shows "0 \<le> MaxUdpDatagramBuffered cfg"
    "NumTunaListeners cfg = (if numTunaListeners f = 0 then 4 else numTunaListeners f)"
proof -
  have ml: "merge_laws (mergeConfig F)" using assms(2) by (simp add: platform_laws_def)
  have m: "mergeConfig F (DefaultConfig T) conf = Ok cfg"
    using assms(1) by (auto simp: MergedConfig_def Let_def split: outcome.splits)
  have "MaxUdpDatagramBuffered cfg = pick 0 (MaxUdpDatagramBuffered (DefaultConfig T)) (MaxUdpDatagramBuffered conf)"
    using merge_laws_def [THEN iffD1, OF ml, THEN conjunct2, rule_format, OF m] by simp
  then show "0 \<le> MaxUdpDatagramBuffered cfg"
    using assms(3)
    by (auto simp: http_config_def throughput_config_def zeroConfig_def pick_def DefaultConfig_def defaultConfig_def)
  show "NumTunaListeners cfg = (if numTunaListeners f = 0 then 4 else numTunaListeners f)"
    using example_config_merged [OF ml assms(1,3)] by simp
qed

lemma listenNil_ok:
  assumes "listenNil F c = Ok c1" "fresh_tclient c" "0 \<le> MaxUdpDatagramBuffered (config c)"
    and "platform_laws F pub svc" "proto_laws P"
  shows "tsys_init (exitOps F) (osOps F) P svc \<lparr>tc = c1, pending = []\<rparr>"
    "Address c1 = Address c" "int (length (listeners c1)) = NumTunaListeners (config c)" "listenerUdpSess c1 = None"
    "\<not> udpChanFails c1"
proof -
  have L: "Listen (exitOps F) (osOps F) (compileRe F) (defaultRe F) None c = (Ok (), c1)"
    using assms(1) by (auto simp: listenNil_def split: prod.splits outcome.splits)
  have laws: "exit_laws (exitOps F) svc" "os_laws (osOps F)" using assms(4) by (simp_all add: platform_laws_def)
  have "\<exists>c compile dflt re. fresh_tclient c \<and> Listen (exitOps F) (osOps F) compile dflt re c = (Ok (), c1)"
    using assms(2) L by blast
  then show "tsys_init (exitOps F) (osOps F) P svc \<lparr>tc = c1, pending = []\<rparr>"
    using laws assms(5) by (simp add: tsys_init_def)
  note f = fresh_tclientD [OF assms(2)]
  obtain as where st: "startExits (exitOps F) (osOps F) (c\<lparr>acceptAddrs := as\<rparr>) = (Ok (), c1)"
    using L f(4) by (auto simp: Listen_def Let_def split: outcome.splits if_splits)
  have "tunaExits (c\<lparr>acceptAddrs := as\<rparr>) = None" using f(5) by simp
  from laws(2) this st show "Address c1 = Address c" "int (length (listeners c1)) = NumTunaListeners (config c)"
    "listenerUdpSess c1 = None" "\<not> udpChanFails c1"
    by (rule startExits_ok, use assms(3) in \<open>simp add: Address_def udpChanFails_def f(6)\<close>)+
qed

lemma listenNil_no_panic:
  assumes "platform_laws F pub svc" "fresh_tclient c" "0 \<le> NumTunaListeners (config c)"
  shows "listenNil F c \<noteq> Panic p"
  using listen_no_panic [of "exitOps F" svc "osOps F" c "compileRe F" "defaultRe F" None p] assms
  by (auto simp: listenNil_def platform_laws_def split: prod.splits outcome.splits)

lemma listenUDP_session: "ListenUDP X N newEnc c = (Ok x, c') \<Longrightarrow> listenerUdpSess c' = Some x"
  by (auto simp: ListenUDP_def openUdpSess_def Let_def split: if_splits option.splits outcome.splits prod.splits)

lemma throughput_listen_ok:
  assumes "platform_laws F pub svc" "proto_laws P" "throughput_listen F s acct f = Ok (c, v)"
  shows "reachable (tsys_init (exitOps F) (osOps F) P svc) (tsys_step E (exitOps F) (osOps F) U P svc) \<lparr>tc = c, pending = []\<rparr>"
    "Address c = listenID @ ''.'' @ pub acct"
    "int (length (listeners c)) = (if numTunaListeners f = 0 then 4 else numTunaListeners f)"
    "listenerUdpSess c = v" "v \<noteq> None \<longleftrightarrow> useUDP f"
proof -
  let ?X = "exitOps F" and ?N = "osOps F" and ?conf = "throughput_config (ipFilter F) (flags.truncate f)"
  obtain c0 c1 where c0: "newSessionClient F s acct listenID (numClients f) ?conf = Ok c0" and c1: "listenNil F c0 = Ok c1"
    and u: "if useUDP f then \<exists>x. ListenUDP ?X ?N (udpListen F) c1 = (Ok x, c) \<and> v = Some x else c = c1 \<and> v = None"
    using assms(3) by (auto simp: throughput_listen_def split: if_splits prod.splits outcome.splits)
  note n = newSessionClient_ok [OF c0 assms(1)]
  have id: "listenID \<noteq> []" by (simp add: listenID_def)
  note cfg = example_config_fields [OF n(7) [OF id] assms(1) disjI2 [OF refl]]
  note L = listenNil_ok [OF c1 n(1) [OF id] cfg(1) assms(1,2)]
  let ?s1 = "\<lparr>tc = c1, pending = []\<rparr>"
  have r: "reachable (tsys_init ?X ?N P svc) (tsys_step E ?X ?N U P svc) ?s1" using L(1) by (rule reach_start)
  note i = tsys_invD [OF tsys_init_inv [OF L(1)]]
  have udp: "(\<exists>y. c = c1\<lparr>listenerUdpSess := y\<rparr>) \<and> listenerUdpSess c = v" if flag: "useUDP f"
  proof -
    obtain x where x: "ListenUDP ?X ?N (udpListen F) c1 = (Ok x, c)" "v = Some x" using u flag by auto
    have al: "aligned svc c1" "os_laws ?N" "tclient_ok c1" using i(2,4,5) by simp_all
    show ?thesis using listenUDP_ok [OF al x(1) L(5)] listenUDP_session [OF x(1)] x(2) by blast
  qed
  show "reachable (tsys_init ?X ?N P svc) (tsys_step E ?X ?N U P svc) \<lparr>tc = c, pending = []\<rparr>"
    using u r reach_step [OF r tsys_step.listenUDP [of ?X ?N "udpListen F" ?s1]] by (auto split: if_splits)
  show "v \<noteq> None \<longleftrightarrow> useUDP f" using u by (auto split: if_splits)
  show "Address c = listenID @ ''.'' @ pub acct"
    "int (length (listeners c)) = (if numTunaListeners f = 0 then 4 else numTunaListeners f)"
    using u udp L(2,3) n(2) [OF id] cfg(2) by (auto simp: Address_def flags.defs split: if_splits)
  show "listenerUdpSess c = v" using u udp L(4) by (auto split: if_splits)
qed

lemma throughput_listen_no_panic:
  assumes "platform_laws F pub svc" "proto_laws P" "0 \<le> numTunaListeners f"
  shows "no_panic (throughput_listen F s acct f)"
proof -
  let ?new = "newSessionClient F s acct listenID (numClients f) (throughput_config (ipFilter F) (flags.truncate f))"
  have id: "listenID \<noteq> []" by (simp add: listenID_def)
  show ?thesis
  proof (cases ?new)
    case (Ok c)
    note n = newSessionClient_ok [OF Ok assms(1) id]
    note cfg = example_config_fields [OF n(7) assms(1) disjI2 [OF refl]]
    have "0 \<le> NumTunaListeners (config c)" using cfg(2) assms(3) by (simp add: flags.defs)
    note np = listenNil_no_panic [OF assms(1) n(1) this]
    show ?thesis
    proof (cases "listenNil F c")
      case L: (Ok c1)
      note i = tsys_invD [OF tsys_init_inv [OF listenNil_ok(1) [OF L n(1) cfg(1) assms(1,2)]]]
      obtain r c2 where u: "ListenUDP (exitOps F) (osOps F) (udpListen F) c1 = (r, c2)" by (cases "ListenUDP (exitOps F) (osOps F) (udpListen F) c1")
      have "no_panic r" using listenUDP_ok [OF _ _ _ u listenNil_ok(5) [OF L n(1) cfg(1) assms(1,2)]] i(2,4,5) by simp
      then show ?thesis using Ok L u by (cases r) (simp_all add: throughput_listen_def)
    qed (use Ok np in \<open>simp_all add: throughput_listen_def\<close>)
  next
    case (Panic p)
    then show ?thesis using newSessionClient_no_panic [OF assms(1)] by blast
  qed (simp add: throughput_listen_def)
qed

text \<open>The http example starts the same way, without UDP.\<close>

lemma http_listen_ok:
  assumes "platform_laws F pub svc" "proto_laws P" "http_listen F s acct f = Ok c"
  shows "reachable (tsys_init (exitOps F) (osOps F) P svc) (tsys_step E (exitOps F) (osOps F) U P svc) \<lparr>tc = c, pending = []\<rparr>"
    "Address c = listenID @ ''.'' @ pub acct"
proof -
  obtain c0 where c0: "newSessionClient F s acct listenID (numClients f) (http_config (ipFilter F) (flags.truncate f)) = Ok c0"
    and L: "listenNil F c0 = Ok c" using assms(3) by (auto simp: http_listen_def)
  have id: "listenID \<noteq> []" by (simp add: listenID_def)
  note n = newSessionClient_ok [OF c0 assms(1) id]
  note l = listenNil_ok [OF L n(1) example_config_fields(1) [OF n(7) assms(1) disjI1 [OF refl]] assms(1,2)]
  show "reachable (tsys_init (exitOps F) (osOps F) P svc) (tsys_step E (exitOps F) (osOps F) U P svc) \<lparr>tc = c, pending = []\<rparr>"
    using l(1) by (rule reach_start)
  show "Address c = listenID @ ''.'' @ pub acct" using l(2) n(2) by simp
qed

section \<open>Finding the listener\<close>

text \<open>Who is given the printed seed gets the account.\<close>

lemma mainAccount_again:
  assumes "platform_laws F pub svc" "mainAccount F r sx = Ok acct"
  shows "mainAccount F r' (printedSeed F acct) = Ok acct"
proof -
  obtain seed where "NewAccount F r seed = Ok acct" "NewWallet F acct = Ok ()"
    using assms(2) by (auto simp: mainAccount_def)
  moreover have "NewAccount F r' (accountSeed F acct) = Ok acct"
    using assms(1) calculation(1) unfolding platform_laws_def by blast
  ultimately show ?thesis by (simp add: mainAccount_def printedSeed_def hexDecode_hexEncode)
qed

lemma dialAddr_given: "a \<noteq> [] \<Longrightarrow> dialAddr a own = Ok a"
  by (simp add: dialAddr_def)

lemma dialAddr_default:
  assumes "newSessionClient F s acct dialID n conf = Ok c" "platform_laws F pub svc"
  shows "dialAddr [] (Address c) = Ok (listenID @ ''.'' @ pub acct)"
proof -
  have "CHR ''.'' \<notin> set dialID" "dialID \<noteq> []" by (simp_all add: dialID_def)
  then show ?thesis using newSessionClient_ok(2) [OF assms] dialAddr_finds_listener by simp
qed

section \<open>Serving\<close>

text \<open>
  The accept loop goes on while the client is open: only an error of a closed client ends it.
\<close>

lemma acceptLoop_open:
  assumes "\<forall>w s. no_panic (fst (sessAccept E w s))"
  shows "acceptLoop E False p q w = Some (r, q', w') \<Longrightarrow> \<exists>s. r = Ok s"
proof (induction q arbitrary: w p)
  case (Cons s q)
  obtain x w1 where x: "sessAccept E w s = (x, w1)" by (cases "sessAccept E w s")
  have "no_panic x" using assms x by (metis fst_conv)
  then show ?case using Cons x by (cases x) auto
qed simp

lemma acceptEach_open:
  assumes "\<forall>w s. no_panic (fst (sessAccept E w s))" "\<forall>m\<in>fst ` set ts. \<forall>c. onCloseClosed (m c) = onCloseClosed c"
  shows "\<not> onCloseClosed c \<Longrightarrow> fst (snd (acceptEach E c ts)) = None"
  using assms
proof (induction E c ts rule: acceptEach.induct)
  case (2 E c m p ts)
  then have m: "\<not> onCloseClosed (m c)" by simp
  show ?case
  proof (cases "Accept E p (m c)")
    case None
    then show ?thesis using 2 m by simp
  next
    case (Some a)
    then obtain r q w where a: "a = (r, (m c)\<lparr>acceptSession := q, world := w\<rparr>)"
      "acceptLoop E False p (acceptSession (m c)) (world (m c)) = Some (r, q, w)"
      using m by (auto simp: Accept_def AcceptSession_def)
    then obtain s where s: "r = Ok s" using acceptLoop_open [OF 2(4)] by blast
    let ?c2 = "(m c)\<lparr>acceptSession := q, world := w\<rparr>"
    have acc: "Accept E p (m c) = Some (Ok s, ?c2)" using Some a(1) s by simp
    have "fst (snd (acceptEach E ?c2 ts)) = None"
      using 2(2) [OF refl acc refl refl] m 2(4,5) by simp
    then show ?thesis using acc by (auto split: prod.split)
  qed
qed simp

text \<open>
  A transfer of 1 to 4095 megabytes (\<open>-m\<close>): the dialer's goroutine sends it, exits once the
  session is closed, and the listener's goroutine accepts it and closes the session.
\<close>

lemma programs_transfer:
  assumes "writable c" "0 < m" "m < 4096"
  shows "\<exists>c'. writeSession c (numBytes m) polls = (Ok (True \<in> set polls), c') \<and>
    (\<forall>r. wrSent c' = wrSent c @ inBytes r \<longrightarrow> (\<exists>r'. serveSession r = Ok r' \<and> connClosed r'))"
proof -
  have n: "numBytes m = int (1024 * nat (m * 1024))" using assms(2,3) by (simp add: numBytes_exact)
  have "1024 * nat (m * 1024) < 2 ^ 32" using assms(2,3) by (simp add: nat_less_iff)
  then obtain c' where c': "throughput_write c (numBytes m) = (Ok (), c')"
    "\<forall>r. wrSent c' = wrSent c @ inBytes r \<longrightarrow> (\<exists>r'. throughput_read r = (Ok (), r') \<and> inBytes r' = [])"
    using transfer_ok [of c "nat (m * 1024)"] assms unfolding n writable_def by auto
  have "\<exists>r'. serveSession r = Ok r' \<and> connClosed r'" if "wrSent c' = wrSent c @ inBytes r" for r
    using c'(2) that by (auto simp: serveSession_def connClose_def)
  then show ?thesis using c'(1) by (auto simp: writeSession_def)
qed

text \<open>
  A session that ends before its header has arrived ends the listening program: the error of
  \<open>read\<close> goes to \<open>log.Fatal\<close>.
\<close>

lemma readHeader_short: "length (b @ inBytes c) < 4 \<Longrightarrow> \<exists>c'. readHeader c b = (Err (inEnd c), c')"
proof (induction c b rule: readHeader.induct)
  case (1 c b)
  obtain m r c1 where cr: "connRead c (4 - length b) = (m, r, c1)" by (metis prod_cases3)
  show ?case
  proof (cases r)
    case None
    note R = connRead_None [OF cr [unfolded None]]
    have "inEnd c1 = inEnd c" using R unfolding inEnd_def by (metis Conn.select_convs(2,7) Conn.surjective Conn.update_convs(1))
    then show ?thesis using 1 cr None conjunct1 [OF R] by (subst readHeader.simps) simp
  next
    case (Some e)
    then show ?thesis using connRead_Some [OF cr [unfolded Some]] cr 1(2) by (subst readHeader.simps) simp
  qed
qed

lemma aborted_session_fatal: "length (inBytes sess) < 4 \<Longrightarrow> serveSession sess = Err (inEnd sess)"
  using readHeader_short [of "[]" sess] by (auto simp: serveSession_def throughput_read_def)

text \<open>Every browser connection gets its own session, in the order in which they came, up to the first failure.\<close>

lemma http_accept_order:
  "\<exists>k. map (Ok \<circ> fst) (fst (http_accept F E C P unjson remote c ts)) = take k (map (fst \<circ> snd) ts)"
proof (induction F E C P unjson remote c ts rule: http_accept.induct)
  case (2 F E C P unjson remote c m acc i ts)
  have stop: "fst (http_accept F E C P unjson remote c ((m, acc, i) # ts)) = [] \<Longrightarrow> ?case" by (auto intro: exI [of _ 0])
  show ?case
  proof (cases acc)
    case (Ok conn)
    let ?d = "dialResult (DialSession E C P unjson (mergeDialConfig F) (m c) (ResolveDest F remote) (diSessionID i)
                   (diAttempts i) (diCtxErr i) (diRuns i) (diNow i))"
    show ?thesis
    proof (cases ?d)
      case d: (Ok x)
      obtain c2 sess hs where x: "x = (c2, sess, hs)" by (metis prod_cases3)
      from 2 [OF refl Ok d x [symmetric] refl] obtain k where
        "map (Ok \<circ> fst) (fst (http_accept F E C P unjson remote c2 ts)) = take k (map (fst \<circ> snd) ts)" by blast
      then show ?thesis using Ok d x by (intro exI [of _ "Suc k"]) (auto simp: comp_def split: prod.split)
    qed (rule stop, simp add: Ok)+
  qed (rule stop, simp)+
qed simp

section \<open>An example\<close>

text \<open>A platform on which accounts are their seeds and Bob's machine of \<open>Exit_Props\<close> runs.\<close>

definition demoPlatform :: "(demo_world, demo_exit, demo_udp) platform" where
  "demoPlatform =
     \<lparr>NewAccount = (\<lambda>rnd seed. Ok (if seed = [] then 1 # rnd else seed)), accountSeed = id,
      NewWallet = (\<lambda>_. Ok ()),
      NewMultiClient = (\<lambda>acct ident n. Ok (ident @ ''.'' @ hexEncode acct, \<lparr>dwCache = [], dwClosed = [], dwRemote = []\<rparr>)),
      ResolveDest = Ok, mergeConfig = demoMerge, mergeDialConfig = (\<lambda>_ _. Ok throughput_dialConfig),
      tunaNames = demoNames, ipFilter = (\<lambda>_. 0), exitOps = demoExits [], osOps = autoOs,
      compileRe = (\<lambda>_. None), defaultRe = [], udpListen = (\<lambda>_ _. demoOpen)\<rparr>"

lemma demoPlatform_laws: "platform_laws demoPlatform hexEncode deService"
  using demoMerge_laws demoExits_laws autoOs_laws by (simp add: platform_laws_def demoPlatform_def)

definition noSockets :: os where
  "noSockets = \<lparr>tcpBound = [], udpBound = []\<rparr>"

lemma demo_client: "\<exists>c. newSessionClient demoPlatform s acct ident n conf = Ok c"
  by (simp add: newSessionClient_def NewTunaSessionClient_def MergedConfig_def demoPlatform_def demoMerge_def Let_def)

lemma demo_listens:
  "\<exists>l. throughput_listen demoPlatform noSockets acct throughput_defaults = Ok (l, None)"
proof -
  let ?F = demoPlatform and ?conf = "throughput_config (ipFilter demoPlatform) (flags.truncate throughput_defaults)"
  obtain c where c: "newSessionClient ?F noSockets acct listenID (numClients throughput_defaults) ?conf = Ok c"
    using demo_client by blast
  have id: "listenID \<noteq> []" by (simp add: listenID_def)
  note n = newSessionClient_ok [OF c demoPlatform_laws id]
  note f = fresh_tclientD [OF n(1)]
  have one: "NumTunaListeners (config c) = 1"
    using example_config_fields(2) [OF n(7) demoPlatform_laws disjI2 [OF refl]]
    by (simp add: throughput_defaults_def flags.defs)
  let ?c1 = "c\<lparr>acceptAddrs := [[]], sockets := \<lparr>tcpBound = [40000], udpBound = []\<rparr>, listeners := [40000]\<rparr>"
  have o: "openListeners autoOs (Suc 0) (sockets c) [] = (Ok [40000], \<lparr>tcpBound = [40000], udpBound = []\<rparr>)"
    using auto_open [of 40000 "[]" 0 "[]"] n(4) by (simp add: noSockets_def)
  obtain t where t: "exitConfig (config c) = Ok t" using exitConfig_ok [OF f(1)] by blast
  have "newTunaExit (demoExits []) ?c1 (int 0) = NewTunaExit (demoExits []) (portService 40000) t"
    using t by (subst newTunaExit_eq) (simp_all add: valid_port_def)
  then obtain e where "createExits (demoExits []) ?c1 0 (Suc 0) = Ok [e]"
    using n(5) by (simp add: demoExits_def)
  then have "startExits (demoExits []) autoOs (c\<lparr>acceptAddrs := [[]]\<rparr>) = (Ok (), ?c1\<lparr>tunaExits := Some [e]\<rparr>)"
    using o one f(5) by (simp add: startExits_def Let_def del: openListeners.simps createExits.simps)
  then have "listenNil ?F c = Ok (?c1\<lparr>tunaExits := Some [e]\<rparr>)"
    using f(4) n(6) by (simp add: listenNil_def Listen_def getAcceptAddrs_def demoPlatform_def)
  then show ?thesis using c by (simp add: throughput_listen_def) (simp add: throughput_defaults_def)
qed

section \<open>Properties\<close>

text \<open>
  C35: the two ends of the throughput example. With a listener count that is not negative the
  listening branch does not panic, whatever the other flags are. When it runs, its client is
  in a state of the machine of exits, so what is shown there (no panic, exits in step with
  listeners, \<open>Close\<close> ends everything) holds for the program; it has as many listeners as asked
  for (4 for 0), and its UDP session, with \<open>-u\<close>, is the one it reads from. And a dialer that is
  started with the seed the listener printed and without an address gets the listener's account
  and, over TCP or UDP, dials the listener's address.
\<close>

theorem example_programs_meet:
  assumes "platform_laws F pub svc" "proto_laws P" "0 \<le> numTunaListeners f"
    and "mainAccount F r (seedHex f) = Ok acct"
    and "seedHex g = printedSeed F acct" "dialAddrFlag g = []"
    and "newSessionClient F s' acct dialID (numClients g) (throughput_config (ipFilter F) (flags.truncate g)) = Ok d"
  shows "no_panic (throughput_listen F s acct f) \<and> mainAccount F r' (seedHex g) = Ok acct \<and>
    (\<forall>l v. throughput_listen F s acct f = Ok (l, v) \<longrightarrow>
      reachable (tsys_init (exitOps F) (osOps F) P svc) (tsys_step E (exitOps F) (osOps F) U P svc)
        \<lparr>tc = l, pending = []\<rparr> \<and>
      int (length (listeners l)) = (if numTunaListeners f = 0 then 4 else numTunaListeners f) \<and>
      listenerUdpSess l = v \<and> (v \<noteq> None \<longleftrightarrow> useUDP f) \<and>
      throughput_dial F E C P U unjson dialUDP uaOf s' acct g i =
      dialTo F E C P U unjson dialUDP uaOf (useUDP g) i d (Address l))"
proof (intro conjI allI impI)
  show "no_panic (throughput_listen F s acct f)" by (rule throughput_listen_no_panic [OF assms(1-3)])
  show "mainAccount F r' (seedHex g) = Ok acct" using mainAccount_again [OF assms(1,4)] assms(5) by simp
  fix l v assume l: "throughput_listen F s acct f = Ok (l, v)"
  note L = throughput_listen_ok [OF assms(1,2) l]
  show "throughput_dial F E C P U unjson dialUDP uaOf s' acct g i =
      dialTo F E C P U unjson dialUDP uaOf (useUDP g) i d (Address l)"
    using dialAddr_default [OF assms(7,1)] assms(6,7) L(2) by (simp add: throughput_dial_def)
  show "listenerUdpSess l = v" "v \<noteq> None \<longleftrightarrow> useUDP f"
    "int (length (listeners l)) = (if numTunaListeners f = 0 then 4 else numTunaListeners f)"
    "reachable (tsys_init (exitOps F) (osOps F) P svc) (tsys_step E (exitOps F) (osOps F) U P svc) \<lparr>tc = l, pending = []\<rparr>"
    by (fact L)+
qed

text \<open>A listener without flags whose account is \<open>0107\<close>, and the dialer with this seed.\<close>

theorem example_programs_meet_witness:
  "\<exists>l d. throughput_listen demoPlatform noSockets [1, 7] throughput_defaults = Ok (l, None) \<and> length (listeners l) = 1 \<and>
     mainAccount demoPlatform [] ''0107'' = Ok [1, 7] \<and>
     (\<forall>i. throughput_dial demoPlatform demoExt demoCrypto demoProto demoUdp (\<lambda>_. Err ErrEOF) (\<lambda>_. Ok demoOpen)
             PubAddr_String noSockets [1, 7] (throughput_defaults\<lparr>seedHex := ''0107''\<rparr>) i =
          dialTo demoPlatform demoExt demoCrypto demoProto demoUdp (\<lambda>_. Err ErrEOF) (\<lambda>_. Ok demoOpen)
             PubAddr_String False i d (Address l))"
proof -
  obtain l where l: "throughput_listen demoPlatform noSockets [1, 7] throughput_defaults = Ok (l, None)"
    using demo_listens by blast
  let ?g = "throughput_defaults\<lparr>seedHex := ''0107''\<rparr>"
  have n: "numTunaListeners throughput_defaults = 1" "0 \<le> numTunaListeners throughput_defaults" "\<not> useUDP ?g"
    by (simp_all add: throughput_defaults_def)
  have acct: "mainAccount demoPlatform [7] (seedHex throughput_defaults) = Ok [1, 7]"
    by (simp add: mainAccount_def demoPlatform_def throughput_defaults_def)
  have g: "seedHex ?g = printedSeed demoPlatform [1, 7]" "dialAddrFlag ?g = []"
    by (simp_all add: printedSeed_def demoPlatform_def hexEncode_def hexDigits_def throughput_defaults_def)
  obtain d where d: "newSessionClient demoPlatform noSockets [1, 7] dialID (numClients ?g)
      (throughput_config (ipFilter demoPlatform) (flags.truncate ?g)) = Ok d"
    using demo_client by blast
  note M = example_programs_meet [OF demoPlatform_laws demoProto_laws n(2) acct g d, of noSockets "[]" demoExt demoUdp
      demoCrypto "\<lambda>_. Err ErrEOF" "\<lambda>_. Ok demoOpen" PubAddr_String]
  have "int (length (listeners l)) = 1" using M l n(1) by auto
  then show ?thesis using M l n(3) by (intro exI [of _ l] exI [of _ d]) auto
qed

end
