(* ===== verification/Spec2Isabelle.thy ===== *)
theory Spec2Isabelle
  imports Tuna_Prelude Util Session_Pb Message Write_Lock Secure Config Client_State Registry Listener Dialer
    Handshake Delivery Session_Machine Registry_Types Dialing Reconnecting Udp_Session Udp_Machine Udp_Props Udp_Queue
    Udp_Monitor Node Exits Exit_Machine Exit_Props Serving Examples Http_Tunnel Example_Main
begin

text \<open>
  A verification of nkn-tuna-session, the Go package that runs ncp sessions over several TCP
  connections (and UDP sessions over one encrypted UDP socket) through tuna reverse proxies.

  \<^bold>\<open>The program.\<close> A \<open>TunaSessionClient\<close> (\<open>client.go\<close>) listens or dials. A listener opens
  \<open>NumTunaListeners\<close> local TCP listeners and starts one tuna exit for each (\<open>Listen\<close>,
  \<open>startExits\<close>); the exits get public addresses, which the client announces over NKN messages
  (\<open>listenNKN\<close>). A dialer asks for these addresses (\<open>getPubAddrsFromRemote\<close>), opens one TCP
  connection to each (\<open>dialTcpConn\<close>), and builds one ncp session over them
  (\<open>DialWithConfig\<close>). Each new connection starts with a handshake (\<open>message.go\<close>): the dialer's
  address in the clear, then the encrypted session metadata. From then on both ends run a
  handler per connection (\<open>handleConn\<close>) that feeds packets to the session, and keep
  reference counts that decide when a session ends, when cached addresses are dropped, and
  whether a dialer reconnects (\<open>reconnect\<close>). UDP sessions (\<open>udpsession.go\<close>, \<open>udp.go\<close>) use a
  TCP connection of the client as their life line and exchange datagrams with a one-byte
  header. \<open>node.go\<close> orders the proxy nodes, \<open>config.go\<close> and \<open>util.go\<close> hold configuration, map
  keys and the search for free ports. Two programs use the package: \<open>examples/throughput\<close>
  measures sessions, \<open>examples/http\<close> serves and tunnels HTTP.

  \<^bold>\<open>Conventions.\<close> \<open>Tuna_Prelude\<close>: an operation that can fail returns an \<open>outcome\<close>: \<open>Ok\<close>, an
  error, or a run-time panic, so every early return and every panic of the code is a value.
  Go maps are association lists, \<open>nil\<close> is \<open>None\<close>, pointers to connections index a heap.
  Objects that several goroutines share are step relations whose steps are the code's
  critical sections; the locale \<open>invariant_machine\<close> carries an invariant from the steps to all
  reachable states, \<open>safe_machine\<close> excludes panics, and the two are interpreted on the
  machines \<open>sys_step\<close> (a client), \<open>usys_step\<close> (a UDP session), \<open>tsys_step\<close> (exits),
  \<open>wl_step\<close> (the write lock) and \<open>tunnel_step\<close> (the tunnel of the http example); \<open>simulation\<close>
  extends them by an abstract machine that the steps implement, interpreted on a UDP session
  and a bounded queue. The locale
  \<open>refcounter\<close> is the contract of a reference count,
  interpreted on \<open>connCount\<close> and the nested \<open>addrConnCount\<close>; \<open>framed_transport\<close> is the
  contract of message framing, interpreted on \<open>readMessage\<close>.

  \<^bold>\<open>Theories and code.\<close>
  \<^item> \<open>Util\<close> (\<open>util.go\<close>): \<open>sessionKey\<close>, \<open>connID\<close>, \<open>GetFreePort\<close>, with \<open>strconv\<close> and \<open>hex\<close>. Keys are
    injective; \<open>GetFreePort\<close> leaves no socket behind.
  \<^item> \<open>Session_Pb\<close> (\<open>pb/session.pb.go\<close>): enumerations, messages, getters.
  \<^item> \<open>Message\<close> (\<open>conn.go\<close>, \<open>message.go\<close>): connections over a network that cuts the stream
    arbitrarily, \<open>readMessage\<close>, \<open>writeMessage\<close>; round trip, refinement of a reference parser.
    \<open>Write_Lock\<close>: the same under concurrent writers.
  \<^item> \<open>Secure\<close> (\<open>message.go\<close>, \<open>encode\<close> and \<open>decode\<close> of \<open>client.go\<close>): the key cache is transparent,
    \<open>decode\<close> inverts the peer's \<open>encode\<close>, and on which inputs it panics.
  \<^item> \<open>Config\<close> (\<open>config.go\<close>, \<open>SetConfig\<close>): what every configuration of a client satisfies.
  \<^item> \<open>Client_State\<close>, \<open>Registry\<close> (\<open>client.go\<close>): the client's record, \<open>handleConn\<close> in its three
    parts, \<open>removeClosedSessions\<close>, \<open>getCachedPubAddrs\<close>, \<open>CloseOneConn\<close>, \<open>IsSessClosed\<close>.
  \<^item> \<open>Listener\<close>: the goroutine of \<open>listenNet\<close>, \<open>AcceptSession\<close>, the replies of \<open>listenNKN\<close>.
    \<open>Dialer\<close>: address queries, \<open>dialTcpConn\<close>, \<open>DialWithConfig\<close>, \<open>reconnect\<close> and its retry loop.
  \<^item> \<open>Handshake\<close>: the dialer's handshake read back by the listener. \<open>Delivery\<close>: the packets of a
    session, from the send callback of one client through its peer's \<open>handleConn\<close> to the
    peer's session. \<open>Session_Machine\<close>: the client under all interleavings (which sections can
    panic and when, exact counts, the sessions of handlers, the life of cached addresses).
    \<open>Registry_Types\<close>: its tables have every key once, how a session ends, and that the sweep
    does not depend on the order of a range loop. \<open>Dialing\<close>: the outcomes of queries, dials and
    retries, and how the end of a session at the listener reaches the dialer. \<open>Reconnecting\<close>:
    the goroutine of a dialed connection, which replaces its connection while the session has
    another.
  \<^item> \<open>Udp_Session\<close> (\<open>udpsession.go\<close>, \<open>udp.go\<close>), \<open>Udp_Machine\<close>, \<open>Udp_Props\<close>: UDP sessions, their
    machine, and what they guarantee: bounded buffers, data from established sessions only,
    round trips, what setting up and closing a session change. \<open>Udp_Queue\<close>: the receive
    channel implements a bounded first-in first-out queue. \<open>Udp_Monitor\<close>: the goroutine that
    watches the TCP connection of a dialed UDP session and dials it up again.
  \<^item> \<open>Node\<close> (\<open>node.go\<close>): the choice of nodes, over arbitrary floating-point arithmetic.
  \<^item> \<open>Exits\<close> (\<open>client.go\<close>, \<open>ListenUDP\<close> of \<open>udp.go\<close>), \<open>Exit_Machine\<close>, \<open>Exit_Props\<close>: \<open>Listen\<close>,
    \<open>startExits\<close>, \<open>RotateOne\<close>, \<open>RotateAll\<close>, \<open>getPubAddrs\<close>, \<open>ListenUDP\<close>, \<open>Close\<close>; listeners, exits and
    announced addresses stay in step, which calls can panic and when, \<open>Close\<close> ends everything.
  \<^item> \<open>Serving\<close> (\<open>client.go\<close>): the loops of \<open>listenNet\<close> and \<open>listenNKN\<close> over these parts, and the
    remaining public methods. A connection of a new session is served from its first byte to
    its last, a further connection comes and goes without disturbing the session, and a
    dialer connects to exactly the exits that are up.
  \<^item> \<open>Examples\<close> (\<open>examples/throughput/main.go\<close>, \<open>examples/http/main.go\<close>): the transfers of the
    throughput program, which succeed below 4 GiB, and the settings both programs build.
    \<open>Example_Main\<close>: their \<open>main\<close> functions, from the flags over the account and the clients to
    the listening and dialing branches and their goroutines; the listening branch does not
    panic and ends in a state of \<open>tsys_step\<close>, and a dialer with the listener's seed dials it.
    \<open>Http_Tunnel\<close>: the two copying goroutines between a browser and a session do not disturb
    each other.

  \<^bold>\<open>Parameters.\<close> Code of other packages enters as records of functions, with what the client
  relies on as a predicate of laws, each met by a concrete instance in the examples: \<open>crypto\<close>
  (NaCl box, key conversions), \<open>proto\<close> (protobuf marshalling), \<open>merger\<close> (mergo), \<open>ext\<close> (ncp
  sessions, the expiring cache), \<open>os_ops\<close> (binding ports), \<open>udp_ops\<close> (\<open>EncryptUDPConn\<close>),
  \<open>exit_ops\<close> (\<open>TunaExit\<close>), \<open>float_ops\<close> and the sorter (\<open>sort.Sort\<close>), regular expressions;
  \<open>platform\<close> collects what the examples' programs get from nkn-sdk-go (accounts, wallets,
  clients) and the operating system.

  \<^bold>\<open>Loops.\<close> There is no fuel: reading loops recurse on what is left of the input, the bisection
  of \<open>sort.Search\<close> on the interval, \<open>GetFreePort\<close> on its 100 tries, the loops over lists on the
  lists. A loop that waits for the network consumes a finite list of events; retry loops
  return \<open>None\<close> when the events end before the loop does.

  \<^bold>\<open>Bounds of the machines.\<close> \<open>sys_step\<close> has a step for every critical section of \<open>client.go\<close> that
  touches sessions, connections, counts or cached addresses, and for its panic; dialing a session
  is two of them, and its ghost fields \<open>swept\<close> and \<open>crossed\<close> name the session keys for which
  guarantees are weaker: those that \<open>removeClosedSessions\<close> has dropped, and those that were in use
  by the peer when a dial registered its session. Reading and decoding packets happens outside of
  the lock and is not a step; on which messages \<open>decode\<close> panics is in \<open>Secure\<close>. In \<open>usys_step\<close>
  datagrams have at least one byte (empty ones panic, \<open>Udp_Props\<close>), and \<open>recvMsg\<close> handles a datagram
  in one step, although it looks the source up before, and partly without, the lock; what Go's
  runtime makes of concurrent map accesses is not modelled. In \<open>tsys_step\<close>, \<open>Listen\<close> has
  succeeded once (otherwise see \<open>failed_start_not_retried\<close>), and settings stay within
  \<open>config_ok\<close>, which \<open>SetConfig\<close> keeps.

  \<^bold>\<open>Not modelled.\<close> The tests; in the examples the parsing of the command line, HTTP itself
  (\<open>net/http\<close>) and the waits for clients and exits to connect; the generated reflection tables
  of \<open>pb/session.pb.go\<close>; log output; TCP keep-alive; time-outs other than deadlines that are
  passed on. Data races on fields that the code reads without a lock (\<open>isClosed\<close> in \<open>listenNet\<close>,
  \<open>udpConn\<close>) are taken as reads of the current value.
\<close>

end
